(* ===== verification/Kitchen_Prelude.thy ===== *)
theory Kitchen_Prelude
  imports Main
    "HOL-Library.AList"
    "HOL-Library.Multiset"
    "HOL-Library.Product_Lexorder"
    "HOL-Library.List_Lexorder"
    "HOL-Library.Char_ord"
begin

section \<open>Prelude: results, dictionaries, and merging by key\<close>

text \<open>
  What the component theories share.  A fallible operation of the code returns a value of
  a sum type, \<^term>\<open>Inl\<close> for what it raises and \<^term>\<open>Inr\<close> for what it returns.
  A Python \<^verbatim>\<open>dict\<close> is an association list without duplicate keys whose
  order is the insertion order: \<^const>\<open>AList.update\<close> overwrites in place or appends,
  as \<^verbatim>\<open>d[k] = v\<close> does.

  The locale \<open>keyed_merge\<close> is the interface the inventory fold rests on: values that
  carry a key and a partial merge that is commutative and associative on values of one
  key.  What follows from it -- that absorbing values into a dictionary never fails, does
  not depend on their order, and can be done in shards -- is proved once, here.
\<close>

named_theorems bounds_simps "bounds of machine-sized and column-sized quantities"
named_theorems db_simps "definitions of the statements the repositories execute"

subsection \<open>Results\<close>

definition bind_sum :: "'e + 'a \<Rightarrow> ('a \<Rightarrow> 'e + 'b) \<Rightarrow> 'e + 'b" where
  "bind_sum m f = (case m of Inl e \<Rightarrow> Inl e | Inr x \<Rightarrow> f x)"

lemma bind_sum_simps [simp]: "bind_sum (Inl e) f = Inl e" "bind_sum (Inr x) f = f x"
  by (simp_all add: bind_sum_def)

lemma bind_sum_Inr_iff: "bind_sum m f = Inr y \<longleftrightarrow> (\<exists>x. m = Inr x \<and> f x = Inr y)"
  by (cases m) simp_all

lemma bind_sum_Inl_iff: "bind_sum m f = Inl e \<longleftrightarrow> m = Inl e \<or> (\<exists>x. m = Inr x \<and> f x = Inl e)"
  by (cases m) simp_all

lemma pred_option_case [code]: "pred_option P x = (case x of None \<Rightarrow> True | Some y \<Rightarrow> P y)"
  by (simp split: option.split)

lemma bind_sum_InrE:
  assumes "bind_sum m f = Inr y"
  obtains x where "m = Inr x" and "f x = Inr y"
  using assms by (auto simp: bind_sum_Inr_iff)

subsection \<open>Lists, multisets and sorting\<close>

declare sort_key_by_quicksort_code [code del]
declare sort_key_def [code]

lemma sum_list_update_less:
  "i < length xs \<Longrightarrow> f y < f (xs ! i) \<Longrightarrow> sum_list (map f (xs[i := y])) < (sum_list (map f xs) :: nat)"
  by (induction xs arbitrary: i) (auto split: nat.split)

lemma fold_mset_cong:
  assumes comm: "\<And>x y s. P s \<Longrightarrow> f x (f y s) = f y (f x s)"
    and pres: "\<And>x s. P s \<Longrightarrow> P (f x s)"
    and "mset xs = mset ys" and "P s"
  shows "fold f xs s = fold f ys s"
  using assms(3,4)
proof (induction xs arbitrary: ys s)
  case Nil
  then show ?case by simp
next
  case (Cons x xs)
  have swap: "fold f zs (f x s') = f x (fold f zs s')" if "P s'" for zs s'
    using that by (induction zs arbitrary: s') (simp_all add: pres comm[of _ _ x])
  have "x \<in> set ys"
    using Cons.prems(1) by (metis list.set_intros(1) set_mset_mset)
  then obtain as bs where ys: "ys = as @ x # bs"
    by (meson split_list)
  then have "mset xs = mset (as @ bs)"
    using Cons.prems(1) by simp
  then have "fold f xs (f x s) = fold f (as @ bs) (f x s)"
    using Cons.IH Cons.prems(2) pres by blast
  also have "\<dots> = fold f ys s"
    using Cons.prems(2) by (simp add: ys swap)
  finally show ?case by simp
qed

lemma sort_key_mset_cong:
  assumes "mset xs = mset ys" and "inj_on f (set ys)"
  shows "sort_key f xs = sort_key f ys"
proof -
  have "set xs = set ys"
    using assms(1) by (rule mset_eq_setD)
  then show ?thesis
    using sort_key_inj_key_eq[of xs "sort_key f ys" f] assms by simp
qed

lemma sort_key_sorted_id: "sorted (map f xs) \<Longrightarrow> sort_key f xs = xs"
  by (induction xs) (auto simp: insort_is_Cons)

lemma map_of_mset_cong:
  assumes "distinct (map fst xs)" and "distinct (map fst ys)" and "map_of xs = map_of ys"
  shows "mset xs = mset ys"
proof -
  have "set xs = set ys"
    using assms by (metis map_of_inject_set)
  moreover have "distinct xs" and "distinct ys"
    using assms(1,2) by (simp_all add: distinct_map)
  ultimately show ?thesis
    by (simp add: set_eq_iff_mset_eq_distinct)
qed

lemma sum_by_group:
  fixes g :: "'a \<Rightarrow> 'b::comm_monoid_add"
  assumes "finite K" and "key ` set xs \<subseteq> K"
  shows "(\<Sum>k \<in> {k \<in> K. P k}. sum_list (map g (filter (\<lambda>x. key x = k) xs)))
    = sum_list (map g (filter (\<lambda>x. P (key x)) xs))"
  using assms
proof (induction xs)
  case Nil
  then show ?case by simp
next
  case (Cons x xs)
  have "(\<Sum>k \<in> {k \<in> K. P k}. sum_list (map g (filter (\<lambda>y. key y = k) (x # xs))))
      = (\<Sum>k \<in> {k \<in> K. P k}. (if k = key x then g x else 0) +
          sum_list (map g (filter (\<lambda>y. key y = k) xs)))"
    by (intro sum.cong) auto
  also have "\<dots> = (if P (key x) then g x else 0) + sum_list (map g (filter (\<lambda>y. P (key y)) xs))"
    using Cons by (simp add: sum.distrib)
  finally show ?case by simp
qed

subsection \<open>Merging values by key\<close>

definition merge_into ::
  "('s \<Rightarrow> 'k) \<Rightarrow> ('s \<Rightarrow> 's \<Rightarrow> 'e + 's) \<Rightarrow> ('k \<times> 's) list \<Rightarrow> 's \<Rightarrow> 'e + ('k \<times> 's) list" where
  "merge_into key merge d x =
     (case map_of d (key x) of
        None \<Rightarrow> Inr (AList.update (key x) x d)
      | Some y \<Rightarrow>
          (case merge y x of
             Inl e \<Rightarrow> Inl e
           | Inr z \<Rightarrow> Inr (AList.update (key x) z d)))"

fun merge_all ::
  "('s \<Rightarrow> 'k) \<Rightarrow> ('s \<Rightarrow> 's \<Rightarrow> 'e + 's) \<Rightarrow> ('k \<times> 's) list \<Rightarrow> 's list \<Rightarrow> 'e + ('k \<times> 's) list" where
  "merge_all key merge d [] = Inr d"
| "merge_all key merge d (x # xs) =
     (case merge_into key merge d x of
        Inl e \<Rightarrow> Inl e
      | Inr d' \<Rightarrow> merge_all key merge d' xs)"

definition dict_ok :: "('s \<Rightarrow> 'k) \<Rightarrow> ('k \<times> 's) list \<Rightarrow> bool" where
  "dict_ok key d \<longleftrightarrow> distinct (map fst d) \<and> (\<forall>(k, s) \<in> set d. key s = k)"

definition dict_of :: "('s \<Rightarrow> 'k) \<Rightarrow> 's list \<Rightarrow> ('k \<times> 's) list" where
  "dict_of key xs = fold (\<lambda>x d. AList.update (key x) x d) xs []"

lemma dict_okD: "dict_ok key d \<Longrightarrow> map_of d k = Some s \<Longrightarrow> key s = k"
  by (auto simp: dict_ok_def dest: map_of_SomeD)

lemma dict_ok_Nil [simp]: "dict_ok key []"
  by (simp add: dict_ok_def)

lemma dict_ok_update:
  assumes "dict_ok key d" and "key s = k"
  shows "dict_ok key (AList.update k s d)"
proof -
  have "set (AList.update k s d) \<subseteq> insert (k, s) (set d)"
    by (induction d) auto
  then show ?thesis
    using assms by (auto simp: dict_ok_def distinct_update)
qed

lemma dict_of_distinct:
  "distinct (map key xs) \<Longrightarrow> dict_of key xs = map (\<lambda>x. (key x, x)) xs"
proof -
  have fresh: "k \<notin> fst ` set d \<Longrightarrow> AList.update k s d = d @ [(k, s)]" for k s d
    by (induction d) auto
  have "distinct (map fst d @ map key xs) \<Longrightarrow>
      fold (\<lambda>x d. AList.update (key x) x d) xs d = d @ map (\<lambda>x. (key x, x)) xs"
    for d
    by (induction xs arbitrary: d) (auto simp: fresh)
  then show "distinct (map key xs) \<Longrightarrow> ?thesis"
    by (simp add: dict_of_def)
qed

lemma dict_ok_dict_of: "dict_ok key (dict_of key xs)"
proof -
  have "dict_ok key d \<Longrightarrow> dict_ok key (fold (\<lambda>x d. AList.update (key x) x d) xs d)" for d
    by (induction xs arbitrary: d) (auto simp: dict_ok_update)
  then show ?thesis
    by (simp add: dict_of_def)
qed

lemma dict_values_determined:
  assumes "dict_ok key d" and "dict_ok key d'" and "map_of d = map_of d'"
  shows "mset (map snd d) = mset (map snd d')"
  using map_of_mset_cong[of d d'] assms by (simp add: dict_ok_def)

lemma dict_keys_of_values:
  assumes "dict_ok key d"
  shows "map key (map snd d) = map fst d"
  using assms by (induction d) (auto simp: dict_ok_def)

lemma map_of_dict_of: "map_of (dict_of key xs) = fold (\<lambda>x m. m(key x \<mapsto> x)) xs Map.empty"
proof -
  have "map_of (fold (\<lambda>x d. AList.update (key x) x d) xs d) = fold (\<lambda>x m. m(key x \<mapsto> x)) xs (map_of d)"
    for d
    by (induction xs arbitrary: d) (auto simp: update_conv')
  then show ?thesis
    by (simp add: dict_of_def)
qed

text \<open>
  The contract of a keyed merge.  On values of one key it succeeds, keeps the key, and is
  commutative and associative; nothing is assumed of values with different keys.
\<close>

locale keyed_merge =
  fixes key :: "'s \<Rightarrow> 'k"
    and merge :: "'s \<Rightarrow> 's \<Rightarrow> 'e + 's"
    and join :: "'s \<Rightarrow> 's \<Rightarrow> 's"
  assumes merge_join: "key a = key b \<Longrightarrow> merge a b = Inr (join a b)"
    and join_key: "key a = key b \<Longrightarrow> key (join a b) = key a"
    and join_comm: "key a = key b \<Longrightarrow> join a b = join b a"
    and join_assoc: "key a = key b \<Longrightarrow> key b = key c \<Longrightarrow> join (join a b) c = join a (join b c)"
begin

definition pour :: "'s option \<Rightarrow> 's list \<Rightarrow> 's option" where
  "pour acc xs =
     (case acc of
        Some a \<Rightarrow> Some (foldl join a xs)
      | None \<Rightarrow> (case xs of [] \<Rightarrow> None | y # ys \<Rightarrow> Some (foldl join y ys)))"

definition absorb :: "('k \<rightharpoonup> 's) \<Rightarrow> 's list \<Rightarrow> ('k \<rightharpoonup> 's)" where
  "absorb m xs = (\<lambda>k. pour (m k) (filter (\<lambda>x. key x = k) xs))"

lemma pour_simps [simp]:
  "pour None [] = None"
  "pour None (x # xs) = Some (foldl join x xs)"
  "pour (Some a) xs = Some (foldl join a xs)"
  by (simp_all add: pour_def)

lemma foldl_join_key: "\<forall>x \<in> set xs. key x = key a \<Longrightarrow> key (foldl join a xs) = key a"
  by (induction xs arbitrary: a) (simp_all add: join_key)

lemma foldl_join_start:
  assumes "key a = key b" and "\<forall>x \<in> set xs. key x = key b"
  shows "foldl join (join a b) xs = join a (foldl join b xs)"
  using assms by (induction xs arbitrary: b) (simp_all add: join_assoc join_key)

lemma foldl_join_perm:
  assumes "mset xs = mset ys" and "\<forall>x \<in> set xs. key x = key a"
  shows "foldl join a xs = foldl join a ys"
  using assms
proof (induction xs arbitrary: a ys)
  case Nil
  then show ?case by simp
next
  case (Cons x xs)
  then have "x \<in> set ys"
    by (metis list.set_intros(1) set_mset_mset)
  then obtain as bs where ys: "ys = as @ x # bs"
    by (meson split_list)
  have "set (x # xs) = set ys"
    using Cons.prems(1) by (rule mset_eq_setD)
  then have keys: "\<forall>z \<in> set as. key z = key a" "key x = key a"
    using Cons.prems(2) ys by auto
  have slide: "join (foldl join b as) x = foldl join (join b x) as" if "key b = key a" for b
  proof -
    have "key (foldl join b as) = key x"
      using foldl_join_key[of as b] keys that by simp
    then have "join (foldl join b as) x = join x (foldl join b as)"
      by (rule join_comm)
    also have "\<dots> = foldl join (join x b) as"
      using foldl_join_start[of x b as] keys that by simp
    also have "join x b = join b x"
      using keys that by (simp add: join_comm)
    finally show ?thesis .
  qed
  have "mset xs = mset (as @ bs)"
    using Cons.prems ys by simp
  moreover have "\<forall>z \<in> set xs. key z = key (join a x)"
    using Cons.prems keys by (simp add: join_key)
  ultimately have "foldl join (join a x) xs = foldl join (join a x) (as @ bs)"
    by (rule Cons.IH)
  then show ?case
    by (simp add: ys slide)
qed

lemma pour_perm:
  assumes "mset xs = mset ys" and keys: "\<forall>x \<in> set xs. key x = k" and acc: "\<And>a. acc = Some a \<Longrightarrow> key a = k"
  shows "pour acc xs = pour acc ys"
proof (cases acc)
  case (Some a)
  then show ?thesis
    using foldl_join_perm[of xs ys a] assms by simp
next
  case None
  show ?thesis
  proof (cases xs)
    case Nil
    then show ?thesis using assms(1) by simp
  next
    case (Cons x xs')
    then obtain y ys' where ys: "ys = y # ys'"
      using assms(1) by (cases ys) auto
    have keys': "\<forall>z \<in> set ys. key z = k"
      using keys assms(1) by (metis set_mset_mset)
    have "foldl join x xs' = foldl join y ys'"
    proof (cases "x = y")
      case True
      then have "mset xs' = mset ys'"
        using assms(1) Cons ys by simp
      then show ?thesis
        using foldl_join_perm[of xs' ys' x] keys Cons True by simp
    next
      case False
      have "y \<in> set xs"
        using assms(1) ys by (metis list.set_intros(1) set_mset_mset)
      then obtain zs where zs: "mset xs' = mset (y # zs)"
        using False Cons by (metis ex_mset list.set_intros(1) mset.simps(2) multi_member_split set_ConsD set_mset_mset)
      then have zs': "mset ys' = mset (x # zs)"
        using assms(1) Cons ys False by (simp add: add_eq_conv_ex)
      have zk: "\<forall>z \<in> set (y # zs). key z = k"
        using zs keys Cons by (metis list.set_intros(2) set_mset_mset)
      have "foldl join x xs' = foldl join x (y # zs)"
        using foldl_join_perm[OF zs, of x] keys Cons by simp
      also have "\<dots> = foldl join y (x # zs)"
        using zk keys Cons by (simp add: join_comm)
      also have "\<dots> = foldl join y ys'"
        using foldl_join_perm[OF zs', of y] keys' ys by simp
      finally show ?thesis .
    qed
    then show ?thesis
      using Cons ys None by simp
  qed
qed

lemma absorb_perm:
  assumes "mset xs = mset ys" and "\<And>k a. m k = Some a \<Longrightarrow> key a = k"
  shows "absorb m xs = absorb m ys"
proof
  fix k
  have "mset (filter (\<lambda>x. key x = k) xs) = mset (filter (\<lambda>x. key x = k) ys)"
    using assms(1) by simp
  then show "absorb m xs k = absorb m ys k"
    unfolding absorb_def by (rule pour_perm) (auto simp: assms(2))
qed

lemma absorb_Nil [simp]: "absorb m [] = m"
proof
  show "absorb m [] k = m k" for k
    by (cases "m k") (simp_all add: absorb_def)
qed

lemma pour_append: "pour acc (xs @ ys) = pour (pour acc xs) ys"
  by (cases acc; cases xs) auto

lemma absorb_append: "absorb m (xs @ ys) = absorb (absorb m xs) ys"
  by (simp add: absorb_def pour_append)

lemma absorb_Cons: "absorb m (x # xs) = absorb (absorb m [x]) xs"
  using absorb_append[of m "[x]" xs] by simp

lemma pour_key:
  assumes "pour acc xs = Some b" and "\<forall>x \<in> set xs. key x = k" and "\<And>a. acc = Some a \<Longrightarrow> key a = k"
  shows "key b = k"
  using assms by (cases acc; cases xs) (auto simp: foldl_join_key join_key)

lemma absorb_key: "\<lbrakk>absorb m xs k = Some b; \<And>a. m k = Some a \<Longrightarrow> key a = k\<rbrakk> \<Longrightarrow> key b = k"
  unfolding absorb_def by (erule pour_key) auto

lemma foldl_join_pres:
  assumes "\<And>a b. key a = key b \<Longrightarrow> I a \<Longrightarrow> I b \<Longrightarrow> I (join a b)"
    and "\<forall>x \<in> set xs. key x = key a \<and> I x" and "I a"
  shows "I (foldl join a xs)"
  using assms(2,3) by (induction xs arbitrary: a) (simp_all add: assms(1) join_key)

text \<open>A property every value has and every merge keeps holds of what was absorbed.\<close>

lemma absorb_pres:
  assumes pres: "\<And>a b. key a = key b \<Longrightarrow> I a \<Longrightarrow> I b \<Longrightarrow> I (join a b)"
    and "\<And>k a. m k = Some a \<Longrightarrow> key a = k \<and> I a" and "\<forall>x \<in> set xs. I x"
    and "absorb m xs k = Some b"
  shows "I b"
proof -
  let ?own = "filter (\<lambda>x. key x = k) xs"
  have own: "\<forall>x \<in> set ?own. key x = k \<and> I x"
    using assms(3) by simp
  consider a where "m k = Some a" "b = foldl join a ?own" |
      x zs where "?own = x # zs" "b = foldl join x zs"
    using assms(4) by (cases "m k"; cases ?own) (auto simp: absorb_def)
  then show ?thesis
  proof cases
    case (1 a)
    then have "\<forall>x \<in> set ?own. key x = key a \<and> I x" "I a"
      using own assms(2) by blast+
    then show ?thesis
      using 1(2) foldl_join_pres[of I, OF pres] by blast
  next
    case (2 x zs)
    have "\<forall>z \<in> set zs. key z = key x \<and> I z" "I x"
      using own unfolding 2(1) by simp_all
    then show ?thesis
      using 2(2) foldl_join_pres[of I, OF pres] by blast
  qed
qed

text \<open>Absorbing one value already merged from others is absorbing the others.\<close>

lemma pour_pour:
  assumes "\<forall>x \<in> set xs. key x = k" and "\<And>a. acc = Some a \<Longrightarrow> key a = k"
  shows "pour acc (case pour None xs of None \<Rightarrow> [] | Some b \<Rightarrow> [b]) = pour acc xs"
  using assms foldl_join_start by (cases acc; cases xs) auto

text \<open>One step on the dictionary is one step on the map it denotes, and never fails.\<close>

lemma merge_into_ok:
  assumes "dict_ok key d"
  shows "\<exists>d'. merge_into key merge d x = Inr d' \<and> dict_ok key d' \<and> map_of d' = absorb (map_of d) [x]"
proof (cases "map_of d (key x)")
  case None
  have "map_of (AList.update (key x) x d) = absorb (map_of d) [x]"
  proof
    show "map_of (AList.update (key x) x d) k = absorb (map_of d) [x] k" for k
      using None by (cases "map_of d k") (auto simp: update_conv' absorb_def)
  qed
  with None assms show ?thesis
    by (simp add: merge_into_def dict_ok_update)
next
  case (Some y)
  then have ky: "key y = key x"
    using dict_okD[OF assms] by blast
  have "map_of (AList.update (key x) (join y x) d) = absorb (map_of d) [x]"
  proof
    show "map_of (AList.update (key x) (join y x) d) k = absorb (map_of d) [x] k" for k
      using Some by (cases "map_of d k") (auto simp: update_conv' absorb_def)
  qed
  with Some ky assms show ?thesis
    by (simp add: merge_into_def merge_join dict_ok_update join_key)
qed

lemma merge_all_ok:
  assumes "dict_ok key d"
  shows "\<exists>d'. merge_all key merge d xs = Inr d' \<and> dict_ok key d' \<and> map_of d' = absorb (map_of d) xs"
  using assms
proof (induction xs arbitrary: d)
  case Nil
  then show ?case by simp
next
  case (Cons x xs)
  obtain d1 where d1: "merge_into key merge d x = Inr d1" "dict_ok key d1"
      "map_of d1 = absorb (map_of d) [x]"
    using merge_into_ok[OF Cons.prems] by blast
  obtain d' where d': "merge_all key merge d1 xs = Inr d'" "dict_ok key d'"
      "map_of d' = absorb (map_of d1) xs"
    using Cons.IH[OF d1(2)] by blast
  have "merge_all key merge d (x # xs) = Inr d'"
    using d1(1) d'(1) by simp
  moreover have "map_of d' = absorb (map_of d) (x # xs)"
    unfolding d'(3) d1(3) by (rule absorb_Cons[symmetric])
  ultimately show ?case
    using d'(2) by blast
qed

text \<open>Sharding: absorbing the values of a dictionary built from some values is absorbing them.\<close>

lemma absorb_values:
  assumes "dict_ok key d" and "map_of d = absorb Map.empty xs" and "\<And>k a. m k = Some a \<Longrightarrow> key a = k"
  shows "absorb m (map snd d) = absorb m xs"
proof
  fix k
  have "filter (\<lambda>x. key x = k) (map snd d) = (case map_of d k of None \<Rightarrow> [] | Some b \<Rightarrow> [b])"
    using assms(1)
  proof (induction d)
    case Nil
    then show ?case by simp
  next
    case (Cons p d)
    obtain k' s where p: "p = (k', s)" by (cases p)
    have "dict_ok key d" and ks: "key s = k'" and fresh: "k' \<notin> fst ` set d"
      using Cons.prems by (auto simp: dict_ok_def p)
    have none: "map_of d k' = None"
      using fresh by (simp add: map_of_eq_None_iff)
    show ?case
      using Cons.IH[OF \<open>dict_ok key d\<close>] none
      by (cases "k = k'") (simp_all add: p ks)
  qed
  also have "\<dots> = (case pour None (filter (\<lambda>x. key x = k) xs) of None \<Rightarrow> [] | Some b \<Rightarrow> [b])"
    by (simp add: assms(2) absorb_def)
  finally show "absorb m (map snd d) k = absorb m xs k"
    unfolding absorb_def using pour_pour[of "filter (\<lambda>x. key x = k) xs" k "m k"] assms(3) by simp
qed

end

end
