(* ===== verification/Module_Imports.thy ===== *)
theory Module_Imports
  imports Kitchen_Prelude
begin

section \<open>Packages and their imports\<close>

text \<open>
  The modules of \<^verbatim>\<open>src/kitchensense\<close> as Python's import system sees them: the statements that bind names at the top of each, in order, with the names each
  package exports.  \<open>load\<close> is the import of a module: its parents first, once each, entered in \<^verbatim>\<open>sys.modules\<close> before its body is run, so that an
  import that comes back to it finds what is bound so far.  \<^verbatim>\<open>from m import x\<close> takes a name \<open>m\<close> has bound, or else its submodule.  Modules
  outside the repository are taken to have what is imported from them.

  The lemmas show that every module can be imported, and be the first, that packages have what they export, and what an import of the
  domain or of the models brings with it.
\<close>

datatype python_statement =
    From string "string list"
  | FromAs string string string
  | Import string
  | Define "string list"
  | Exports "string list"

datatype import_error = NoModule string | NoName string string | Unfinished

type_synonym sources = "(string \<times> python_statement list) list"

text \<open>\<^verbatim>\<open>sys.modules\<close>, each with the names bound in it.\<close>

type_synonym modules = "(string \<times> string list) list"

definition parent :: "string \<Rightarrow> string" where
  "parent name = rev (drop 1 (dropWhile (\<lambda>c. c \<noteq> CHR ''.'') (rev name)))"

definition leaf :: "string \<Rightarrow> string" where
  "leaf name = rev (takeWhile (\<lambda>c. c \<noteq> CHR ''.'') (rev name))"

definition root :: "string \<Rightarrow> string" where
  "root name = takeWhile (\<lambda>c. c \<noteq> CHR ''.'') name"

definition external :: "string \<Rightarrow> bool" where
  "external name = (root name \<noteq> ''kitchensense'')"

definition bind_names :: "string \<Rightarrow> string list \<Rightarrow> modules \<Rightarrow> modules" where
  "bind_names m xs ms = (case map_of ms m of None \<Rightarrow> ms | Some ys \<Rightarrow> AList.update m (xs @ ys) ms)"

definition has_name :: "modules \<Rightarrow> string \<Rightarrow> string \<Rightarrow> bool" where
  "has_name ms m x = (case map_of ms m of None \<Rightarrow> False | Some ys \<Rightarrow> List.member ys x)"

fun statement_size :: "python_statement \<Rightarrow> nat" where
  "statement_size (From m xs) = Suc (Suc (length xs))"
| "statement_size (FromAs m x y) = 3"
| "statement_size _ = 1"

text \<open>The fuel bounds how deep imports may lie inside one another.\<close>

function (sequential) load :: "nat \<Rightarrow> sources \<Rightarrow> string \<Rightarrow> modules \<Rightarrow> import_error + modules"
  and find_names :: "nat \<Rightarrow> sources \<Rightarrow> string \<Rightarrow> string list \<Rightarrow> modules \<Rightarrow> import_error + modules"
  and exec :: "nat \<Rightarrow> sources \<Rightarrow> string \<Rightarrow> python_statement list \<Rightarrow> modules \<Rightarrow> import_error + modules" where
  "load 0 src name ms = Inl Unfinished"
| "load (Suc n) src name ms =
     (if map_of ms name \<noteq> None then Inr ms
      else if external name then Inr ((name, []) # ms)
      else case (if parent name = [] then Inr ms else load n src (parent name) ms) of
             Inl e \<Rightarrow> Inl e
           | Inr ms1 \<Rightarrow>
               if map_of ms1 name \<noteq> None then Inr ms1
               else (case map_of src name of
                       None \<Rightarrow> Inl (NoModule name)
                     | Some body \<Rightarrow>
                         (case exec n src name body ((name, []) # ms1) of
                            Inl e \<Rightarrow> Inl e
                          | Inr ms2 \<Rightarrow> Inr (bind_names (parent name) [leaf name] ms2))))"
| "find_names n src m [] ms = Inr ms"
| "find_names n src m (x # xs) ms =
     (if external m \<or> has_name ms m x then find_names n src m xs ms
      else if map_of src (m @ ''.'' @ x) = None then Inl (NoName m x)
      else case load n src (m @ ''.'' @ x) ms of Inl e \<Rightarrow> Inl e | Inr ms1 \<Rightarrow> find_names n src m xs ms1)"
| "exec n src cur [] ms = Inr ms"
| "exec n src cur (Define xs # ss) ms = exec n src cur ss (bind_names cur xs ms)"
| "exec n src cur (Exports xs # ss) ms = exec n src cur ss (bind_names cur [''__all__''] ms)"
| "exec n src cur (Import m # ss) ms =
     (case load n src m ms of
        Inl e \<Rightarrow> Inl e
      | Inr ms1 \<Rightarrow> exec n src cur ss (bind_names cur [root m] ms1))"
| "exec n src cur (From m xs # ss) ms =
     (case load n src m ms of
        Inl e \<Rightarrow> Inl e
      | Inr ms1 \<Rightarrow>
          (case find_names n src m xs ms1 of
             Inl e \<Rightarrow> Inl e
           | Inr ms2 \<Rightarrow> exec n src cur ss (bind_names cur xs ms2)))"
| "exec n src cur (FromAs m x y # ss) ms =
     (case load n src m ms of
        Inl e \<Rightarrow> Inl e
      | Inr ms1 \<Rightarrow>
          (case find_names n src m [x] ms1 of
             Inl e \<Rightarrow> Inl e
           | Inr ms2 \<Rightarrow> exec n src cur ss (bind_names cur [y] ms2)))"
  by pat_completeness auto

termination
  by (relation "measures [\<lambda>a. case a of Inl (n, _) \<Rightarrow> n | Inr (Inl (n, _)) \<Rightarrow> n | Inr (Inr (n, _)) \<Rightarrow> n,
        \<lambda>a. case a of Inl _ \<Rightarrow> 0 | Inr (Inl (n, _, _, xs, _)) \<Rightarrow> Suc (length xs)
          | Inr (Inr (n, _, _, ss, _)) \<Rightarrow> Suc (sum_list (map statement_size ss))]") auto

subsection \<open>An order in which nothing is missing\<close>

lemma parent_shorter: "parent name \<noteq> [] \<Longrightarrow> length (parent name) < length name"
  using length_dropWhile_le[of "\<lambda>c. c \<noteq> CHR ''.''" "rev name"]
  by (cases "dropWhile (\<lambda>c. c \<noteq> CHR ''.'') (rev name)") (auto simp: parent_def)

lemma parent_leaf: "parent name \<noteq> [] \<Longrightarrow> name = parent name @ CHR ''.'' # leaf name"
proof -
  let ?p = "\<lambda>c. c \<noteq> CHR ''.''"
  assume "parent name \<noteq> []"
  then obtain c r where r: "dropWhile ?p (rev name) = c # r"
    by (cases "dropWhile ?p (rev name)") (auto simp: parent_def)
  then have "rev name = takeWhile ?p (rev name) @ CHR ''.'' # r"
    using takeWhile_dropWhile_id[of ?p "rev name"] by (auto simp: dropWhile_eq_Cons_conv)
  from arg_cong [OF this, of rev] have "name = rev r @ CHR ''.'' # rev (takeWhile ?p (rev name))"
    by simp
  moreover from r have "parent name = rev r"
    by (simp add: parent_def)
  ultimately show ?thesis
    by (simp add: leaf_def)
qed

lemma root_submodule: "root (p @ CHR ''.'' # l) = root p"
  by (induction p) (auto simp: root_def)

lemma external_parent: "parent name \<noteq> [] \<Longrightarrow> external (parent name) = external name"
  using arg_cong [OF parent_leaf, of name root] by (simp add: external_def root_submodule)

function ancestors :: "string \<Rightarrow> string list" where
  "ancestors name = (if parent name = [] then [] else parent name # ancestors (parent name))"
  by pat_completeness auto
termination
  by (relation "measure length") (auto simp: parent_shorter)

declare ancestors.simps [simp del]

fun names_bound :: "python_statement \<Rightarrow> string list" where
  "names_bound (From m xs) = xs"
| "names_bound (FromAs m x y) = [y]"
| "names_bound (Import m) = [root m]"
| "names_bound (Define xs) = xs"
| "names_bound (Exports xs) = [''__all__'']"

fun modules_imported :: "python_statement \<Rightarrow> string list" where
  "modules_imported (From m xs) = [m]"
| "modules_imported (FromAs m x y) = [m]"
| "modules_imported (Import m) = [m]"
| "modules_imported _ = []"

definition body_imports :: "sources \<Rightarrow> string \<Rightarrow> string list" where
  "body_imports src m = (case map_of src m of None \<Rightarrow> [] | Some body \<Rightarrow> concat (map modules_imported body))"

definition body_names :: "sources \<Rightarrow> string \<Rightarrow> string list" where
  "body_names src m = (case map_of src m of None \<Rightarrow> [] | Some body \<Rightarrow> concat (map names_bound body))"

text \<open>A module's place among the sources, which list a module behind those it imports.\<close>

definition rank :: "sources \<Rightarrow> string \<Rightarrow> nat" where
  "rank src m = length (takeWhile (\<lambda>s. fst s \<noteq> m) src)"

lemma rank_less: "map_of src k \<noteq> None \<Longrightarrow> rank src k < length src"
  by (induction src) (auto simp: rank_def split: if_splits)

definition earlier :: "sources \<Rightarrow> string \<Rightarrow> string \<Rightarrow> bool" where
  "earlier src k m = (map_of src m \<noteq> None \<and> rank src m < rank src k)"

definition available :: "sources \<Rightarrow> string \<Rightarrow> string \<Rightarrow> bool" where
  "available src k m =
     (\<not> external m \<and> earlier src k m \<and>
      list_all (\<lambda>a. a = k \<or> a \<in> set (ancestors k) \<or> earlier src k a) (ancestors m))"

definition names_ok :: "sources \<Rightarrow> string \<Rightarrow> string \<Rightarrow> string list \<Rightarrow> bool" where
  "names_ok src k m xs =
     (external m \<or> available src k m \<and>
      list_all (\<lambda>x. x \<in> set (body_names src m) \<or> available src k (m @ ''.'' @ x)) xs)"

fun statement_ok :: "sources \<Rightarrow> string \<Rightarrow> python_statement \<Rightarrow> bool" where
  "statement_ok src k (From m xs) = names_ok src k m xs"
| "statement_ok src k (FromAs m x y) = names_ok src k m [x]"
| "statement_ok src k (Import m) = names_ok src k m []"
| "statement_ok src k _ = True"

definition module_ok :: "sources \<Rightarrow> string \<times> python_statement list \<Rightarrow> bool" where
  "module_ok src kb =
     (\<not> external (fst kb) \<and> length (ancestors (fst kb)) \<le> 3 \<and> list_all (\<lambda>a. map_of src a \<noteq> None) (ancestors (fst kb)) \<and>
      list_all (statement_ok src (fst kb)) (snd kb))"

text \<open>What is loaded, when the modules of \<open>S\<close> are still being run.\<close>

definition grown :: "modules \<Rightarrow> modules \<Rightarrow> bool" where
  "grown ms ms' = (\<forall>k ys. map_of ms k = Some ys \<longrightarrow> (\<exists>ys'. map_of ms' k = Some ys' \<and> set ys \<subseteq> set ys'))"

definition consistent :: "sources \<Rightarrow> string set \<Rightarrow> modules \<Rightarrow> bool" where
  "consistent src S ms =
     (\<forall>k ys. map_of ms k = Some ys \<and> \<not> external k \<longrightarrow>
        map_of src k \<noteq> None \<and> (\<forall>a \<in> set (ancestors k). map_of ms a \<noteq> None) \<and>
        (k \<in> S \<or> set (body_names src k) \<subseteq> set ys \<and> (\<forall>m \<in> set (body_imports src k). map_of ms m \<noteq> None)))"

lemma grown_refl [simp]: "grown ms ms"
  by (simp add: grown_def)

lemma grown_trans [trans]: "grown a b \<Longrightarrow> grown b c \<Longrightarrow> grown a c"
  unfolding grown_def by (meson order_trans)

lemma grown_known: "grown ms ms' \<Longrightarrow> map_of ms k \<noteq> None \<Longrightarrow> map_of ms' k \<noteq> None"
  by (fastforce simp: grown_def)

lemma map_of_bind_names:
  "map_of (bind_names m xs ms) k = (if k = m then map_option (append xs) (map_of ms m) else map_of ms k)"
  by (auto simp: bind_names_def update_conv split: option.split)

lemma consistentD:
  "consistent src S ms \<Longrightarrow> map_of ms k = Some ys \<Longrightarrow> \<not> external k \<Longrightarrow>
   map_of src k \<noteq> None \<and> (\<forall>a \<in> set (ancestors k). map_of ms a \<noteq> None) \<and>
     (k \<in> S \<or> set (body_names src k) \<subseteq> set ys \<and> (\<forall>m \<in> set (body_imports src k). map_of ms m \<noteq> None))"
  by (simp add: consistent_def)

lemma grown_bind: "grown ms (bind_names m xs ms)"
  by (auto simp: grown_def map_of_bind_names)

lemma consistent_bind: "consistent src S ms \<Longrightarrow> consistent src S (bind_names m xs ms)"
  unfolding consistent_def [of src S "bind_names m xs ms"]
proof (intro allI impI)
  fix k ys
  assume "consistent src S ms" and k: "map_of (bind_names m xs ms) k = Some ys \<and> \<not> external k"
  moreover from k obtain zs where "map_of ms k = Some zs" "set zs \<subseteq> set ys"
    by (auto simp: map_of_bind_names split: if_splits)
  ultimately show "map_of src k \<noteq> None \<and> (\<forall>a \<in> set (ancestors k). map_of (bind_names m xs ms) a \<noteq> None) \<and>
      (k \<in> S \<or> set (body_names src k) \<subseteq> set ys \<and> (\<forall>i \<in> set (body_imports src k). map_of (bind_names m xs ms) i \<noteq> None))"
    using consistentD[of src S ms k zs] by (auto simp: map_of_bind_names)
qed

lemma grown_enter: "map_of ms k = None \<Longrightarrow> grown ms ((k, ys) # ms)"
  by (auto simp: grown_def)

lemma external_enter: "external m \<Longrightarrow> map_of ms m = None \<Longrightarrow> consistent src S ms \<Longrightarrow> consistent src S ((m, []) # ms)"
  by (fastforce simp: consistent_def)

definition below :: "sources \<Rightarrow> nat \<Rightarrow> modules \<Rightarrow> string \<Rightarrow> bool" where
  "below src r ms m =
     (\<forall>a \<in> insert m (set (ancestors m)). map_of ms a \<noteq> None \<or> map_of src a \<noteq> None \<and> rank src a < r)"

definition loads :: "sources \<Rightarrow> string set \<Rightarrow> modules \<Rightarrow> import_error + modules \<Rightarrow> (modules \<Rightarrow> bool) \<Rightarrow> bool" where
  "loads src S ms y P = (\<exists>ms'. y = Inr ms' \<and> consistent src S ms' \<and> grown ms ms' \<and> P ms')"

lemma loadsI: "consistent src S ms' \<Longrightarrow> grown ms ms' \<Longrightarrow> P ms' \<Longrightarrow> loads src S ms (Inr ms') P"
  by (simp add: loads_def)

lemma loads_bind:
  assumes "loads src S ms y P" and "\<And>ms'. consistent src S ms' \<Longrightarrow> grown ms ms' \<Longrightarrow> P ms' \<Longrightarrow> loads src S ms' (f ms') Q"
  shows "loads src S ms (case y of Inl e \<Rightarrow> Inl e | Inr ms' \<Rightarrow> f ms') Q"
proof -
  obtain ms' where y: "y = Inr ms'" "consistent src S ms'" "grown ms ms'" "P ms'"
    using assms(1) by (auto simp: loads_def)
  from assms(2)[OF y(2-4)] y show ?thesis
    by (auto simp: loads_def intro: grown_trans)
qed

text \<open>Whatever lies before a place can be loaded, with this fuel.\<close>

definition loads_below :: "sources \<Rightarrow> string set \<Rightarrow> nat \<Rightarrow> nat \<Rightarrow> bool" where
  "loads_below src S n r =
     (\<forall>m ms. below src r ms m \<and> consistent src S ms \<and> \<not> external m \<and> length (ancestors m) \<le> 3 \<longrightarrow>
        loads src S ms (load n src m ms) (\<lambda>ms'. map_of ms' m \<noteq> None))"

lemma load_external:
  "external m \<Longrightarrow> consistent src S ms \<Longrightarrow> loads src S ms (load (Suc n) src m ms) (\<lambda>ms'. map_of ms' m \<noteq> None)"
  by (auto intro!: loadsI external_enter grown_enter)

definition ran :: "string \<Rightarrow> python_statement list \<Rightarrow> modules \<Rightarrow> bool" where
  "ran k ss ms =
     (list_all (has_name ms k) (concat (map names_bound ss)) \<and>
      list_all (\<lambda>m. map_of ms m \<noteq> None) (concat (map modules_imported ss)))"

locale import_order =
  fixes src :: sources
  assumes modules_ok: "list_all (module_ok src) src"
begin

lemma module_known: "map_of src m = Some body \<Longrightarrow> module_ok src (m, body)"
  using modules_ok by (auto simp: list_all_iff dest: map_of_SomeD)

lemma available_below:
  assumes "available src k m" "consistent src S ms" "map_of ms k \<noteq> None" "\<not> external k"
  shows "below src (rank src k) ms m" "length (ancestors m) \<le> 3"
  using assms module_known[of m] by (auto simp: available_def earlier_def below_def consistent_def list_all_iff module_ok_def)

lemma load_available:
  assumes "loads_below src S n (rank src k)" "available src k m" "consistent src S ms" "map_of ms k \<noteq> None" "\<not> external k"
  shows "loads src S ms (load n src m ms) (\<lambda>ms'. map_of ms' m \<noteq> None)"
  using assms(1) available_below[OF assms(2-5)] assms(2,3) by (auto simp: loads_below_def available_def)

lemma available_complete:
  assumes "available src k m" "\<forall>s \<in> S. rank src k \<le> rank src s" "consistent src S ms" "map_of ms m \<noteq> None"
    "x \<in> set (body_names src m)"
  shows "has_name ms m x"
proof -
  have "m \<notin> S" "\<not> external m"
    using assms(1,2) by (auto simp: available_def earlier_def)
  moreover obtain ys where "map_of ms m = Some ys"
    using assms(4) by auto
  ultimately show ?thesis
    using consistentD[OF assms(3)] assms(5) by (auto simp: has_name_def)
qed

lemma find_names_ok:
  assumes "loads_below src S n (rank src k)" "\<forall>s \<in> S. rank src k \<le> rank src s" "\<not> external k" "names_ok src k m xs"
    and "consistent src S ms" "map_of ms k \<noteq> None" "map_of ms m \<noteq> None"
  shows "loads src S ms (find_names n src m xs ms) (\<lambda>_. True)"
  using assms(4-7)
proof (induction xs arbitrary: ms)
  case Nil
  then show ?case
    by (simp add: loadsI)
next
  case (Cons x xs)
  have rest: "names_ok src k m xs"
    using Cons.prems(1) by (auto simp: names_ok_def)
  show ?case
  proof (cases "external m \<or> has_name ms m x")
    case True
    then show ?thesis
      using Cons.IH[OF rest Cons.prems(2-4)] by simp
  next
    case False
    then have av: "available src k (m @ ''.'' @ x)"
      using Cons.prems available_complete[of k m S ms x] assms(2) by (auto simp: names_ok_def)
    then have "map_of src (m @ ''.'' @ x) \<noteq> None"
      by (simp add: available_def earlier_def)
    moreover have "loads src S ms (case load n src (m @ ''.'' @ x) ms of Inl e \<Rightarrow> Inl e | Inr ms1 \<Rightarrow> find_names n src m xs ms1) (\<lambda>_. True)"
    proof (rule loads_bind[OF load_available[OF assms(1) av Cons.prems(2,3) assms(3)]])
      fix ms1
      assume "consistent src S ms1" "grown ms ms1"
      then show "loads src S ms1 (find_names n src m xs ms1) (\<lambda>_. True)"
        using Cons.IH[OF rest] grown_known Cons.prems(3,4) by blast
    qed
    ultimately show ?thesis
      using False by auto
  qed
qed

text \<open>A statement that imports, and what comes after it.\<close>

lemma import_ok:
  assumes "loads_below src S (Suc n) (rank src k)" "\<forall>s \<in> S. rank src k \<le> rank src s" "\<not> external k" "names_ok src k m xs"
    and "consistent src S ms" "map_of ms k \<noteq> None"
    and "\<And>ms'. consistent src S ms' \<Longrightarrow> grown ms ms' \<Longrightarrow> map_of ms' m \<noteq> None \<Longrightarrow> loads src S ms' (f ms') Q"
  shows "loads src S ms (case load (Suc n) src m ms of Inl e \<Rightarrow> Inl e
    | Inr ms1 \<Rightarrow> (case find_names (Suc n) src m xs ms1 of Inl e \<Rightarrow> Inl e | Inr ms2 \<Rightarrow> f ms2)) Q"
proof (rule loads_bind)
  show "loads src S ms (load (Suc n) src m ms) (\<lambda>ms'. map_of ms' m \<noteq> None)"
    using load_external[of m src S ms n] load_available[OF assms(1) _ assms(5,6,3), of m] assms(4,5) by (auto simp: names_ok_def)
next
  fix ms1
  assume ms1: "consistent src S ms1" "grown ms ms1" "map_of ms1 m \<noteq> None"
  show "loads src S ms1 (case find_names (Suc n) src m xs ms1 of Inl e \<Rightarrow> Inl e | Inr ms2 \<Rightarrow> f ms2) Q"
    by (rule loads_bind[OF find_names_ok[OF assms(1-4) ms1(1) grown_known[OF ms1(2) assms(6)] ms1(3)]])
      (use grown_known[OF _ ms1(3)] in \<open>auto intro: assms(7) grown_trans[OF ms1(2)]\<close>)
qed

lemma exec_ok:
  assumes "loads_below src S (Suc n) (rank src k)" "\<forall>s \<in> S. rank src k \<le> rank src s" "\<not> external k"
    and "list_all (statement_ok src k) ss" "consistent src S ms" "map_of ms k \<noteq> None"
  shows "loads src S ms (exec (Suc n) src k ss ms) (ran k ss)"
  using assms(4-6)
proof (induction ss arbitrary: ms)
  case Nil
  then show ?case
    by (simp add: loadsI ran_def)
next
  case (Cons s ss)
  have bound: "loads src S ms (exec (Suc n) src k ss (bind_names k (names_bound s) ms)) (ran k (s # ss))"
    if ms: "consistent src S ms" "map_of ms k \<noteq> None" "\<forall>m \<in> set (modules_imported s). map_of ms m \<noteq> None" for ms
  proof -
    let ?ms = "bind_names k (names_bound s) ms"
    have "loads src S ?ms (exec (Suc n) src k ss ?ms) (ran k ss)"
      using Cons.prems(1) ms by (intro Cons.IH) (auto simp: consistent_bind map_of_bind_names)
    then obtain ms' where ms': "exec (Suc n) src k ss ?ms = Inr ms'" "consistent src S ms'" "grown ?ms ms'" "ran k ss ms'"
      by (auto simp: loads_def)
    obtain ys where "map_of ms k = Some ys"
      using ms(2) by auto
    then have "\<exists>ys'. map_of ms' k = Some ys' \<and> set (names_bound s) \<subseteq> set ys'"
      using ms'(3) by (auto simp: grown_def map_of_bind_names dest!: spec[of _ k])
    then have "list_all (has_name ms' k) (names_bound s)"
      by (auto simp: has_name_def list_all_iff)
    moreover have grown: "grown ms ms'"
      using grown_bind ms'(3) by (rule grown_trans)
    then have "list_all (\<lambda>m. map_of ms' m \<noteq> None) (modules_imported s)"
      unfolding list_all_iff using grown_known[of ms ms'] ms(3) by blast
    ultimately have "ran k (s # ss) ms'"
      using ms'(4) by (simp add: ran_def)
    with grown show ?thesis
      by (simp add: ms'(1) loadsI[OF ms'(2)])
  qed
  have known: "map_of ms' k \<noteq> None" if "grown ms ms'" for ms'
    using grown_known[OF that Cons.prems(3)] .
  have import_all: "loads src S ms (case load (Suc n) src m ms of Inl e \<Rightarrow> Inl e
      | Inr ms1 \<Rightarrow> (case find_names (Suc n) src m xs ms1 of Inl e \<Rightarrow> Inl e
          | Inr ms2 \<Rightarrow> exec (Suc n) src k ss (bind_names k ys ms2))) (ran k (s # ss))"
    if "names_ok src k m xs" "modules_imported s = [m]" "ys = names_bound s" for m xs ys
    unfolding that(3) by (rule import_ok[OF assms(1-3) that(1) Cons.prems(2,3)], rule bound) (simp_all add: known that)
  show ?case
  proof (cases s)
    case (From m xs)
    with Cons.prems(1) have "names_ok src k m xs" "modules_imported s = [m]" "xs = names_bound s"
      by simp_all
    from import_all[OF this] show ?thesis
      by (simp only: From exec.simps)
  next
    case (FromAs m x y)
    with Cons.prems(1) have "names_ok src k m [x]" "modules_imported s = [m]" "[y] = names_bound s"
      by simp_all
    from import_all[OF this] show ?thesis
      by (simp only: FromAs exec.simps)
  next
    case (Import m)
    with Cons.prems(1) have "names_ok src k m []" "modules_imported s = [m]" "[root m] = names_bound s"
      by simp_all
    from import_all[OF this] show ?thesis
      by (simp only: Import exec.simps find_names.simps(1) sum.case)
  next
    case (Define xs)
    then show ?thesis
      using bound[OF Cons.prems(2,3)] by simp
  next
    case (Exports xs)
    then show ?thesis
      using bound[OF Cons.prems(2,3)] by simp
  qed
qed

text \<open>A module, when those that are being run come after everything that is still to be loaded for it.\<close>

lemma body_ok:
  assumes "loads_below src (insert m S) (Suc n) (rank src m)" "\<forall>s \<in> S. rank src m \<le> rank src s" "\<not> external m"
    and "map_of src m = Some body" "consistent src S ms" "map_of ms m = None" "\<forall>a \<in> set (ancestors m). map_of ms a \<noteq> None"
  shows "loads src S ms (case exec (Suc n) src m body ((m, []) # ms) of Inl e \<Rightarrow> Inl e
    | Inr ms2 \<Rightarrow> Inr (bind_names (parent m) [leaf m] ms2)) (\<lambda>ms'. map_of ms' m \<noteq> None)"
proof -
  have start: "consistent src (insert m S) ((m, []) # ms)"
    using assms(4,5,7) by (fastforce simp: consistent_def)
  have "list_all (statement_ok src m) body"
    using module_known[OF assms(4)] by (simp add: module_ok_def)
  then obtain ms2 where ms2: "exec (Suc n) src m body ((m, []) # ms) = Inr ms2" "consistent src (insert m S) ms2"
    "grown ((m, []) # ms) ms2" "ran m body ms2"
    using exec_ok[OF assms(1) _ assms(3) _ start] assms(2) by (auto simp: loads_def)
  have known: "map_of ms2 m \<noteq> None"
    using grown_known[OF ms2(3)] by simp
  have "set (body_names src m) \<subseteq> set ys \<and> (\<forall>i \<in> set (body_imports src m). map_of ms2 i \<noteq> None)"
    if "map_of ms2 m = Some ys" for ys
    using ms2(4) that assms(4) by (auto simp: ran_def body_names_def body_imports_def list_all_iff has_name_def)
  with consistentD[OF ms2(2)] have "consistent src S ms2"
    unfolding consistent_def by blast
  moreover have "grown ms ms2"
    using grown_enter[OF assms(6)] ms2(3) by (rule grown_trans)
  ultimately show ?thesis
    using known by (simp add: ms2(1)) (auto intro!: loadsI consistent_bind grown_trans[OF _ grown_bind] simp: map_of_bind_names)
qed

lemma load_ok:
  "below src r ms m \<Longrightarrow> \<forall>s \<in> S. r \<le> rank src s \<Longrightarrow> consistent src S ms \<Longrightarrow> \<not> external m \<Longrightarrow>
   4 * r + length (ancestors m) < n \<Longrightarrow> loads src S ms (load n src m ms) (\<lambda>ms'. map_of ms' m \<noteq> None)"
proof (induction r arbitrary: m ms S n rule: less_induct)
  case (less r)
  note before = less.IH
  show ?case
    using less.prems
  proof (induction "length (ancestors m)" arbitrary: m ms n rule: less_induct)
    case (less m)
    obtain n' where n: "n = Suc n'"
      using less.prems(5) by (cases n) auto
    show ?case
    proof (cases "map_of ms m = None")
      case False
      then show ?thesis
        using less.prems(3) by (auto simp: n intro: loadsI)
    next
      case True
      then obtain body where body: "map_of src m = Some body" "rank src m < r"
        using less.prems(1) by (auto simp: below_def)
      have up: "loads src S ms (if parent m = [] then Inr ms else load n' src (parent m) ms)
          (\<lambda>ms1. parent m = [] \<or> map_of ms1 (parent m) \<noteq> None)"
      proof (cases "parent m = []")
        case False
        then have above: "ancestors m = parent m # ancestors (parent m)"
          by (simp add: ancestors.simps[of m])
        have "loads src S ms (load n' src (parent m) ms) (\<lambda>ms1. map_of ms1 (parent m) \<noteq> None)"
          using less.prems False by (intro less.hyps) (auto simp: above below_def n external_parent)
        with False show ?thesis
          by simp
      qed (use less.prems(3) in \<open>auto intro: loadsI\<close>)
      have down: "loads src S ms1 (if map_of ms1 m \<noteq> None then Inr ms1
          else (case map_of src m of None \<Rightarrow> Inl (NoModule m)
          | Some body \<Rightarrow> (case exec n' src m body ((m, []) # ms1) of Inl e \<Rightarrow> Inl e
              | Inr ms2 \<Rightarrow> Inr (bind_names (parent m) [leaf m] ms2)))) (\<lambda>ms'. map_of ms' m \<noteq> None)"
        if ms1: "consistent src S ms1" "parent m = [] \<or> map_of ms1 (parent m) \<noteq> None" for ms1
      proof (cases "map_of ms1 m = None")
        case False
        then show ?thesis
          using ms1(1) by (auto intro: loadsI)
      next
        case True
        obtain n'' where n': "n' = Suc n''"
          using less.prems(5) body(2) by (cases n') (auto simp: n)
        have "\<forall>a \<in> set (ancestors m). map_of ms1 a \<noteq> None"
          using ms1(2) consistentD[OF ms1(1), of "parent m"] less.prems(4) external_parent[of m]
          by (cases "parent m = []") (auto simp: ancestors.simps[of m])
        moreover have "loads_below src (insert m S) (Suc n'') (rank src m)"
          unfolding loads_below_def
        proof (intro allI impI)
          fix k msk
          assume "below src (rank src m) msk k \<and> consistent src (insert m S) msk \<and> \<not> external k \<and> length (ancestors k) \<le> 3"
          then show "loads src (insert m S) msk (load (Suc n'') src k msk) (\<lambda>ms'. map_of ms' k \<noteq> None)"
            using body(2) less.prems(2,5) by (intro before[of "rank src m"]) (auto simp: n n')
        qed
        moreover have "\<forall>s \<in> S. rank src m \<le> rank src s"
          using body(2) less.prems(2) by force
        ultimately show ?thesis
          using body_ok[of m S n'' body ms1] body(1) ms1(1) True less.prems(4) by (simp add: n')
      qed
      from loads_bind[OF up down] show ?thesis
        using True less.prems(4) by (simp add: n)
    qed
  qed
qed

text \<open>So any module can be the first.\<close>

lemma load_first:
  assumes "map_of src m \<noteq> None" and "4 * length src + 3 < n"
  shows "\<exists>ms. load n src m [] = Inr ms \<and> map_of ms m \<noteq> None \<and>
    (\<forall>k ys. map_of ms k = Some ys \<and> \<not> external k \<longrightarrow>
       map_of src k \<noteq> None \<and> set (body_names src k) \<subseteq> set ys \<and> (\<forall>i \<in> set (body_imports src k). map_of ms i \<noteq> None))"
proof -
  obtain body where "map_of src m = Some body"
    using assms(1) by auto
  from module_known[OF this] have m: "\<not> external m" "length (ancestors m) \<le> 3" "below src (length src) [] m"
    using assms(1) rank_less by (auto simp: module_ok_def below_def list_all_iff)
  then have "loads src {} [] (load n src m []) (\<lambda>ms'. map_of ms' m \<noteq> None)"
    using assms(2) by (intro load_ok) (auto simp: consistent_def)
  then show ?thesis
    by (auto simp: loads_def consistent_def)
qed

end

subsection \<open>What an import brings with it\<close>

text \<open>Modules among which every import stays.\<close>

fun stays_within :: "sources \<Rightarrow> string list \<Rightarrow> python_statement \<Rightarrow> bool" where
  "stays_within src C (From m xs) =
     (m \<in> set C \<and> (external m \<or> list_all (\<lambda>x. map_of src (m @ ''.'' @ x) = None \<or> m @ ''.'' @ x \<in> set C) xs))"
| "stays_within src C (FromAs m x y) =
     (m \<in> set C \<and> (external m \<or> map_of src (m @ ''.'' @ x) = None \<or> m @ ''.'' @ x \<in> set C))"
| "stays_within src C (Import m) = (m \<in> set C)"
| "stays_within src C _ = True"

definition closed_within :: "sources \<Rightarrow> string list \<Rightarrow> bool" where
  "closed_within src C =
     list_all (\<lambda>m. (external m \<or> parent m = [] \<or> parent m \<in> set C) \<and>
       (case map_of src m of None \<Rightarrow> True | Some body \<Rightarrow> list_all (stays_within src C) body)) C"

definition adds_within :: "string list \<Rightarrow> modules \<Rightarrow> modules \<Rightarrow> bool" where
  "adds_within C ms ms' = (fst ` set ms' \<subseteq> fst ` set ms \<union> set C)"

lemma adds_within_refl [simp]: "adds_within C ms ms"
  by (simp add: adds_within_def)

lemma adds_within_trans: "adds_within C a b \<Longrightarrow> adds_within C b c \<Longrightarrow> adds_within C a c"
  unfolding adds_within_def by blast

lemma bind_names_keys [simp]: "fst ` set (bind_names m xs ms) = fst ` set ms"
proof (cases "map_of ms m")
  case (Some ys)
  then have "m \<in> fst ` set ms"
    by (force dest: map_of_SomeD)
  with Some show ?thesis
    by (auto simp: bind_names_def dom_update)
qed (simp add: bind_names_def)

lemma adds_within_bind [simp]:
  "adds_within C ms (bind_names m xs ms') = adds_within C ms ms'" "adds_within C (bind_names m xs ms) ms' = adds_within C ms ms'"
  by (simp_all add: adds_within_def)

lemma adds_within_enter: "m \<in> set C \<Longrightarrow> adds_within C ((m, ys) # ms) ms' \<Longrightarrow> adds_within C ms ms'"
  by (auto simp: adds_within_def)

lemma closed_parent: "closed_within src C \<Longrightarrow> m \<in> set C \<Longrightarrow> \<not> external m \<Longrightarrow> parent m \<noteq> [] \<Longrightarrow> parent m \<in> set C"
  by (auto simp: closed_within_def list_all_iff)

lemma closed_body: "closed_within src C \<Longrightarrow> m \<in> set C \<Longrightarrow> map_of src m = Some body \<Longrightarrow> list_all (stays_within src C) body"
  by (fastforce simp: closed_within_def list_all_iff)

lemma loaded_within:
  "closed_within src C \<Longrightarrow> load n src m ms = Inr ms' \<Longrightarrow> m \<in> set C \<Longrightarrow> adds_within C ms ms'"
  "closed_within src C \<Longrightarrow> find_names n src m xs ms = Inr ms' \<Longrightarrow> stays_within src C (From m xs) \<Longrightarrow> adds_within C ms ms'"
  "closed_within src C \<Longrightarrow> exec n src k ss ms = Inr ms' \<Longrightarrow> list_all (stays_within src C) ss \<Longrightarrow> adds_within C ms ms'"
proof (induction n src m ms and n src m xs ms and n src k ss ms arbitrary: ms' and ms' and ms' rule: load_find_names_exec.induct)
  case (2 n src m ms)
  show ?case
  proof (cases "map_of ms m \<noteq> None \<or> external m")
    case True
    then show ?thesis
      using "2.prems" by (auto simp: adds_within_def split: if_splits)
  next
    case False
    then obtain ms1 where ms1: "(if parent m = [] then Inr ms else load n src (parent m) ms) = Inr ms1"
      using "2.prems"(2) by (auto split: sum.splits)
    have up: "adds_within C ms ms1"
      using ms1 False "2.IH"(1) "2.prems"(1,3) closed_parent[OF "2.prems"(1,3)] by (auto split: if_splits)
    show ?thesis
    proof (cases "map_of ms1 m = None")
      case True
      then obtain body ms2 where ms2: "map_of src m = Some body" "exec n src m body ((m, []) # ms1) = Inr ms2"
        "ms' = bind_names (parent m) [leaf m] ms2"
        using "2.prems"(2) False ms1 by (auto split: sum.splits option.splits if_splits)
      have "adds_within C ((m, []) # ms1) ms2"
        using "2.IH"(2)[OF _ _ ms1 _ ms2(1) "2.prems"(1) ms2(2)] False True closed_body[OF "2.prems"(1,3) ms2(1)] by simp
      then show ?thesis
        using up "2.prems"(3) by (auto simp: ms2(3) intro: adds_within_trans adds_within_enter)
    next
      case False
      then show ?thesis
        using up "2.prems"(2) ms1 \<open>\<not> (map_of ms m \<noteq> None \<or> external m)\<close> by (auto split: if_splits)
    qed
  qed
next
  case (4 n src m x xs ms)
  then show ?case
    by (auto split: if_splits sum.splits intro: adds_within_trans)
next
  case (8 n src cur m ss ms)
  then show ?case
    by (fastforce split: sum.splits intro: adds_within_trans)
next
  case (9 n src cur m xs ss ms)
  then obtain ms1 ms2 where "load n src m ms = Inr ms1" "find_names n src m xs ms1 = Inr ms2"
    "exec n src cur ss (bind_names cur xs ms2) = Inr ms'"
    by (auto split: sum.splits)
  with 9 have "adds_within C ms ms1" "adds_within C ms1 ms2" "adds_within C ms2 ms'"
    by auto
  then show ?case
    by (blast intro: adds_within_trans)
next
  case (10 n src cur m x y ss ms)
  then obtain ms1 ms2 where "load n src m ms = Inr ms1" "find_names n src m [x] ms1 = Inr ms2"
    "exec n src cur ss (bind_names cur [y] ms2) = Inr ms'"
    by (auto split: sum.splits)
  with 10 have "adds_within C ms ms1" "adds_within C ms1 ms2" "adds_within C ms2 ms'"
    by auto
  then show ?case
    by (blast intro: adds_within_trans)
qed auto

end
