(* ===== verification/Package_Modules.thy ===== *)
theory Package_Modules
  imports Module_Imports
begin

section \<open>The modules of the service\<close>

text \<open>
  The import statements, exports and top-level names of every module of \<^verbatim>\<open>src/kitchensense\<close>, statement by statement; names bound one after the other
  without an import between them are one \<open>Define\<close>.  \<open>kitchensense\<close> lists the modules in an order that \<open>import_order\<close> accepts, and the lemmas
  of that locale then hold of them.
\<close>

subsection \<open>The modules\<close>

definition kitchensense_module :: "python_statement list" where
  "kitchensense_module = []"

definition config_module :: "python_statement list" where
  "config_module =
     [From ''__future__'' [''annotations''], Import ''os'', From ''dataclasses'' [''dataclass''], Exports [''Settings''],
      Define [''DEFAULT_KEY_VAULT_URI'', ''DEFAULT_MANAGED_IDENTITY_CLIENT_ID'', ''DEFAULT_POSTGRES_SECRET_NAME'', ''DEFAULT_REQUIRED_SCOPE'', ''DEFAULT_RECEIPTS_CONTAINER'', ''DEFAULT_BLOB_ENDPOINT_SUFFIX'', ''_env'', ''Settings'', ''openid_configuration_url'', ''blob_endpoint_for'']]"

definition api_module :: "python_statement list" where
  "api_module = []"

definition auth_errors_module :: "python_statement list" where
  "auth_errors_module =
     [From ''__future__'' [''annotations''],
      Exports [''AuthConfigurationError'', ''InsufficientScopeError'', ''InvalidTokenError'', ''MissingTokenError'', ''TokenError''],
      Define [''TokenError'', ''MissingTokenError'', ''InvalidTokenError'', ''InsufficientScopeError'', ''AuthConfigurationError'']]"

definition auth_jwks_module :: "python_statement list" where
  "auth_jwks_module =
     [From ''__future__'' [''annotations''], Import ''asyncio'', Import ''logging'', Import ''time'', From ''dataclasses'' [''dataclass''],
      From ''typing'' [''Any''], Import ''httpx'', From ''jwt'' [''PyJWK''], From ''kitchensense.auth.errors'' [''InvalidTokenError''],
      Exports [''KeySource'', ''OpenIDConfiguration''], Define [''logger'', ''OpenIDConfiguration'', ''KeySource'']]"

definition domain_module :: "python_statement list" where
  "domain_module = []"

definition domain_household_module :: "python_statement list" where
  "domain_household_module =
     [From ''__future__'' [''annotations''], Import ''uuid'', Exports [''HOUSEHOLD_NAMESPACE'', ''household_id_for''],
      Define [''HOUSEHOLD_NAMESPACE'', ''household_id_for'']]"

definition auth_principal_module :: "python_statement list" where
  "auth_principal_module =
     [From ''__future__'' [''annotations''], Import ''uuid'', From ''dataclasses'' [''dataclass''], From ''datetime'' [''datetime''],
      From ''kitchensense.domain.household'' [''household_id_for''], Exports [''Principal''], Define [''Principal'']]"

definition auth_verifier_module :: "python_statement list" where
  "auth_verifier_module =
     [From ''__future__'' [''annotations''], Import ''logging'', From ''datetime'' [''UTC'', ''datetime''], From ''typing'' [''Any''],
      Import ''httpx'', Import ''jwt'',
      From ''kitchensense.auth.errors'' [''AuthConfigurationError'', ''InsufficientScopeError'', ''InvalidTokenError''],
      From ''kitchensense.auth.jwks'' [''KeySource''], From ''kitchensense.auth.principal'' [''Principal''],
      From ''kitchensense.config'' [''Settings''], Exports [''TokenVerifier''],
      Define [''logger'', ''ALLOWED_ALGORITHMS'', ''REQUIRED_CLAIMS'', ''TokenVerifier'', ''_scopes'', ''_optional'']]"

definition auth_module :: "python_statement list" where
  "auth_module =
     [From ''kitchensense.auth.errors'' [''AuthConfigurationError'', ''InsufficientScopeError'', ''InvalidTokenError'', ''TokenError''],
      From ''kitchensense.auth.jwks'' [''KeySource''], From ''kitchensense.auth.principal'' [''Principal''],
      From ''kitchensense.auth.verifier'' [''TokenVerifier''],
      Exports [''AuthConfigurationError'', ''InsufficientScopeError'', ''InvalidTokenError'', ''KeySource'', ''Principal'', ''TokenError'', ''TokenVerifier'']]"

definition api_security_module :: "python_statement list" where
  "api_security_module =
     [From ''__future__'' [''annotations''], Import ''logging'', From ''typing'' [''Annotated''],
      From ''fastapi'' [''Depends'', ''FastAPI'', ''HTTPException'', ''Request'', ''status''],
      From ''fastapi.security'' [''HTTPAuthorizationCredentials'', ''HTTPBearer''],
      From ''kitchensense.auth.errors'' [''AuthConfigurationError'', ''MissingTokenError'', ''TokenError''],
      From ''kitchensense.auth.principal'' [''Principal''], From ''kitchensense.auth.verifier'' [''TokenVerifier''],
      From ''kitchensense.config'' [''Settings''],
      Exports [''PrincipalDep'', ''ensure_verifier'', ''get_principal'', ''get_verifier'', ''unauthorized''],
      Define [''logger'', ''REALM'', ''bearer_scheme'', ''unauthorized'', ''_quotable'', ''ensure_verifier'', ''get_verifier'', ''VerifierDep'', ''CredentialsDep'', ''get_principal'', ''PrincipalDep'']]"

definition db_base_module :: "python_statement list" where
  "db_base_module =
     [From ''__future__'' [''annotations''], From ''datetime'' [''datetime''], From ''decimal'' [''Decimal''], From ''typing'' [''Any''],
      From ''sqlalchemy'' [''DateTime'', ''MetaData'', ''Numeric''], From ''sqlalchemy.dialects.postgresql'' [''JSONB''],
      From ''sqlalchemy.orm'' [''DeclarativeBase''], Define [''NAMING_CONVENTION'', ''metadata'', ''QUANTITY'', ''Base'']]"

definition db_session_module :: "python_statement list" where
  "db_session_module =
     [From ''__future__'' [''annotations''], Import ''os'', From ''collections.abc'' [''AsyncIterator''],
      From ''contextlib'' [''asynccontextmanager''], From ''sqlalchemy.engine'' [''make_url''],
      From ''sqlalchemy.ext.asyncio'' [''AsyncEngine'', ''AsyncSession'', ''async_sessionmaker'', ''create_async_engine''],
      Define [''DEFAULT_DATABASE_URL'', ''SYNC_DRIVER_NAMES'', ''normalize_database_url'', ''configured_database_url'', ''database_url'', ''create_engine'', ''create_sessionmaker'', ''session_scope'']]"

definition db_provider_module :: "python_statement list" where
  "db_provider_module =
     [From ''__future__'' [''annotations''], Import ''asyncio'', Import ''logging'', Import ''time'', From ''dataclasses'' [''dataclass''],
      From ''typing'' [''Literal''], From ''sqlalchemy'' [''text''],
      From ''sqlalchemy.ext.asyncio'' [''AsyncEngine'', ''AsyncSession'', ''async_sessionmaker''],
      From ''kitchensense.config'' [''Settings''],
      From ''kitchensense.db.session'' [''configured_database_url'', ''create_engine'', ''create_sessionmaker'', ''normalize_database_url''],
      Exports [''Database'', ''DatabaseStatus'', ''DatabaseUnavailableError''],
      Define [''logger'', ''UrlSource'', ''Reachability'', ''DatabaseUnavailableError'', ''DatabaseStatus'', ''Database'', ''_read_secret'', ''_brief'']]"

definition db_module :: "python_statement list" where
  "db_module =
     [From ''kitchensense.db.base'' [''Base'', ''metadata''],
      From ''kitchensense.db.provider'' [''Database'', ''DatabaseStatus'', ''DatabaseUnavailableError''],
      From ''kitchensense.db.session'' [''configured_database_url'', ''create_engine'', ''create_sessionmaker'', ''database_url'', ''normalize_database_url'', ''session_scope''],
      Exports [''Base'', ''Database'', ''DatabaseStatus'', ''DatabaseUnavailableError'', ''configured_database_url'', ''create_engine'', ''create_sessionmaker'', ''database_url'', ''metadata'', ''normalize_database_url'', ''session_scope'']]"

definition models_canonical_product_module :: "python_statement list" where
  "models_canonical_product_module =
     [From ''__future__'' [''annotations''], Import ''uuid'', From ''datetime'' [''datetime''], From ''typing'' [''Any''],
      From ''sqlalchemy'' [''CheckConstraint'', ''Index'', ''Integer'', ''String'', ''func'', ''text''],
      FromAs ''sqlalchemy.dialects.postgresql'' ''UUID'' ''PGUUID'', From ''sqlalchemy.orm'' [''Mapped'', ''mapped_column''],
      From ''kitchensense.db.base'' [''Base''], Define [''CanonicalProduct'']]"

definition models_household_module :: "python_statement list" where
  "models_household_module =
     [From ''__future__'' [''annotations''], Import ''uuid'', From ''datetime'' [''datetime''],
      From ''sqlalchemy'' [''CheckConstraint'', ''String'', ''func'', ''text''],
      FromAs ''sqlalchemy.dialects.postgresql'' ''UUID'' ''PGUUID'', From ''sqlalchemy.orm'' [''Mapped'', ''mapped_column''],
      From ''kitchensense.db.base'' [''Base''], Define [''Household'']]"

definition domain_inventory_module :: "python_statement list" where
  "domain_inventory_module =
     [From ''__future__'' [''annotations''], From ''collections.abc'' [''Iterable'', ''Mapping''],
      From ''dataclasses'' [''dataclass'', ''field''], From ''datetime'' [''date'', ''datetime''], From ''decimal'' [''Decimal''],
      From ''enum'' [''StrEnum''], From ''uuid'' [''UUID''],
      Exports [''DateLabelType'', ''EventType'', ''HouseholdMismatchError'', ''InventoryEvent'', ''InventoryFoldError'', ''InventorySnapshot'', ''LabelLeakageError'', ''LotKey'', ''LotState'', ''NewInventoryEvent'', ''StorageLocation'', ''apply_events'', ''combine_snapshots'', ''empty_snapshot'', ''fold_events'', ''normalize_unit''],
      Define [''ZERO'', ''EventType'', ''DateLabelType'', ''StorageLocation'', ''InventoryFoldError'', ''HouseholdMismatchError'', ''LabelLeakageError'', ''normalize_unit'', ''NewInventoryEvent'', ''InventoryEvent'', ''LotKey'', ''LotState'', ''lot_from_event'', ''combine_lots'', ''_earliest'', ''InventorySnapshot'', ''_freeze'', ''empty_snapshot'', ''apply_events'', ''fold_events'', ''combine_snapshots'']]"

definition models_inventory_event_module :: "python_statement list" where
  "models_inventory_event_module =
     [From ''__future__'' [''annotations''], Import ''uuid'', From ''datetime'' [''date'', ''datetime''], From ''decimal'' [''Decimal''],
      From ''typing'' [''Any''],
      From ''sqlalchemy'' [''CheckConstraint'', ''Date'', ''Float'', ''ForeignKey'', ''Index'', ''String'', ''func'', ''text''],
      FromAs ''sqlalchemy'' ''Enum'' ''SAEnum'', FromAs ''sqlalchemy.dialects.postgresql'' ''UUID'' ''PGUUID'',
      From ''sqlalchemy.orm'' [''Mapped'', ''mapped_column''], From ''kitchensense.db.base'' [''Base'', ''metadata''],
      From ''kitchensense.domain.inventory'' [''DateLabelType'', ''EventType'', ''InventoryEvent'', ''StorageLocation''],
      Define [''_values'', ''EVENT_TYPE_ENUM'', ''DATE_LABEL_TYPE_ENUM'', ''STORAGE_LOCATION_ENUM'', ''InventoryEventRow'']]"

definition models_inventory_snapshot_module :: "python_statement list" where
  "models_inventory_snapshot_module =
     [From ''__future__'' [''annotations''], Import ''uuid'', From ''datetime'' [''date'', ''datetime''], From ''decimal'' [''Decimal''],
      From ''sqlalchemy'' [''CheckConstraint'', ''Date'', ''ForeignKey'', ''Index'', ''Integer'', ''String'', ''UniqueConstraint'', ''func'', ''text''],
      FromAs ''sqlalchemy.dialects.postgresql'' ''UUID'' ''PGUUID'', From ''sqlalchemy.orm'' [''Mapped'', ''mapped_column''],
      From ''kitchensense.db.base'' [''Base''],
      From ''kitchensense.domain.inventory'' [''DateLabelType'', ''LotKey'', ''LotState'', ''StorageLocation''],
      From ''kitchensense.models.inventory_event'' [''DATE_LABEL_TYPE_ENUM'', ''STORAGE_LOCATION_ENUM''], Define [''InventorySnapshotRow'']]"

definition domain_receipts_module :: "python_statement list" where
  "domain_receipts_module =
     [From ''__future__'' [''annotations''], Import ''uuid'', From ''dataclasses'' [''dataclass''], From ''datetime'' [''datetime''],
      From ''enum'' [''StrEnum''], Exports [''ReceiptContentType'', ''ReceiptUpload'', ''receipt_blob_name''],
      Define [''ReceiptContentType'', ''receipt_blob_name'', ''ReceiptUpload'']]"

definition models_receipt_upload_module :: "python_statement list" where
  "models_receipt_upload_module =
     [From ''__future__'' [''annotations''], Import ''uuid'', From ''datetime'' [''datetime''],
      From ''sqlalchemy'' [''CheckConstraint'', ''ForeignKey'', ''Index'', ''String'', ''UniqueConstraint'', ''text''],
      FromAs ''sqlalchemy.dialects.postgresql'' ''UUID'' ''PGUUID'', From ''sqlalchemy.orm'' [''Mapped'', ''mapped_column''],
      From ''kitchensense.db.base'' [''Base''], From ''kitchensense.domain.receipts'' [''ReceiptUpload''], Define [''ReceiptUploadRow'']]"

definition models_module :: "python_statement list" where
  "models_module =
     [From ''kitchensense.models.canonical_product'' [''CanonicalProduct''], From ''kitchensense.models.household'' [''Household''],
      From ''kitchensense.models.inventory_event'' [''DATE_LABEL_TYPE_ENUM'', ''EVENT_TYPE_ENUM'', ''STORAGE_LOCATION_ENUM'', ''InventoryEventRow''],
      From ''kitchensense.models.inventory_snapshot'' [''InventorySnapshotRow''],
      From ''kitchensense.models.receipt_upload'' [''ReceiptUploadRow''],
      Exports [''DATE_LABEL_TYPE_ENUM'', ''EVENT_TYPE_ENUM'', ''STORAGE_LOCATION_ENUM'', ''CanonicalProduct'', ''Household'', ''InventoryEventRow'', ''InventorySnapshotRow'', ''ReceiptUploadRow'']]"

definition repositories_household_module :: "python_statement list" where
  "repositories_household_module =
     [From ''__future__'' [''annotations''], Import ''uuid'', From ''sqlalchemy'' [''Select'', ''select''],
      FromAs ''sqlalchemy.dialects.postgresql'' ''insert'' ''pg_insert'', From ''sqlalchemy.ext.asyncio'' [''AsyncSession''],
      From ''kitchensense.models.household'' [''Household''], Exports [''HouseholdRepository''], Define [''HouseholdRepository'']]"

definition repositories_inventory_module :: "python_statement list" where
  "repositories_inventory_module =
     [From ''__future__'' [''annotations''], Import ''uuid'', From ''collections.abc'' [''Sequence''], From ''datetime'' [''datetime''],
      From ''typing'' [''Any''], From ''sqlalchemy'' [''Select'', ''delete'', ''func'', ''select''],
      FromAs ''sqlalchemy.dialects.postgresql'' ''insert'' ''pg_insert'', From ''sqlalchemy.ext.asyncio'' [''AsyncSession''],
      From ''kitchensense.domain.inventory'' [''HouseholdMismatchError'', ''InventoryEvent'', ''InventorySnapshot'', ''NewInventoryEvent'', ''apply_events'', ''empty_snapshot'', ''fold_events'', ''normalize_unit''],
      From ''kitchensense.models.inventory_event'' [''InventoryEventRow''],
      From ''kitchensense.models.inventory_snapshot'' [''InventorySnapshotRow''],
      Exports [''IdempotencyKeyConflictError'', ''InventoryEventRepository'', ''InventorySnapshotRepository''],
      Define [''IdempotencyKeyConflictError'', ''InventoryEventRepository'', ''InventorySnapshotRepository'']]"

definition repositories_receipts_module :: "python_statement list" where
  "repositories_receipts_module =
     [From ''__future__'' [''annotations''], Import ''uuid'', From ''collections.abc'' [''Sequence''], From ''datetime'' [''datetime''],
      From ''sqlalchemy'' [''Select'', ''select''], From ''sqlalchemy.ext.asyncio'' [''AsyncSession''],
      From ''kitchensense.domain.receipts'' [''ReceiptUpload''], From ''kitchensense.models.receipt_upload'' [''ReceiptUploadRow''],
      Exports [''ReceiptUploadRepository''], Define [''ReceiptUploadRepository'']]"

definition repositories_module :: "python_statement list" where
  "repositories_module =
     [From ''kitchensense.repositories.household'' [''HouseholdRepository''],
      From ''kitchensense.repositories.inventory'' [''IdempotencyKeyConflictError'', ''InventoryEventRepository'', ''InventorySnapshotRepository''],
      From ''kitchensense.repositories.receipts'' [''ReceiptUploadRepository''],
      Exports [''HouseholdRepository'', ''IdempotencyKeyConflictError'', ''InventoryEventRepository'', ''InventorySnapshotRepository'', ''ReceiptUploadRepository'']]"

definition storage_receipts_module :: "python_statement list" where
  "storage_receipts_module =
     [From ''__future__'' [''annotations''], Import ''asyncio'', Import ''logging'', Import ''uuid'',
      From ''collections.abc'' [''Callable''], From ''dataclasses'' [''dataclass''],
      From ''datetime'' [''UTC'', ''datetime'', ''timedelta''], From ''urllib.parse'' [''quote''],
      From ''azure.storage.blob'' [''BlobSasPermissions'', ''UserDelegationKey'', ''generate_blob_sas''],
      From ''kitchensense.config'' [''Settings''], From ''kitchensense.domain.receipts'' [''ReceiptContentType'', ''receipt_blob_name''],
      Exports [''DelegationKeySource'', ''ReceiptBlobStore'', ''StorageUnavailableError'', ''UploadTicket''],
      Define [''logger'', ''BLOB_TYPE_HEADER'', ''StorageUnavailableError'', ''UploadTicket'', ''DelegationKeySource'', ''ReceiptBlobStore'']]"

definition storage_module :: "python_statement list" where
  "storage_module =
     [From ''kitchensense.storage.receipts'' [''ReceiptBlobStore'', ''StorageUnavailableError'', ''UploadTicket''],
      Exports [''ReceiptBlobStore'', ''StorageUnavailableError'', ''UploadTicket'']]"

definition api_dependencies_module :: "python_statement list" where
  "api_dependencies_module =
     [From ''__future__'' [''annotations''], Import ''logging'', Import ''uuid'', From ''collections.abc'' [''AsyncIterator''],
      From ''typing'' [''Annotated''], From ''fastapi'' [''Depends'', ''FastAPI'', ''HTTPException'', ''Request'', ''status''],
      From ''sqlalchemy.ext.asyncio'' [''AsyncSession''], From ''kitchensense.api.security'' [''PrincipalDep''],
      From ''kitchensense.config'' [''Settings''], From ''kitchensense.db.provider'' [''Database'', ''DatabaseUnavailableError''],
      From ''kitchensense.repositories'' [''HouseholdRepository''], From ''kitchensense.storage'' [''ReceiptBlobStore''],
      Exports [''DatabaseDep'', ''HouseholdDep'', ''ReceiptStoreDep'', ''SessionDep'', ''ensure_database'', ''ensure_receipt_store'', ''get_database'', ''get_household_id'', ''get_receipt_store'', ''get_session''],
      Define [''logger'', ''ensure_database'', ''get_database'', ''DatabaseDep'', ''get_session'', ''SessionDep'', ''get_household_id'', ''HouseholdDep'', ''ensure_receipt_store'', ''get_receipt_store'', ''ReceiptStoreDep'']]"

definition api_schemas_module :: "python_statement list" where
  "api_schemas_module =
     [From ''__future__'' [''annotations''], Import ''uuid'', From ''datetime'' [''date'', ''datetime''], From ''decimal'' [''Decimal''],
      From ''typing'' [''Any'', ''Self''],
      From ''pydantic'' [''AwareDatetime'', ''BaseModel'', ''ConfigDict'', ''Field'', ''model_validator''],
      From ''kitchensense.domain.inventory'' [''DateLabelType'', ''EventType'', ''InventoryEvent'', ''InventorySnapshot'', ''LotState'', ''NewInventoryEvent'', ''StorageLocation''],
      From ''kitchensense.domain.receipts'' [''ReceiptContentType'', ''ReceiptUpload''],
      Exports [''DeepHealthResponse'', ''HealthResponse'', ''InventoryEventCreate'', ''InventoryEventResponse'', ''LotResponse'', ''RootResponse'', ''SnapshotResponse'', ''UploadConfirmation'', ''UploadRequest'', ''UploadTicketResponse''],
      Define [''STRICT'', ''InventoryEventCreate'', ''InventoryEventResponse'', ''LotResponse'', ''SnapshotResponse'', ''UploadRequest'', ''UploadTicketResponse'', ''UploadConfirmation'', ''HealthResponse'', ''DeepHealthResponse'', ''RootResponse'']]"

definition api_health_module :: "python_statement list" where
  "api_health_module =
     [From ''__future__'' [''annotations''], From ''fastapi'' [''APIRouter''], From ''kitchensense.api.dependencies'' [''DatabaseDep''],
      From ''kitchensense.api.schemas'' [''DeepHealthResponse'', ''HealthResponse'', ''RootResponse''],
      Define [''router'', ''health'', ''health_deep'', ''root'']]"

definition api_inventory_module :: "python_statement list" where
  "api_inventory_module =
     [From ''__future__'' [''annotations''], From ''datetime'' [''UTC'', ''datetime''], From ''typing'' [''Annotated''],
      From ''fastapi'' [''APIRouter'', ''Depends'', ''HTTPException'', ''Query'', ''Response'', ''status''],
      From ''pydantic'' [''AwareDatetime''], From ''sqlalchemy.exc'' [''IntegrityError''],
      From ''kitchensense.api.dependencies'' [''HouseholdDep'', ''SessionDep''],
      From ''kitchensense.api.schemas'' [''InventoryEventCreate'', ''InventoryEventResponse'', ''SnapshotResponse''],
      From ''kitchensense.api.security'' [''get_principal''],
      From ''kitchensense.repositories'' [''IdempotencyKeyConflictError'', ''InventoryEventRepository'', ''InventorySnapshotRepository''],
      Define [''router'', ''append_event'', ''current_snapshot'', ''snapshot_as_of'']]"

definition api_uploads_module :: "python_statement list" where
  "api_uploads_module =
     [From ''__future__'' [''annotations''], Import ''logging'', Import ''uuid'', From ''datetime'' [''UTC'', ''datetime''],
      From ''typing'' [''Annotated''], From ''fastapi'' [''APIRouter'', ''Depends'', ''HTTPException'', ''Path'', ''status''],
      From ''kitchensense.api.dependencies'' [''HouseholdDep'', ''ReceiptStoreDep'', ''SessionDep''],
      From ''kitchensense.api.schemas'' [''UploadConfirmation'', ''UploadRequest'', ''UploadTicketResponse''],
      From ''kitchensense.api.security'' [''get_principal''], From ''kitchensense.repositories'' [''ReceiptUploadRepository''],
      Define [''logger'', ''router'', ''UploadIdPath'', ''request_upload'', ''confirm_upload'']]"

definition main_module :: "python_statement list" where
  "main_module =
     [From ''__future__'' [''annotations''], Import ''logging'', From ''collections.abc'' [''AsyncIterator''],
      From ''contextlib'' [''asynccontextmanager''], From ''fastapi'' [''FastAPI'', ''Request'', ''status''],
      From ''fastapi.responses'' [''JSONResponse''], From ''sqlalchemy.exc'' [''DBAPIError'', ''InterfaceError'', ''OperationalError''],
      From ''kitchensense.api'' [''health'', ''inventory'', ''uploads''],
      From ''kitchensense.api.dependencies'' [''ensure_database'', ''ensure_receipt_store''],
      From ''kitchensense.api.security'' [''ensure_verifier''], From ''kitchensense.auth.errors'' [''AuthConfigurationError''],
      From ''kitchensense.config'' [''Settings''], From ''kitchensense.db.provider'' [''DatabaseUnavailableError''],
      From ''kitchensense.storage'' [''StorageUnavailableError''],
      Define [''logger'', ''lifespan'', ''app'', ''_database_unconfigured'', ''_database_unreachable'', ''_storage_unavailable'']]"

definition kitchensense :: sources where
  "kitchensense =
     [(''kitchensense'', kitchensense_module),
      (''kitchensense.config'', config_module),
      (''kitchensense.api'', api_module),
      (''kitchensense.auth.errors'', auth_errors_module),
      (''kitchensense.auth.jwks'', auth_jwks_module),
      (''kitchensense.domain'', domain_module),
      (''kitchensense.domain.household'', domain_household_module),
      (''kitchensense.auth.principal'', auth_principal_module),
      (''kitchensense.auth.verifier'', auth_verifier_module),
      (''kitchensense.auth'', auth_module),
      (''kitchensense.api.security'', api_security_module),
      (''kitchensense.db.base'', db_base_module),
      (''kitchensense.db.session'', db_session_module),
      (''kitchensense.db.provider'', db_provider_module),
      (''kitchensense.db'', db_module),
      (''kitchensense.models.canonical_product'', models_canonical_product_module),
      (''kitchensense.models.household'', models_household_module),
      (''kitchensense.domain.inventory'', domain_inventory_module),
      (''kitchensense.models.inventory_event'', models_inventory_event_module),
      (''kitchensense.models.inventory_snapshot'', models_inventory_snapshot_module),
      (''kitchensense.domain.receipts'', domain_receipts_module),
      (''kitchensense.models.receipt_upload'', models_receipt_upload_module),
      (''kitchensense.models'', models_module),
      (''kitchensense.repositories.household'', repositories_household_module),
      (''kitchensense.repositories.inventory'', repositories_inventory_module),
      (''kitchensense.repositories.receipts'', repositories_receipts_module),
      (''kitchensense.repositories'', repositories_module),
      (''kitchensense.storage.receipts'', storage_receipts_module),
      (''kitchensense.storage'', storage_module),
      (''kitchensense.api.dependencies'', api_dependencies_module),
      (''kitchensense.api.schemas'', api_schemas_module),
      (''kitchensense.api.health'', api_health_module),
      (''kitchensense.api.inventory'', api_inventory_module),
      (''kitchensense.api.uploads'', api_uploads_module),
      (''kitchensense.main'', main_module)]"

fun exported :: "python_statement \<Rightarrow> string list" where
  "exported (Exports xs) = xs"
| "exported _ = []"

definition exports :: "sources \<Rightarrow> string \<Rightarrow> string list" where
  "exports src m = (case map_of src m of None \<Rightarrow> [] | Some body \<Rightarrow> concat (map exported body))"

subsection \<open>The order is a good one\<close>

lemma module_found [simp]:
  "map_of kitchensense ''kitchensense'' = Some kitchensense_module"
  "map_of kitchensense ''kitchensense.config'' = Some config_module"
  "map_of kitchensense ''kitchensense.api'' = Some api_module"
  "map_of kitchensense ''kitchensense.auth.errors'' = Some auth_errors_module"
  "map_of kitchensense ''kitchensense.auth.jwks'' = Some auth_jwks_module"
  "map_of kitchensense ''kitchensense.domain'' = Some domain_module"
  "map_of kitchensense ''kitchensense.domain.household'' = Some domain_household_module"
  "map_of kitchensense ''kitchensense.auth.principal'' = Some auth_principal_module"
  "map_of kitchensense ''kitchensense.auth.verifier'' = Some auth_verifier_module"
  "map_of kitchensense ''kitchensense.auth'' = Some auth_module"
  "map_of kitchensense ''kitchensense.api.security'' = Some api_security_module"
  "map_of kitchensense ''kitchensense.db.base'' = Some db_base_module"
  "map_of kitchensense ''kitchensense.db.session'' = Some db_session_module"
  "map_of kitchensense ''kitchensense.db.provider'' = Some db_provider_module"
  "map_of kitchensense ''kitchensense.db'' = Some db_module"
  "map_of kitchensense ''kitchensense.models.canonical_product'' = Some models_canonical_product_module"
  "map_of kitchensense ''kitchensense.models.household'' = Some models_household_module"
  "map_of kitchensense ''kitchensense.domain.inventory'' = Some domain_inventory_module"
  "map_of kitchensense ''kitchensense.models.inventory_event'' = Some models_inventory_event_module"
  "map_of kitchensense ''kitchensense.models.inventory_snapshot'' = Some models_inventory_snapshot_module"
  "map_of kitchensense ''kitchensense.domain.receipts'' = Some domain_receipts_module"
  "map_of kitchensense ''kitchensense.models.receipt_upload'' = Some models_receipt_upload_module"
  "map_of kitchensense ''kitchensense.models'' = Some models_module"
  "map_of kitchensense ''kitchensense.repositories.household'' = Some repositories_household_module"
  "map_of kitchensense ''kitchensense.repositories.inventory'' = Some repositories_inventory_module"
  "map_of kitchensense ''kitchensense.repositories.receipts'' = Some repositories_receipts_module"
  "map_of kitchensense ''kitchensense.repositories'' = Some repositories_module"
  "map_of kitchensense ''kitchensense.storage.receipts'' = Some storage_receipts_module"
  "map_of kitchensense ''kitchensense.storage'' = Some storage_module"
  "map_of kitchensense ''kitchensense.api.dependencies'' = Some api_dependencies_module"
  "map_of kitchensense ''kitchensense.api.schemas'' = Some api_schemas_module"
  "map_of kitchensense ''kitchensense.api.health'' = Some api_health_module"
  "map_of kitchensense ''kitchensense.api.inventory'' = Some api_inventory_module"
  "map_of kitchensense ''kitchensense.api.uploads'' = Some api_uploads_module"
  "map_of kitchensense ''kitchensense.main'' = Some main_module"
  by (simp_all add: kitchensense_def)

lemma module_rank [simp]:
  "rank kitchensense ''kitchensense'' = 0"
  "rank kitchensense ''kitchensense.config'' = 1"
  "rank kitchensense ''kitchensense.api'' = 2"
  "rank kitchensense ''kitchensense.auth.errors'' = 3"
  "rank kitchensense ''kitchensense.auth.jwks'' = 4"
  "rank kitchensense ''kitchensense.domain'' = 5"
  "rank kitchensense ''kitchensense.domain.household'' = 6"
  "rank kitchensense ''kitchensense.auth.principal'' = 7"
  "rank kitchensense ''kitchensense.auth.verifier'' = 8"
  "rank kitchensense ''kitchensense.auth'' = 9"
  "rank kitchensense ''kitchensense.api.security'' = 10"
  "rank kitchensense ''kitchensense.db.base'' = 11"
  "rank kitchensense ''kitchensense.db.session'' = 12"
  "rank kitchensense ''kitchensense.db.provider'' = 13"
  "rank kitchensense ''kitchensense.db'' = 14"
  "rank kitchensense ''kitchensense.models.canonical_product'' = 15"
  "rank kitchensense ''kitchensense.models.household'' = 16"
  "rank kitchensense ''kitchensense.domain.inventory'' = 17"
  "rank kitchensense ''kitchensense.models.inventory_event'' = 18"
  "rank kitchensense ''kitchensense.models.inventory_snapshot'' = 19"
  "rank kitchensense ''kitchensense.domain.receipts'' = 20"
  "rank kitchensense ''kitchensense.models.receipt_upload'' = 21"
  "rank kitchensense ''kitchensense.models'' = 22"
  "rank kitchensense ''kitchensense.repositories.household'' = 23"
  "rank kitchensense ''kitchensense.repositories.inventory'' = 24"
  "rank kitchensense ''kitchensense.repositories.receipts'' = 25"
  "rank kitchensense ''kitchensense.repositories'' = 26"
  "rank kitchensense ''kitchensense.storage.receipts'' = 27"
  "rank kitchensense ''kitchensense.storage'' = 28"
  "rank kitchensense ''kitchensense.api.dependencies'' = 29"
  "rank kitchensense ''kitchensense.api.schemas'' = 30"
  "rank kitchensense ''kitchensense.api.health'' = 31"
  "rank kitchensense ''kitchensense.api.inventory'' = 32"
  "rank kitchensense ''kitchensense.api.uploads'' = 33"
  "rank kitchensense ''kitchensense.main'' = 34"
  by (simp_all add: kitchensense_def rank_def)

lemma module_ancestors [simp]:
  "ancestors ''kitchensense'' = []"
  "ancestors ''kitchensense.config'' = [''kitchensense'']"
  "ancestors ''kitchensense.api'' = [''kitchensense'']"
  "ancestors ''kitchensense.auth.errors'' = [''kitchensense.auth'', ''kitchensense'']"
  "ancestors ''kitchensense.auth.jwks'' = [''kitchensense.auth'', ''kitchensense'']"
  "ancestors ''kitchensense.domain'' = [''kitchensense'']"
  "ancestors ''kitchensense.domain.household'' = [''kitchensense.domain'', ''kitchensense'']"
  "ancestors ''kitchensense.auth.principal'' = [''kitchensense.auth'', ''kitchensense'']"
  "ancestors ''kitchensense.auth.verifier'' = [''kitchensense.auth'', ''kitchensense'']"
  "ancestors ''kitchensense.auth'' = [''kitchensense'']"
  "ancestors ''kitchensense.api.security'' = [''kitchensense.api'', ''kitchensense'']"
  "ancestors ''kitchensense.db.base'' = [''kitchensense.db'', ''kitchensense'']"
  "ancestors ''kitchensense.db.session'' = [''kitchensense.db'', ''kitchensense'']"
  "ancestors ''kitchensense.db.provider'' = [''kitchensense.db'', ''kitchensense'']"
  "ancestors ''kitchensense.db'' = [''kitchensense'']"
  "ancestors ''kitchensense.models.canonical_product'' = [''kitchensense.models'', ''kitchensense'']"
  "ancestors ''kitchensense.models.household'' = [''kitchensense.models'', ''kitchensense'']"
  "ancestors ''kitchensense.domain.inventory'' = [''kitchensense.domain'', ''kitchensense'']"
  "ancestors ''kitchensense.models.inventory_event'' = [''kitchensense.models'', ''kitchensense'']"
  "ancestors ''kitchensense.models.inventory_snapshot'' = [''kitchensense.models'', ''kitchensense'']"
  "ancestors ''kitchensense.domain.receipts'' = [''kitchensense.domain'', ''kitchensense'']"
  "ancestors ''kitchensense.models.receipt_upload'' = [''kitchensense.models'', ''kitchensense'']"
  "ancestors ''kitchensense.models'' = [''kitchensense'']"
  "ancestors ''kitchensense.repositories.household'' = [''kitchensense.repositories'', ''kitchensense'']"
  "ancestors ''kitchensense.repositories.inventory'' = [''kitchensense.repositories'', ''kitchensense'']"
  "ancestors ''kitchensense.repositories.receipts'' = [''kitchensense.repositories'', ''kitchensense'']"
  "ancestors ''kitchensense.repositories'' = [''kitchensense'']"
  "ancestors ''kitchensense.storage.receipts'' = [''kitchensense.storage'', ''kitchensense'']"
  "ancestors ''kitchensense.storage'' = [''kitchensense'']"
  "ancestors ''kitchensense.api.dependencies'' = [''kitchensense.api'', ''kitchensense'']"
  "ancestors ''kitchensense.api.schemas'' = [''kitchensense.api'', ''kitchensense'']"
  "ancestors ''kitchensense.api.health'' = [''kitchensense.api'', ''kitchensense'']"
  "ancestors ''kitchensense.api.inventory'' = [''kitchensense.api'', ''kitchensense'']"
  "ancestors ''kitchensense.api.uploads'' = [''kitchensense.api'', ''kitchensense'']"
  "ancestors ''kitchensense.main'' = [''kitchensense'']"
  by (simp_all add: ancestors.simps parent_def)

lemma module_external [simp]:
  "external ''__future__''"
  "external ''asyncio''"
  "external ''azure.storage.blob''"
  "external ''collections.abc''"
  "external ''contextlib''"
  "external ''dataclasses''"
  "external ''datetime''"
  "external ''decimal''"
  "external ''enum''"
  "external ''fastapi''"
  "external ''fastapi.responses''"
  "external ''fastapi.security''"
  "external ''httpx''"
  "external ''jwt''"
  "external ''logging''"
  "external ''os''"
  "external ''pydantic''"
  "external ''sqlalchemy''"
  "external ''sqlalchemy.dialects.postgresql''"
  "external ''sqlalchemy.engine''"
  "external ''sqlalchemy.exc''"
  "external ''sqlalchemy.ext.asyncio''"
  "external ''sqlalchemy.orm''"
  "external ''time''"
  "external ''typing''"
  "external ''urllib.parse''"
  "external ''uuid''"
  "\<not> external ''kitchensense''"
  "\<not> external ''kitchensense.config''"
  "\<not> external ''kitchensense.api''"
  "\<not> external ''kitchensense.auth.errors''"
  "\<not> external ''kitchensense.auth.jwks''"
  "\<not> external ''kitchensense.domain''"
  "\<not> external ''kitchensense.domain.household''"
  "\<not> external ''kitchensense.auth.principal''"
  "\<not> external ''kitchensense.auth.verifier''"
  "\<not> external ''kitchensense.auth''"
  "\<not> external ''kitchensense.api.security''"
  "\<not> external ''kitchensense.db.base''"
  "\<not> external ''kitchensense.db.session''"
  "\<not> external ''kitchensense.db.provider''"
  "\<not> external ''kitchensense.db''"
  "\<not> external ''kitchensense.models.canonical_product''"
  "\<not> external ''kitchensense.models.household''"
  "\<not> external ''kitchensense.domain.inventory''"
  "\<not> external ''kitchensense.models.inventory_event''"
  "\<not> external ''kitchensense.models.inventory_snapshot''"
  "\<not> external ''kitchensense.domain.receipts''"
  "\<not> external ''kitchensense.models.receipt_upload''"
  "\<not> external ''kitchensense.models''"
  "\<not> external ''kitchensense.repositories.household''"
  "\<not> external ''kitchensense.repositories.inventory''"
  "\<not> external ''kitchensense.repositories.receipts''"
  "\<not> external ''kitchensense.repositories''"
  "\<not> external ''kitchensense.storage.receipts''"
  "\<not> external ''kitchensense.storage''"
  "\<not> external ''kitchensense.api.dependencies''"
  "\<not> external ''kitchensense.api.schemas''"
  "\<not> external ''kitchensense.api.health''"
  "\<not> external ''kitchensense.api.inventory''"
  "\<not> external ''kitchensense.api.uploads''"
  "\<not> external ''kitchensense.main''"
  by (simp_all add: external_def root_def)

lemma module_names [simp]:
  "body_names kitchensense ''kitchensense.config'' =
     [''annotations'', ''os'', ''dataclass'', ''__all__'', ''DEFAULT_KEY_VAULT_URI'', ''DEFAULT_MANAGED_IDENTITY_CLIENT_ID'',
      ''DEFAULT_POSTGRES_SECRET_NAME'', ''DEFAULT_REQUIRED_SCOPE'', ''DEFAULT_RECEIPTS_CONTAINER'', ''DEFAULT_BLOB_ENDPOINT_SUFFIX'',
      ''_env'', ''Settings'', ''openid_configuration_url'', ''blob_endpoint_for'']"
  "body_names kitchensense ''kitchensense.auth.errors'' =
     [''annotations'', ''__all__'', ''TokenError'', ''MissingTokenError'', ''InvalidTokenError'', ''InsufficientScopeError'',
      ''AuthConfigurationError'']"
  "body_names kitchensense ''kitchensense.auth.jwks'' =
     [''annotations'', ''asyncio'', ''logging'', ''time'', ''dataclass'', ''Any'', ''httpx'', ''PyJWK'', ''InvalidTokenError'',
      ''__all__'', ''logger'', ''OpenIDConfiguration'', ''KeySource'']"
  "body_names kitchensense ''kitchensense.domain.household'' =
     [''annotations'', ''uuid'', ''__all__'', ''HOUSEHOLD_NAMESPACE'', ''household_id_for'']"
  "body_names kitchensense ''kitchensense.auth.principal'' =
     [''annotations'', ''uuid'', ''dataclass'', ''datetime'', ''household_id_for'', ''__all__'', ''Principal'']"
  "body_names kitchensense ''kitchensense.auth.verifier'' =
     [''annotations'', ''logging'', ''UTC'', ''datetime'', ''Any'', ''httpx'', ''jwt'', ''AuthConfigurationError'',
      ''InsufficientScopeError'', ''InvalidTokenError'', ''KeySource'', ''Principal'', ''Settings'', ''__all__'', ''logger'',
      ''ALLOWED_ALGORITHMS'', ''REQUIRED_CLAIMS'', ''TokenVerifier'', ''_scopes'', ''_optional'']"
  "body_names kitchensense ''kitchensense.auth'' =
     [''AuthConfigurationError'', ''InsufficientScopeError'', ''InvalidTokenError'', ''TokenError'', ''KeySource'', ''Principal'',
      ''TokenVerifier'', ''__all__'']"
  "body_names kitchensense ''kitchensense.api.security'' =
     [''annotations'', ''logging'', ''Annotated'', ''Depends'', ''FastAPI'', ''HTTPException'', ''Request'', ''status'',
      ''HTTPAuthorizationCredentials'', ''HTTPBearer'', ''AuthConfigurationError'', ''MissingTokenError'', ''TokenError'', ''Principal'',
      ''TokenVerifier'', ''Settings'', ''__all__'', ''logger'', ''REALM'', ''bearer_scheme'', ''unauthorized'', ''_quotable'',
      ''ensure_verifier'', ''get_verifier'', ''VerifierDep'', ''CredentialsDep'', ''get_principal'', ''PrincipalDep'']"
  "body_names kitchensense ''kitchensense.db.base'' =
     [''annotations'', ''datetime'', ''Decimal'', ''Any'', ''DateTime'', ''MetaData'', ''Numeric'', ''JSONB'', ''DeclarativeBase'',
      ''NAMING_CONVENTION'', ''metadata'', ''QUANTITY'', ''Base'']"
  "body_names kitchensense ''kitchensense.db.session'' =
     [''annotations'', ''os'', ''AsyncIterator'', ''asynccontextmanager'', ''make_url'', ''AsyncEngine'', ''AsyncSession'',
      ''async_sessionmaker'', ''create_async_engine'', ''DEFAULT_DATABASE_URL'', ''SYNC_DRIVER_NAMES'', ''normalize_database_url'',
      ''configured_database_url'', ''database_url'', ''create_engine'', ''create_sessionmaker'', ''session_scope'']"
  "body_names kitchensense ''kitchensense.db.provider'' =
     [''annotations'', ''asyncio'', ''logging'', ''time'', ''dataclass'', ''Literal'', ''text'', ''AsyncEngine'', ''AsyncSession'',
      ''async_sessionmaker'', ''Settings'', ''configured_database_url'', ''create_engine'', ''create_sessionmaker'',
      ''normalize_database_url'', ''__all__'', ''logger'', ''UrlSource'', ''Reachability'', ''DatabaseUnavailableError'',
      ''DatabaseStatus'', ''Database'', ''_read_secret'', ''_brief'']"
  "body_names kitchensense ''kitchensense.db'' =
     [''Base'', ''metadata'', ''Database'', ''DatabaseStatus'', ''DatabaseUnavailableError'', ''configured_database_url'',
      ''create_engine'', ''create_sessionmaker'', ''database_url'', ''normalize_database_url'', ''session_scope'', ''__all__'']"
  "body_names kitchensense ''kitchensense.models.canonical_product'' =
     [''annotations'', ''uuid'', ''datetime'', ''Any'', ''CheckConstraint'', ''Index'', ''Integer'', ''String'', ''func'', ''text'',
      ''PGUUID'', ''Mapped'', ''mapped_column'', ''Base'', ''CanonicalProduct'']"
  "body_names kitchensense ''kitchensense.models.household'' =
     [''annotations'', ''uuid'', ''datetime'', ''CheckConstraint'', ''String'', ''func'', ''text'', ''PGUUID'', ''Mapped'',
      ''mapped_column'', ''Base'', ''Household'']"
  "body_names kitchensense ''kitchensense.domain.inventory'' =
     [''annotations'', ''Iterable'', ''Mapping'', ''dataclass'', ''field'', ''date'', ''datetime'', ''Decimal'', ''StrEnum'', ''UUID'',
      ''__all__'', ''ZERO'', ''EventType'', ''DateLabelType'', ''StorageLocation'', ''InventoryFoldError'', ''HouseholdMismatchError'',
      ''LabelLeakageError'', ''normalize_unit'', ''NewInventoryEvent'', ''InventoryEvent'', ''LotKey'', ''LotState'', ''lot_from_event'',
      ''combine_lots'', ''_earliest'', ''InventorySnapshot'', ''_freeze'', ''empty_snapshot'', ''apply_events'', ''fold_events'',
      ''combine_snapshots'']"
  "body_names kitchensense ''kitchensense.models.inventory_event'' =
     [''annotations'', ''uuid'', ''date'', ''datetime'', ''Decimal'', ''Any'', ''CheckConstraint'', ''Date'', ''Float'', ''ForeignKey'',
      ''Index'', ''String'', ''func'', ''text'', ''SAEnum'', ''PGUUID'', ''Mapped'', ''mapped_column'', ''Base'', ''metadata'',
      ''DateLabelType'', ''EventType'', ''InventoryEvent'', ''StorageLocation'', ''_values'', ''EVENT_TYPE_ENUM'',
      ''DATE_LABEL_TYPE_ENUM'', ''STORAGE_LOCATION_ENUM'', ''InventoryEventRow'']"
  "body_names kitchensense ''kitchensense.models.inventory_snapshot'' =
     [''annotations'', ''uuid'', ''date'', ''datetime'', ''Decimal'', ''CheckConstraint'', ''Date'', ''ForeignKey'', ''Index'',
      ''Integer'', ''String'', ''UniqueConstraint'', ''func'', ''text'', ''PGUUID'', ''Mapped'', ''mapped_column'', ''Base'',
      ''DateLabelType'', ''LotKey'', ''LotState'', ''StorageLocation'', ''DATE_LABEL_TYPE_ENUM'', ''STORAGE_LOCATION_ENUM'',
      ''InventorySnapshotRow'']"
  "body_names kitchensense ''kitchensense.domain.receipts'' =
     [''annotations'', ''uuid'', ''dataclass'', ''datetime'', ''StrEnum'', ''__all__'', ''ReceiptContentType'', ''receipt_blob_name'',
      ''ReceiptUpload'']"
  "body_names kitchensense ''kitchensense.models.receipt_upload'' =
     [''annotations'', ''uuid'', ''datetime'', ''CheckConstraint'', ''ForeignKey'', ''Index'', ''String'', ''UniqueConstraint'', ''text'',
      ''PGUUID'', ''Mapped'', ''mapped_column'', ''Base'', ''ReceiptUpload'', ''ReceiptUploadRow'']"
  "body_names kitchensense ''kitchensense.models'' =
     [''CanonicalProduct'', ''Household'', ''DATE_LABEL_TYPE_ENUM'', ''EVENT_TYPE_ENUM'', ''STORAGE_LOCATION_ENUM'', ''InventoryEventRow'',
      ''InventorySnapshotRow'', ''ReceiptUploadRow'', ''__all__'']"
  "body_names kitchensense ''kitchensense.repositories.household'' =
     [''annotations'', ''uuid'', ''Select'', ''select'', ''pg_insert'', ''AsyncSession'', ''Household'', ''__all__'',
      ''HouseholdRepository'']"
  "body_names kitchensense ''kitchensense.repositories.inventory'' =
     [''annotations'', ''uuid'', ''Sequence'', ''datetime'', ''Any'', ''Select'', ''delete'', ''func'', ''select'', ''pg_insert'',
      ''AsyncSession'', ''HouseholdMismatchError'', ''InventoryEvent'', ''InventorySnapshot'', ''NewInventoryEvent'', ''apply_events'',
      ''empty_snapshot'', ''fold_events'', ''normalize_unit'', ''InventoryEventRow'', ''InventorySnapshotRow'', ''__all__'',
      ''IdempotencyKeyConflictError'', ''InventoryEventRepository'', ''InventorySnapshotRepository'']"
  "body_names kitchensense ''kitchensense.repositories.receipts'' =
     [''annotations'', ''uuid'', ''Sequence'', ''datetime'', ''Select'', ''select'', ''AsyncSession'', ''ReceiptUpload'',
      ''ReceiptUploadRow'', ''__all__'', ''ReceiptUploadRepository'']"
  "body_names kitchensense ''kitchensense.repositories'' =
     [''HouseholdRepository'', ''IdempotencyKeyConflictError'', ''InventoryEventRepository'', ''InventorySnapshotRepository'',
      ''ReceiptUploadRepository'', ''__all__'']"
  "body_names kitchensense ''kitchensense.storage.receipts'' =
     [''annotations'', ''asyncio'', ''logging'', ''uuid'', ''Callable'', ''dataclass'', ''UTC'', ''datetime'', ''timedelta'', ''quote'',
      ''BlobSasPermissions'', ''UserDelegationKey'', ''generate_blob_sas'', ''Settings'', ''ReceiptContentType'', ''receipt_blob_name'',
      ''__all__'', ''logger'', ''BLOB_TYPE_HEADER'', ''StorageUnavailableError'', ''UploadTicket'', ''DelegationKeySource'',
      ''ReceiptBlobStore'']"
  "body_names kitchensense ''kitchensense.storage'' =
     [''ReceiptBlobStore'', ''StorageUnavailableError'', ''UploadTicket'', ''__all__'']"
  "body_names kitchensense ''kitchensense.api.dependencies'' =
     [''annotations'', ''logging'', ''uuid'', ''AsyncIterator'', ''Annotated'', ''Depends'', ''FastAPI'', ''HTTPException'', ''Request'',
      ''status'', ''AsyncSession'', ''PrincipalDep'', ''Settings'', ''Database'', ''DatabaseUnavailableError'', ''HouseholdRepository'',
      ''ReceiptBlobStore'', ''__all__'', ''logger'', ''ensure_database'', ''get_database'', ''DatabaseDep'', ''get_session'',
      ''SessionDep'', ''get_household_id'', ''HouseholdDep'', ''ensure_receipt_store'', ''get_receipt_store'', ''ReceiptStoreDep'']"
  "body_names kitchensense ''kitchensense.api.schemas'' =
     [''annotations'', ''uuid'', ''date'', ''datetime'', ''Decimal'', ''Any'', ''Self'', ''AwareDatetime'', ''BaseModel'', ''ConfigDict'',
      ''Field'', ''model_validator'', ''DateLabelType'', ''EventType'', ''InventoryEvent'', ''InventorySnapshot'', ''LotState'',
      ''NewInventoryEvent'', ''StorageLocation'', ''ReceiptContentType'', ''ReceiptUpload'', ''__all__'', ''STRICT'',
      ''InventoryEventCreate'', ''InventoryEventResponse'', ''LotResponse'', ''SnapshotResponse'', ''UploadRequest'',
      ''UploadTicketResponse'', ''UploadConfirmation'', ''HealthResponse'', ''DeepHealthResponse'', ''RootResponse'']"
  "body_names kitchensense ''kitchensense.api.health'' =
     [''annotations'', ''APIRouter'', ''DatabaseDep'', ''DeepHealthResponse'', ''HealthResponse'', ''RootResponse'', ''router'',
      ''health'', ''health_deep'', ''root'']"
  "body_names kitchensense ''kitchensense.api.inventory'' =
     [''annotations'', ''UTC'', ''datetime'', ''Annotated'', ''APIRouter'', ''Depends'', ''HTTPException'', ''Query'', ''Response'',
      ''status'', ''AwareDatetime'', ''IntegrityError'', ''HouseholdDep'', ''SessionDep'', ''InventoryEventCreate'',
      ''InventoryEventResponse'', ''SnapshotResponse'', ''get_principal'', ''IdempotencyKeyConflictError'', ''InventoryEventRepository'',
      ''InventorySnapshotRepository'', ''router'', ''append_event'', ''current_snapshot'', ''snapshot_as_of'']"
  "body_names kitchensense ''kitchensense.api.uploads'' =
     [''annotations'', ''logging'', ''uuid'', ''UTC'', ''datetime'', ''Annotated'', ''APIRouter'', ''Depends'', ''HTTPException'',
      ''Path'', ''status'', ''HouseholdDep'', ''ReceiptStoreDep'', ''SessionDep'', ''UploadConfirmation'', ''UploadRequest'',
      ''UploadTicketResponse'', ''get_principal'', ''ReceiptUploadRepository'', ''logger'', ''router'', ''UploadIdPath'',
      ''request_upload'', ''confirm_upload'']"
  "body_names kitchensense ''kitchensense.main'' =
     [''annotations'', ''logging'', ''AsyncIterator'', ''asynccontextmanager'', ''FastAPI'', ''Request'', ''status'', ''JSONResponse'',
      ''DBAPIError'', ''InterfaceError'', ''OperationalError'', ''health'', ''inventory'', ''uploads'', ''ensure_database'',
      ''ensure_receipt_store'', ''ensure_verifier'', ''AuthConfigurationError'', ''Settings'', ''DatabaseUnavailableError'',
      ''StorageUnavailableError'', ''logger'', ''lifespan'', ''app'', ''_database_unconfigured'', ''_database_unreachable'',
      ''_storage_unavailable'']"
  by (simp_all add: body_names_def root_def config_module_def auth_errors_module_def auth_jwks_module_def domain_household_module_def auth_principal_module_def auth_verifier_module_def auth_module_def api_security_module_def db_base_module_def db_session_module_def db_provider_module_def db_module_def models_canonical_product_module_def models_household_module_def domain_inventory_module_def models_inventory_event_module_def models_inventory_snapshot_module_def domain_receipts_module_def models_receipt_upload_module_def models_module_def repositories_household_module_def repositories_inventory_module_def repositories_receipts_module_def repositories_module_def storage_receipts_module_def storage_module_def api_dependencies_module_def api_schemas_module_def api_health_module_def api_inventory_module_def api_uploads_module_def main_module_def)

lemmas order_simps = module_ok_def names_ok_def available_def earlier_def

lemma kitchensense_module_ok: "module_ok kitchensense (''kitchensense'', kitchensense_module)"
  by (simp add: order_simps kitchensense_module_def)

lemma config_module_ok: "module_ok kitchensense (''kitchensense.config'', config_module)"
  by (simp add: order_simps config_module_def)

lemma api_module_ok: "module_ok kitchensense (''kitchensense.api'', api_module)"
  by (simp add: order_simps api_module_def)

lemma auth_errors_module_ok: "module_ok kitchensense (''kitchensense.auth.errors'', auth_errors_module)"
  by (simp add: order_simps auth_errors_module_def)

lemma auth_jwks_module_ok: "module_ok kitchensense (''kitchensense.auth.jwks'', auth_jwks_module)"
  by (simp add: order_simps auth_jwks_module_def)

lemma domain_module_ok: "module_ok kitchensense (''kitchensense.domain'', domain_module)"
  by (simp add: order_simps domain_module_def)

lemma domain_household_module_ok: "module_ok kitchensense (''kitchensense.domain.household'', domain_household_module)"
  by (simp add: order_simps domain_household_module_def)

lemma auth_principal_module_ok: "module_ok kitchensense (''kitchensense.auth.principal'', auth_principal_module)"
  by (simp add: order_simps auth_principal_module_def)

lemma auth_verifier_module_ok: "module_ok kitchensense (''kitchensense.auth.verifier'', auth_verifier_module)"
  by (simp add: order_simps auth_verifier_module_def)

lemma auth_module_ok: "module_ok kitchensense (''kitchensense.auth'', auth_module)"
  by (simp add: order_simps auth_module_def)

lemma api_security_module_ok: "module_ok kitchensense (''kitchensense.api.security'', api_security_module)"
  by (simp add: order_simps api_security_module_def)

lemma db_base_module_ok: "module_ok kitchensense (''kitchensense.db.base'', db_base_module)"
  by (simp add: order_simps db_base_module_def)

lemma db_session_module_ok: "module_ok kitchensense (''kitchensense.db.session'', db_session_module)"
  by (simp add: order_simps db_session_module_def)

lemma db_provider_module_ok: "module_ok kitchensense (''kitchensense.db.provider'', db_provider_module)"
  by (simp add: order_simps db_provider_module_def)

lemma db_module_ok: "module_ok kitchensense (''kitchensense.db'', db_module)"
  by (simp add: order_simps db_module_def)

lemma models_canonical_product_module_ok: "module_ok kitchensense (''kitchensense.models.canonical_product'', models_canonical_product_module)"
  by (simp add: order_simps models_canonical_product_module_def)

lemma models_household_module_ok: "module_ok kitchensense (''kitchensense.models.household'', models_household_module)"
  by (simp add: order_simps models_household_module_def)

lemma domain_inventory_module_ok: "module_ok kitchensense (''kitchensense.domain.inventory'', domain_inventory_module)"
  by (simp add: order_simps domain_inventory_module_def)

lemma models_inventory_event_module_ok: "module_ok kitchensense (''kitchensense.models.inventory_event'', models_inventory_event_module)"
  by (simp add: order_simps models_inventory_event_module_def)

lemma models_inventory_snapshot_module_ok: "module_ok kitchensense (''kitchensense.models.inventory_snapshot'', models_inventory_snapshot_module)"
  by (simp add: order_simps models_inventory_snapshot_module_def)

lemma domain_receipts_module_ok: "module_ok kitchensense (''kitchensense.domain.receipts'', domain_receipts_module)"
  by (simp add: order_simps domain_receipts_module_def)

lemma models_receipt_upload_module_ok: "module_ok kitchensense (''kitchensense.models.receipt_upload'', models_receipt_upload_module)"
  by (simp add: order_simps models_receipt_upload_module_def)

lemma models_module_ok: "module_ok kitchensense (''kitchensense.models'', models_module)"
  by (simp add: order_simps models_module_def)

lemma repositories_household_module_ok: "module_ok kitchensense (''kitchensense.repositories.household'', repositories_household_module)"
  by (simp add: order_simps repositories_household_module_def)

lemma repositories_inventory_module_ok: "module_ok kitchensense (''kitchensense.repositories.inventory'', repositories_inventory_module)"
  by (simp add: order_simps repositories_inventory_module_def)

lemma repositories_receipts_module_ok: "module_ok kitchensense (''kitchensense.repositories.receipts'', repositories_receipts_module)"
  by (simp add: order_simps repositories_receipts_module_def)

lemma repositories_module_ok: "module_ok kitchensense (''kitchensense.repositories'', repositories_module)"
  by (simp add: order_simps repositories_module_def)

lemma storage_receipts_module_ok: "module_ok kitchensense (''kitchensense.storage.receipts'', storage_receipts_module)"
  by (simp add: order_simps storage_receipts_module_def)

lemma storage_module_ok: "module_ok kitchensense (''kitchensense.storage'', storage_module)"
  by (simp add: order_simps storage_module_def)

lemma api_dependencies_module_ok: "module_ok kitchensense (''kitchensense.api.dependencies'', api_dependencies_module)"
  by (simp add: order_simps api_dependencies_module_def)

lemma api_schemas_module_ok: "module_ok kitchensense (''kitchensense.api.schemas'', api_schemas_module)"
  by (simp add: order_simps api_schemas_module_def)

lemma api_health_module_ok: "module_ok kitchensense (''kitchensense.api.health'', api_health_module)"
  by (simp add: order_simps api_health_module_def)

lemma api_inventory_module_ok: "module_ok kitchensense (''kitchensense.api.inventory'', api_inventory_module)"
  by (simp add: order_simps api_inventory_module_def)

lemma api_uploads_module_ok: "module_ok kitchensense (''kitchensense.api.uploads'', api_uploads_module)"
  by (simp add: order_simps api_uploads_module_def)

lemma main_module_ok: "module_ok kitchensense (''kitchensense.main'', main_module)"
  by (simp add: order_simps main_module_def)

interpretation service: import_order kitchensense
  by unfold_locales (simp add: kitchensense_def [THEN arg_cong, of "list_all (module_ok kitchensense)"] kitchensense_module_ok config_module_ok api_module_ok auth_errors_module_ok auth_jwks_module_ok domain_module_ok domain_household_module_ok auth_principal_module_ok auth_verifier_module_ok auth_module_ok api_security_module_ok db_base_module_ok db_session_module_ok db_provider_module_ok db_module_ok models_canonical_product_module_ok models_household_module_ok domain_inventory_module_ok models_inventory_event_module_ok models_inventory_snapshot_module_ok domain_receipts_module_ok models_receipt_upload_module_ok models_module_ok repositories_household_module_ok repositories_inventory_module_ok repositories_receipts_module_ok repositories_module_ok storage_receipts_module_ok storage_module_ok api_dependencies_module_ok api_schemas_module_ok api_health_module_ok api_inventory_module_ok api_uploads_module_ok main_module_ok)

lemma exports_are_bound:
  "list_all (\<lambda>(k, body). list_all (\<lambda>x. x \<in> set (body_names kitchensense k)) (concat (map exported body))) kitchensense"
  by (simp add: kitchensense_def [THEN arg_cong, of "list_all f" for f] kitchensense_module_def config_module_def api_module_def auth_errors_module_def auth_jwks_module_def domain_module_def domain_household_module_def auth_principal_module_def auth_verifier_module_def auth_module_def api_security_module_def db_base_module_def db_session_module_def db_provider_module_def db_module_def models_canonical_product_module_def models_household_module_def domain_inventory_module_def models_inventory_event_module_def models_inventory_snapshot_module_def domain_receipts_module_def models_receipt_upload_module_def models_module_def repositories_household_module_def repositories_inventory_module_def repositories_receipts_module_def repositories_module_def storage_receipts_module_def storage_module_def api_dependencies_module_def api_schemas_module_def api_health_module_def api_inventory_module_def api_uploads_module_def main_module_def)

lemma exported_bound: "x \<in> set (exports kitchensense k) \<Longrightarrow> x \<in> set (body_names kitchensense k)"
proof -
  assume "x \<in> set (exports kitchensense k)"
  then obtain body where body: "map_of kitchensense k = Some body" "x \<in> set (concat (map exported body))"
    by (cases "map_of kitchensense k") (auto simp: exports_def)
  from map_of_SomeD[OF body(1)] exports_are_bound
  have "list_all (\<lambda>x. x \<in> set (body_names kitchensense k)) (concat (map exported body))"
    by (auto simp: list_all_iff)
  with body(2) show ?thesis
    unfolding list_all_iff by blast
qed

lemma loaded_modules:
  assumes "m \<in> set (map fst kitchensense)" and "143 < n"
  obtains ms where "load n kitchensense m [] = Inr ms" "map_of ms m \<noteq> None"
    "\<And>k x. map_of ms k \<noteq> None \<Longrightarrow> \<not> external k \<Longrightarrow> x \<in> set (body_names kitchensense k) \<Longrightarrow> has_name ms k x"
    "\<And>k i. map_of ms k \<noteq> None \<Longrightarrow> \<not> external k \<Longrightarrow> i \<in> set (body_imports kitchensense k) \<Longrightarrow> map_of ms i \<noteq> None"
proof -
  have "length kitchensense = 35"
    by (simp add: kitchensense_def)
  moreover have "map_of kitchensense m \<noteq> None"
    using assms(1) by (auto simp: map_of_eq_None_iff)
  ultimately obtain ms where ms: "load n kitchensense m [] = Inr ms" "map_of ms m \<noteq> None"
    "\<forall>k ys. map_of ms k = Some ys \<and> \<not> external k \<longrightarrow> map_of kitchensense k \<noteq> None \<and>
      set (body_names kitchensense k) \<subseteq> set ys \<and> (\<forall>i \<in> set (body_imports kitchensense k). map_of ms i \<noteq> None)"
    using service.load_first[of m n] assms(2) by auto
  show thesis
  proof (rule that[OF ms(1,2)])
    show "has_name ms k x" if "map_of ms k \<noteq> None" "\<not> external k" "x \<in> set (body_names kitchensense k)" for k x
      using ms(3) that by (fastforce simp: has_name_def)
    show "map_of ms i \<noteq> None" if "map_of ms k \<noteq> None" "\<not> external k" "i \<in> set (body_imports kitchensense k)" for k i
      using ms(3) that by blast
  qed
qed

text \<open>The domain and the part of the standard library it uses.\<close>

definition domain_modules :: "string list" where
  "domain_modules =
     [''kitchensense.domain'', ''kitchensense.domain.household'', ''kitchensense.domain.inventory'', ''kitchensense.domain.receipts'']"

definition pure_modules :: "string list" where
  "pure_modules =
     domain_modules @ [''kitchensense'', ''__future__'', ''collections.abc'', ''dataclasses'', ''datetime'', ''decimal'', ''enum'', ''uuid'']"

lemma pure_closed: "closed_within kitchensense pure_modules"
proof -
  have parents: "parent ''kitchensense.domain'' = ''kitchensense''" "parent ''kitchensense'' = []"
    "parent ''kitchensense.domain.household'' = ''kitchensense.domain''" "parent ''kitchensense.domain.inventory'' = ''kitchensense.domain''"
    "parent ''kitchensense.domain.receipts'' = ''kitchensense.domain''"
    by (simp_all add: parent_def)
  have outside: "map_of kitchensense m = None" if "external m" for m
    using service.module_known[of m] that by (cases "map_of kitchensense m") (auto simp: module_ok_def)
  show ?thesis
    by (simp add: closed_within_def pure_modules_def domain_modules_def parents outside kitchensense_module_def domain_module_def
        domain_household_module_def domain_inventory_module_def domain_receipts_module_def)
qed

subsection \<open>Properties\<close>

text \<open>
  C39: no import is circular.  Whichever module of the service an interpreter imports first, every module it comes to finds in each module it
  imports from the names it asks for, though that one, or a package above it, may still be half run.  The import ends, nested no
  deeper than \<open>143\<close>; every module that was loaded has all the names it exports, and all it imports is loaded.
\<close>

theorem every_module_imports_first:
  assumes "m \<in> set (map fst kitchensense)" and "143 < n"
  shows "\<exists>ms. load n kitchensense m [] = Inr ms \<and> map_of ms m \<noteq> None \<and>
    (\<forall>k. map_of ms k \<noteq> None \<and> \<not> external k \<longrightarrow>
       list_all (has_name ms k) (exports kitchensense k) \<and> list_all (\<lambda>i. map_of ms i \<noteq> None) (body_imports kitchensense k))"
proof -
  obtain ms where "load n kitchensense m [] = Inr ms" "map_of ms m \<noteq> None"
    "\<And>k x. map_of ms k \<noteq> None \<Longrightarrow> \<not> external k \<Longrightarrow> x \<in> set (body_names kitchensense k) \<Longrightarrow> has_name ms k x"
    "\<And>k i. map_of ms k \<noteq> None \<Longrightarrow> \<not> external k \<Longrightarrow> i \<in> set (body_imports kitchensense k) \<Longrightarrow> map_of ms i \<noteq> None"
    using assms by (rule loaded_modules) blast
  then show ?thesis
    unfolding list_all_iff using exported_bound by blast
qed

theorem every_module_imports_first_witness:
  "\<exists>ms. load 144 kitchensense ''kitchensense.main'' [] = Inr ms \<and> map_of ms ''kitchensense.main'' \<noteq> None"
proof -
  have "''kitchensense.main'' \<in> set (map fst kitchensense)"
    by (simp add: kitchensense_def)
  from every_module_imports_first[OF this, of 144] show ?thesis
    by auto
qed

text \<open>
  The domain is pure.  Importing a module of the domain loads, directly or through anything it imports, nothing but the domain, the package it
  lies in, and seven modules of the standard library: no database, no HTTP client, no layer built on top of it.
\<close>

theorem domain_imports_stay_pure:
  assumes "m \<in> set domain_modules" and "143 < n"
  shows "\<exists>ms. load n kitchensense m [] = Inr ms \<and> set (map fst ms) \<subseteq> set pure_modules"
proof -
  have "m \<in> set (map fst kitchensense)"
    using assms(1) by (auto simp: domain_modules_def kitchensense_def)
  then obtain ms where ms: "load n kitchensense m [] = Inr ms"
    using loaded_modules[OF _ assms(2)] by metis
  have "adds_within pure_modules [] ms"
    using loaded_within(1)[OF pure_closed ms] assms(1) by (simp add: pure_modules_def)
  with ms show ?thesis
    by (simp add: adds_within_def)
qed

theorem domain_imports_stay_pure_witness:
  "\<exists>ms. load 144 kitchensense ''kitchensense.domain.inventory'' [] = Inr ms \<and> set (map fst ms) \<subseteq> set pure_modules \<and>
     ''sqlalchemy'' \<notin> set (map fst ms)"
proof -
  have "''kitchensense.domain.inventory'' \<in> set domain_modules"
    by (simp add: domain_modules_def)
  moreover have "''sqlalchemy'' \<notin> set pure_modules"
    by (simp add: pure_modules_def domain_modules_def)
  ultimately show ?thesis
    using domain_imports_stay_pure[of "''kitchensense.domain.inventory''" 144] by auto
qed

text \<open>
  Importing the models registers every table.  Alembic's environment imports \<^verbatim>\<open>kitchensense.models\<close> for its effect on the metadata: the
  import runs the module of each mapped class, which defines it.
\<close>

theorem models_import_defines_every_table:
  "\<exists>ms. load 144 kitchensense ''kitchensense.models'' [] = Inr ms \<and>
     list_all (\<lambda>(m, c). has_name ms m c \<and> has_name ms ''kitchensense.models'' c)
       [(''kitchensense.models.household'', ''Household''), (''kitchensense.models.canonical_product'', ''CanonicalProduct''),
        (''kitchensense.models.inventory_event'', ''InventoryEventRow''), (''kitchensense.models.inventory_snapshot'', ''InventorySnapshotRow''),
        (''kitchensense.models.receipt_upload'', ''ReceiptUploadRow'')]"
proof -
  have "''kitchensense.models'' \<in> set (map fst kitchensense)" "143 < (144 :: nat)"
    by (simp_all add: kitchensense_def)
  from loaded_modules[OF this] obtain ms where ms: "load 144 kitchensense ''kitchensense.models'' [] = Inr ms"
    "map_of ms ''kitchensense.models'' \<noteq> None"
    and names: "\<And>k x. map_of ms k \<noteq> None \<Longrightarrow> \<not> external k \<Longrightarrow> x \<in> set (body_names kitchensense k) \<Longrightarrow> has_name ms k x"
    and inner: "\<And>k i. map_of ms k \<noteq> None \<Longrightarrow> \<not> external k \<Longrightarrow> i \<in> set (body_imports kitchensense k) \<Longrightarrow> map_of ms i \<noteq> None"
    by blast
  have "list_all (\<lambda>i. map_of ms i \<noteq> None) (body_imports kitchensense ''kitchensense.models'')"
    using inner[OF ms(2)] by (auto simp: list_all_iff)
  then have "map_of ms ''kitchensense.models.household'' \<noteq> None" "map_of ms ''kitchensense.models.canonical_product'' \<noteq> None"
    "map_of ms ''kitchensense.models.inventory_event'' \<noteq> None" "map_of ms ''kitchensense.models.inventory_snapshot'' \<noteq> None"
    "map_of ms ''kitchensense.models.receipt_upload'' \<noteq> None"
    by (simp_all add: body_imports_def models_module_def)
  note loaded = ms(2) this
  show ?thesis
    by (rule exI[of _ ms]) (simp add: ms(1) loaded [THEN names])
qed

end
