(* ===== verification/Py_Stdlib.thy ===== *)
theory Py_Stdlib
  imports Kitchen_Prelude "HOL-Library.Word" "HOL-Library.Finite_Map"
begin

section \<open>The Python values the program computes with\<close>

text \<open>
  Values of the standard library, as far as the program uses them.

  \<^item> \<^verbatim>\<open>str\<close> is \<^typ>\<open>string\<close>: a list of code points, each below 256 (Latin-1).  \<open>strip\<close>
    and \<open>lower\<close> follow \<^verbatim>\<open>str.strip\<close> and \<^verbatim>\<open>str.lower\<close> on that range.
  \<^item> \<^verbatim>\<open>UUID\<close> is a 128-bit word, printed in the usual 8-4-4-4-12 form.
  \<^item> An aware \<^verbatim>\<open>datetime\<close> is the instant it denotes, in microseconds from the
    proleptic Gregorian epoch 0001-01-01T00:00Z; aware datetimes compare as instants.
  \<^item> A \<^verbatim>\<open>date\<close> is a year, month and day on the calendar.
  \<^item> A quantity (\<^verbatim>\<open>Decimal\<close> held in a \<^verbatim>\<open>Numeric(14, 3)\<close> column) is an
    integer number of thousandths, so its sums are exact.
\<close>

type_synonym uuid = "128 word"
type_synonym datetime = int
type_synonym quantity = int

datatype json =
    JNull | JBool bool | JNum rat | JStr string
  | JArray "json list" | JObject "(string, json) fmap"

type_synonym metadata = "(string, json) fmap"

subsection \<open>Strings\<close>

definition code_point :: "char \<Rightarrow> int" where
  "code_point c = of_char c"

definition is_space :: "char \<Rightarrow> bool" where
  "is_space c = (let n = code_point c in
     (9 \<le> n \<and> n \<le> 13) \<or> (28 \<le> n \<and> n \<le> 32) \<or> n = 133 \<or> n = 160)"

definition lower_char :: "char \<Rightarrow> char" where
  "lower_char c = (let n = code_point c in
     if (65 \<le> n \<and> n \<le> 90) \<or> (192 \<le> n \<and> n \<le> 222 \<and> n \<noteq> 215) then char_of (n + 32) else c)"

definition lstrip :: "string \<Rightarrow> string" where
  "lstrip s = dropWhile is_space s"

definition strip :: "string \<Rightarrow> string" where
  "strip s = rev (lstrip (rev (lstrip s)))"

definition lower :: "string \<Rightarrow> string" where
  "lower s = map lower_char s"

definition is_blank :: "string \<Rightarrow> bool" where
  "is_blank s = (strip s = [])"

lemma code_point_lower_char:
  "code_point (lower_char c) =
     (let n = code_point c in
      if (65 \<le> n \<and> n \<le> 90) \<or> (192 \<le> n \<and> n \<le> 222 \<and> n \<noteq> 215) then n + 32 else n)"
  by (auto simp: lower_char_def code_point_def Let_def)

lemma lower_char_idem [simp]: "lower_char (lower_char c) = lower_char c"
proof -
  have "\<not> ((65 \<le> n \<and> n \<le> 90) \<or> (192 \<le> n \<and> n \<le> 222 \<and> n \<noteq> 215))"
    if "n = code_point (lower_char c)" for n
    using that by (auto simp: code_point_lower_char Let_def split: if_splits)
  then show ?thesis
    by (auto simp: lower_char_def[of "lower_char c"] Let_def)
qed

lemma is_space_lower_char [simp]: "is_space (lower_char c) = is_space c"
  by (auto simp: is_space_def code_point_lower_char Let_def)

lemma strip_lower: "strip (lower s) = lower (strip s)"
proof -
  have "lstrip (lower s) = lower (lstrip s)" for s
    by (induction s) (auto simp: lstrip_def lower_def)
  then show ?thesis
    by (simp add: strip_def lower_def rev_map)
qed

lemma lstrip_id: "s = [] \<or> \<not> is_space (hd s) \<Longrightarrow> lstrip s = s"
  by (cases s) (auto simp: lstrip_def)

lemma hd_lstrip: "lstrip s = [] \<or> \<not> is_space (hd (lstrip s))"
  using hd_dropWhile[of is_space s] by (auto simp: lstrip_def)

lemma set_strip: "set (strip s) \<subseteq> set s"
  by (auto simp: strip_def lstrip_def dest!: set_dropWhileD)

lemma length_lstrip: "length (lstrip s) \<le> length s"
  by (simp add: lstrip_def length_dropWhile_le)

lemma length_strip: "length (strip s) \<le> length s"
  using length_lstrip[of s] length_lstrip[of "rev (lstrip s)"] by (simp add: strip_def)

lemma strip_idem [simp]: "strip (strip s) = strip s"
proof -
  define t where "t = lstrip s"
  define u where "u = rev (lstrip (rev t))"
  have pre: "\<exists>v. t = u @ v"
  proof -
    have "rev t = takeWhile is_space (rev t) @ lstrip (rev t)"
      by (simp add: lstrip_def)
    then have "t = u @ rev (takeWhile is_space (rev t))"
      unfolding u_def by (metis rev_append rev_rev_ident)
    then show ?thesis ..
  qed
  have "u = [] \<or> \<not> is_space (hd u)"
    using pre hd_lstrip[of s] by (cases u) (auto simp: t_def)
  then have "lstrip u = u"
    by (rule lstrip_id)
  moreover have "lstrip (rev u) = rev u"
    unfolding u_def by (simp add: lstrip_id hd_lstrip)
  ultimately show ?thesis
    unfolding strip_def by (simp add: u_def t_def)
qed

subsection \<open>Digits\<close>

definition digit_char :: "int \<Rightarrow> char" where
  "digit_char n = char_of (if n < 10 then 48 + n else 87 + n)"

definition digit_value :: "char \<Rightarrow> int" where
  "digit_value c = (let n = of_char c in if n < 58 then n - 48 else n - 87)"

lemma digit_value_digit_char [simp]: "0 \<le> n \<Longrightarrow> n < 16 \<Longrightarrow> digit_value (digit_char n) = n"
  by (auto simp: digit_value_def digit_char_def Let_def)

text \<open>The last \<open>k\<close> digits of \<open>n\<close> in base \<open>b\<close>, most significant first.\<close>

fun digits :: "int \<Rightarrow> nat \<Rightarrow> int \<Rightarrow> string" where
  "digits b 0 n = []"
| "digits b (Suc k) n = digits b k (n div b) @ [digit_char (n mod b)]"

definition digits_value :: "int \<Rightarrow> string \<Rightarrow> int" where
  "digits_value b s = foldl (\<lambda>a c. a * b + digit_value c) 0 s"

lemma length_digits [simp]: "length (digits b k n) = k"
  by (induction k arbitrary: n) auto

lemma digits_value_digits:
  assumes "0 < b" and "b \<le> 16"
  shows "digits_value b (digits b k n) = n mod b ^ k"
proof (induction k arbitrary: n)
  case 0
  then show ?case by (simp add: digits_value_def)
next
  case (Suc k)
  have "0 \<le> n mod b" and "n mod b < 16"
    using assms by (auto intro: less_le_trans[OF pos_mod_bound])
  then have "digits_value b (digits b (Suc k) n) = (n div b) mod b ^ k * b + n mod b"
    using Suc.IH[of "n div b"] by (simp add: digits_value_def)
  also have "\<dots> = n mod b ^ Suc k"
    using zmod_zmult2_eq[of "b ^ k" n b] assms by (simp add: mult.commute)
  finally show ?case .
qed

lemma set_digits:
  assumes "0 < b"
  shows "set (digits b k n) \<subseteq> digit_char ` {0..<b}"
  using assms by (induction k arbitrary: n) auto

lemma digits_inject:
  assumes "0 < b" and "b \<le> 16" and "0 \<le> m" and "m < b ^ k" and "0 \<le> n" and "n < b ^ k"
    and "digits b k m = digits b k n"
  shows "m = n"
proof -
  have "m mod b ^ k = n mod b ^ k"
    using assms(7) digits_value_digits[OF assms(1,2)] by metis
  with assms(3-6) show ?thesis by simp
qed

subsection \<open>UUIDs\<close>

definition uuid_hex :: "uuid \<Rightarrow> string" where
  "uuid_hex u = digits 16 32 (uint u)"

definition uuid_str :: "uuid \<Rightarrow> string" where
  "uuid_str u = (let h = uuid_hex u in
     take 8 h @ ''-'' @ take 4 (drop 8 h) @ ''-'' @ take 4 (drop 12 h) @ ''-'' @
     take 4 (drop 16 h) @ ''-'' @ drop 20 h)"

lemma length_uuid_hex [simp]: "length (uuid_hex u) = 32"
  by (simp add: uuid_hex_def)

lemma length_uuid_str [simp]: "length (uuid_str u) = 36"
  by (simp add: uuid_str_def Let_def)

lemma uuid_hex_inject: "uuid_hex u = uuid_hex v \<Longrightarrow> u = v"
proof -
  assume eq: "uuid_hex u = uuid_hex v"
  have bound: "uint w < 16 ^ 32" for w :: uuid
    using uint_bounded[of w] by simp
  have "uint u = uint v"
    using eq bound[of u] bound[of v] unfolding uuid_hex_def by (intro digits_inject[of 16 _ 32]) simp_all
  then show "u = v"
    by (simp add: word_uint_eq_iff)
qed

lemma append_take_drop_split: "take a xs @ take b (drop a xs) @ drop (a + b) xs = xs"
  by (metis append_take_drop_id drop_drop add.commute)

lemma uuid_str_inject [simp]: "uuid_str u = uuid_str v \<longleftrightarrow> u = v"
proof
  have rejoin: "uuid_hex w = take 8 (uuid_hex w) @ take 4 (drop 8 (uuid_hex w)) @
      take 4 (drop 12 (uuid_hex w)) @ take 4 (drop 16 (uuid_hex w)) @ drop 20 (uuid_hex w)" for w
    using append_take_drop_split[of 8 "uuid_hex w" 4] append_take_drop_split[of 4 "drop 12 (uuid_hex w)" 4]
    by (simp add: drop_drop)
  assume "uuid_str u = uuid_str v"
  then have "uuid_hex u = uuid_hex v"
    by (subst (1 2) rejoin) (simp add: uuid_str_def Let_def)
  then show "u = v"
    by (rule uuid_hex_inject)
qed simp

definition uuid_alphabet :: "char set" where
  "uuid_alphabet = insert (CHR ''-'') (digit_char ` {0..<16})"

lemma set_uuid_str: "set (uuid_str u) \<subseteq> uuid_alphabet"
proof -
  have "set (uuid_hex u) \<subseteq> digit_char ` {0..<16}"
    unfolding uuid_hex_def by (rule set_digits) simp
  then show ?thesis
    by (auto simp: uuid_str_def Let_def uuid_alphabet_def dest: in_set_takeD in_set_dropD)
qed

subsection \<open>Dates\<close>

definition is_leap :: "int \<Rightarrow> bool" where
  "is_leap y = (y mod 4 = 0 \<and> (y mod 100 \<noteq> 0 \<or> y mod 400 = 0))"

definition days_in_month :: "int \<Rightarrow> int \<Rightarrow> int" where
  "days_in_month y m =
     (if m = 2 then (if is_leap y then 29 else 28)
      else if m = 4 \<or> m = 6 \<or> m = 9 \<or> m = 11 then 30 else 31)"

definition valid_ymd :: "int \<times> int \<times> int \<Rightarrow> bool" where
  "valid_ymd = (\<lambda>(y, m, d). 1 \<le> y \<and> y \<le> 9999 \<and> 1 \<le> m \<and> m \<le> 12 \<and> 1 \<le> d \<and> d \<le> days_in_month y m)"

text \<open>The constructor of \<^verbatim>\<open>datetime.date\<close> refuses a date that is not on the calendar.\<close>

typedef date = "{ymd. valid_ymd ymd}"
  morphisms ymd Abs_date
proof
  show "(1, 1, 1) \<in> {ymd. valid_ymd ymd}"
    by (simp add: valid_ymd_def days_in_month_def)
qed

setup_lifting type_definition_date

text \<open>The date \<open>y-m-d\<close>, or \<^verbatim>\<open>date.min\<close> where that is not on the calendar.\<close>

lift_definition date_or_min :: "int \<Rightarrow> int \<Rightarrow> int \<Rightarrow> date" is
  "\<lambda>y m d. if valid_ymd (y, m, d) then (y, m, d) else (1, 1, 1)"
  by (auto simp: valid_ymd_def days_in_month_def)

instantiation date :: equal
begin

definition equal_date :: "date \<Rightarrow> date \<Rightarrow> bool" where
  "equal_date d e = (ymd d = ymd e)"

instance
  by standard (simp add: equal_date_def ymd_inject)

end

instantiation date :: linorder
begin

definition less_eq_date :: "date \<Rightarrow> date \<Rightarrow> bool" where
  "d \<le> e \<longleftrightarrow> ymd d \<le> ymd e"

definition less_date :: "date \<Rightarrow> date \<Rightarrow> bool" where
  "d < e \<longleftrightarrow> ymd d < ymd e"

instance
  by standard (auto simp: less_eq_date_def less_date_def less_le simp flip: ymd_inject)

end

definition isoformat :: "date \<Rightarrow> string" where
  "isoformat date = (case ymd date of (y, m, d) \<Rightarrow>
     digits 10 4 y @ ''-'' @ digits 10 2 m @ ''-'' @ digits 10 2 d)"

lemma isoformat_neq_Nil [simp]: "isoformat d \<noteq> []" "[] \<noteq> isoformat d"
  by (simp_all add: isoformat_def split: prod.split)

lemma valid_ymd_digits:
  assumes "valid_ymd (y, m, d)"
  shows "0 \<le> y" "y < 10 ^ 4" "0 \<le> m" "m < 10 ^ 2" "0 \<le> d" "d < 10 ^ 2"
  using assms by (auto simp: valid_ymd_def days_in_month_def split: if_splits)

lemma isoformat_inject [simp]: "isoformat a = isoformat b \<longleftrightarrow> a = b"
proof
  obtain y m d where a: "ymd a = (y, m, d)" by (cases "ymd a")
  obtain y' m' d' where b: "ymd b = (y', m', d')" by (cases "ymd b")
    have valid: "valid_ymd (y, m, d)" "valid_ymd (y', m', d')"
    using ymd[of a] ymd[of b] by (simp_all add: a b)
  assume "isoformat a = isoformat b"
  then have "digits 10 4 y = digits 10 4 y'" "digits 10 2 m = digits 10 2 m'" "digits 10 2 d = digits 10 2 d'"
    by (simp_all add: isoformat_def a b)
  then have "y = y'" "m = m'" "d = d'"
    using valid_ymd_digits[OF valid(1)] valid_ymd_digits[OF valid(2)]
    by (auto intro: digits_inject[of 10 _ 4] digits_inject[of 10 _ 2])
  then show "a = b"
    using a b by (metis ymd_inject)
qed simp

subsection \<open>Instants\<close>

definition us_per_day :: int where
  "us_per_day = 86400000000"

definition days_before_month :: "int \<Rightarrow> int" where
  "days_before_month m = [0, 0, 31, 59, 90, 120, 151, 181, 212, 243, 273, 304, 334] ! nat m"

text \<open>
  The UTC calendar date of an instant: \<^verbatim>\<open>date.fromordinal\<close>'s arithmetic on 400-, 100-,
  4- and 1-year cycles, with \<open>n\<close> the days since 0001-01-01.
\<close>

definition utc_ymd :: "datetime \<Rightarrow> int \<times> int \<times> int" where
  "utc_ymd t = (let
     n = t div us_per_day;
     n400 = n div 146097; r400 = n mod 146097;
     n100 = r400 div 36524; r100 = r400 mod 36524;
     n4 = r100 div 1461; r4 = r100 mod 1461;
     n1 = r4 div 365; r1 = r4 mod 365;
     y = n400 * 400 + n100 * 100 + n4 * 4 + n1 + 1
   in if n1 = 4 \<or> n100 = 4 then (y - 1, 12, 31)
      else let
        leap = (n1 = 3 \<and> (n4 \<noteq> 24 \<or> n100 = 3));
        m = (r1 + 50) div 32;
        prec = days_before_month m + (if 2 < m \<and> leap then 1 else 0)
      in if prec > r1
         then let m' = m - 1;
                  prec' = prec - (days_in_month 1 m' + (if m' = 2 \<and> leap then 1 else 0))
              in (y, m', r1 - prec' + 1)
         else (y, m, r1 - prec + 1))"

end
