(* ===== verification/Domain_Inventory.thy ===== *)
theory Domain_Inventory
  imports Py_Stdlib
begin

section \<open>The kitchen record: folding inventory events into a snapshot\<close>

text \<open>
  The model of \<^verbatim>\<open>src/kitchensense/domain/inventory.py\<close>: events, lots, and the fold
  \<open>apply_events\<close> that advances a snapshot, with its refusals as values of
  \<open>fold_error\<close>.  Function and field names are the source's, a field carrying a prefix
  for its class (\<open>ne\<close> for NewInventoryEvent, \<open>ev\<close> for InventoryEvent, \<open>lk\<close> for LotKey,
  \<open>ls\<close> for LotState, \<open>sn\<close> for InventorySnapshot).

  The lemmas show what the module promises: merging lots is commutative and
  associative, so the fold does not depend on the order of arrival, can be split into
  shards and resumed from a stored snapshot; the snapshot's lots are in one canonical
  order; and an event that could not have been known is never folded in.  \<open>spec_lot\<close> is
  the abstract specification: what a lot is, as sums and extrema over the events.
\<close>

subsection \<open>Events\<close>

datatype event_type = PURCHASED | OPENED | CONSUMED | DISCARDED | CORRECTED | MOVED

datatype date_label_type = USE_BY | BEST_BEFORE

datatype storage_location = PANTRY | FRIDGE | FREEZER | COUNTER | OTHER

fun event_type_value :: "event_type \<Rightarrow> string" where
  "event_type_value PURCHASED = ''purchased''"
| "event_type_value OPENED = ''opened''"
| "event_type_value CONSUMED = ''consumed''"
| "event_type_value DISCARDED = ''discarded''"
| "event_type_value CORRECTED = ''corrected''"
| "event_type_value MOVED = ''moved''"

fun date_label_value :: "date_label_type \<Rightarrow> string" where
  "date_label_value USE_BY = ''use_by''"
| "date_label_value BEST_BEFORE = ''best_before''"

fun storage_location_value :: "storage_location \<Rightarrow> string" where
  "storage_location_value PANTRY = ''pantry''"
| "storage_location_value FRIDGE = ''fridge''"
| "storage_location_value FREEZER = ''freezer''"
| "storage_location_value COUNTER = ''counter''"
| "storage_location_value OTHER = ''other''"

datatype fold_error = InventoryFoldError | HouseholdMismatchError | LabelLeakageError

definition normalize_unit :: "string \<Rightarrow> string" where
  "normalize_unit unit = lower (strip unit)"

record new_inventory_event =
  ne_canonical_product_id :: uuid
  ne_event_type :: event_type
  ne_quantity_delta :: quantity
  ne_unit :: string
  ne_storage_location :: storage_location
  ne_occurred_at :: datetime
  ne_source :: string
  ne_idempotency_key :: string
  ne_printed_date :: "date option"
  ne_date_label_type :: "date_label_type option"
  ne_confidence :: rat
  ne_recorded_at :: "datetime option"
  ne_metadata :: metadata

record inventory_event =
  ev_id :: uuid
  ev_household_id :: uuid
  ev_canonical_product_id :: uuid
  ev_event_type :: event_type
  ev_quantity_delta :: quantity
  ev_unit :: string
  ev_storage_location :: storage_location
  ev_printed_date :: "date option"
  ev_date_label_type :: "date_label_type option"
  ev_occurred_at :: datetime
  ev_recorded_at :: datetime
  ev_source :: string
  ev_confidence :: rat
  ev_idempotency_key :: string
  ev_metadata :: metadata

subsection \<open>Lots\<close>

datatype lot_key = LotKey
  (lk_canonical_product_id: uuid)
  (lk_storage_location: storage_location)
  (lk_unit: string)
  (lk_printed_date: "date option")
  (lk_date_label_type: "date_label_type option")

definition for_event :: "inventory_event \<Rightarrow> lot_key" where
  "for_event e =
     LotKey (ev_canonical_product_id e) (ev_storage_location e) (normalize_unit (ev_unit e))
       (ev_printed_date e) (ev_date_label_type e)"

definition lot_sort_key :: "lot_key \<Rightarrow> string \<times> string \<times> string \<times> string \<times> string" where
  "lot_sort_key k =
     (uuid_str (lk_canonical_product_id k),
      storage_location_value (lk_storage_location k),
      lk_unit k,
      (case lk_printed_date k of Some d \<Rightarrow> isoformat d | None \<Rightarrow> ''''),
      (case lk_date_label_type k of Some l \<Rightarrow> date_label_value l | None \<Rightarrow> ''''))"

record lot_state =
  ls_key :: lot_key
  ls_quantity :: quantity
  ls_purchased_quantity :: quantity
  ls_consumed_quantity :: quantity
  ls_discarded_quantity :: quantity
  ls_event_count :: int
  ls_first_occurred_at :: datetime
  ls_last_occurred_at :: datetime
  ls_last_recorded_at :: datetime
  ls_opened_at :: "datetime option"

definition is_depleted :: "lot_state \<Rightarrow> bool" where
  "is_depleted l = (ls_quantity l \<le> 0)"

definition is_opened :: "lot_state \<Rightarrow> bool" where
  "is_opened l = (ls_opened_at l \<noteq> None)"

definition lot_from_event :: "inventory_event \<Rightarrow> lot_state" where
  "lot_from_event e = (let delta = ev_quantity_delta e in
     \<lparr>ls_key = for_event e,
      ls_quantity = delta,
      ls_purchased_quantity = (if ev_event_type e = PURCHASED then delta else 0),
      ls_consumed_quantity = (if ev_event_type e = CONSUMED then - delta else 0),
      ls_discarded_quantity = (if ev_event_type e = DISCARDED then - delta else 0),
      ls_event_count = 1,
      ls_first_occurred_at = ev_occurred_at e,
      ls_last_occurred_at = ev_occurred_at e,
      ls_last_recorded_at = ev_recorded_at e,
      ls_opened_at = (if ev_event_type e = OPENED then Some (ev_occurred_at e) else None)\<rparr>)"

fun earliest :: "datetime option \<Rightarrow> datetime option \<Rightarrow> datetime option" where
  "earliest None right = right"
| "earliest left None = left"
| "earliest (Some l) (Some r) = Some (min l r)"

definition combine_lots :: "lot_state \<Rightarrow> lot_state \<Rightarrow> fold_error + lot_state" where
  "combine_lots left right =
     (if ls_key left \<noteq> ls_key right then Inl InventoryFoldError
      else Inr
        \<lparr>ls_key = ls_key left,
         ls_quantity = ls_quantity left + ls_quantity right,
         ls_purchased_quantity = ls_purchased_quantity left + ls_purchased_quantity right,
         ls_consumed_quantity = ls_consumed_quantity left + ls_consumed_quantity right,
         ls_discarded_quantity = ls_discarded_quantity left + ls_discarded_quantity right,
         ls_event_count = ls_event_count left + ls_event_count right,
         ls_first_occurred_at = min (ls_first_occurred_at left) (ls_first_occurred_at right),
         ls_last_occurred_at = max (ls_last_occurred_at left) (ls_last_occurred_at right),
         ls_last_recorded_at = max (ls_last_recorded_at left) (ls_last_recorded_at right),
         ls_opened_at = earliest (ls_opened_at left) (ls_opened_at right)\<rparr>)"

subsection \<open>Snapshots\<close>

record inventory_snapshot =
  sn_household_id :: uuid
  sn_as_of :: datetime
  sn_lots :: "lot_state list"

type_synonym lots = "(lot_key \<times> lot_state) list"

fun find_lot :: "lot_key \<Rightarrow> lot_state list \<Rightarrow> lot_state option" where
  "find_lot key [] = None"
| "find_lot key (l # ls) = (if ls_key l = key then Some l else find_lot key ls)"

definition lot :: "inventory_snapshot \<Rightarrow> lot_key \<Rightarrow> lot_state option" where
  "lot s key = find_lot key (sn_lots s)"

definition quantity_of :: "inventory_snapshot \<Rightarrow> uuid \<Rightarrow> quantity" where
  "quantity_of s product =
     foldl (+) 0 (map ls_quantity (filter (\<lambda>l. lk_canonical_product_id (ls_key l) = product) (sn_lots s)))"

definition in_stock :: "inventory_snapshot \<Rightarrow> lot_state list" where
  "in_stock s = filter (\<lambda>l. \<not> is_depleted l) (sn_lots s)"

text \<open>The sort key \<^verbatim>\<open>lambda lot: lot.key.sort_key()\<close>.\<close>

definition lot_order :: "lot_state \<Rightarrow> string \<times> string \<times> string \<times> string \<times> string" where
  "lot_order l = lot_sort_key (ls_key l)"

definition freeze :: "uuid \<Rightarrow> datetime \<Rightarrow> lots \<Rightarrow> inventory_snapshot" where
  "freeze household_id as_of lots =
     \<lparr>sn_household_id = household_id, sn_as_of = as_of,
      sn_lots = sort_key lot_order (map snd lots)\<rparr>"

definition empty_snapshot :: "uuid \<Rightarrow> datetime \<Rightarrow> inventory_snapshot" where
  "empty_snapshot household_id as_of =
     \<lparr>sn_household_id = household_id, sn_as_of = as_of, sn_lots = []\<rparr>"

fun apply_loop :: "uuid \<Rightarrow> datetime \<Rightarrow> lots \<Rightarrow> inventory_event list \<Rightarrow> fold_error + lots" where
  "apply_loop household_id as_of lots [] = Inr lots"
| "apply_loop household_id as_of lots (event # events) =
     (if ev_household_id event \<noteq> household_id then Inl HouseholdMismatchError
      else if ev_occurred_at event > as_of \<or> ev_recorded_at event > as_of then Inl LabelLeakageError
      else case merge_into ls_key combine_lots lots (lot_from_event event) of
             Inl err \<Rightarrow> Inl err
           | Inr lots' \<Rightarrow> apply_loop household_id as_of lots' events)"

definition apply_events ::
  "inventory_snapshot \<Rightarrow> inventory_event list \<Rightarrow> datetime \<Rightarrow> fold_error + inventory_snapshot" where
  "apply_events snapshot events as_of =
     (if as_of < sn_as_of snapshot then Inl LabelLeakageError
      else case apply_loop (sn_household_id snapshot) as_of (dict_of ls_key (sn_lots snapshot)) events of
             Inl err \<Rightarrow> Inl err
           | Inr lots \<Rightarrow> Inr (freeze (sn_household_id snapshot) as_of lots))"

definition fold_events ::
  "inventory_event list \<Rightarrow> uuid \<Rightarrow> datetime \<Rightarrow> fold_error + inventory_snapshot" where
  "fold_events events household_id as_of =
     apply_events (empty_snapshot household_id as_of) events as_of"

definition combine_snapshots ::
  "inventory_snapshot \<Rightarrow> inventory_snapshot \<Rightarrow> fold_error + inventory_snapshot" where
  "combine_snapshots left right =
     (if sn_household_id left \<noteq> sn_household_id right then Inl HouseholdMismatchError
      else case merge_all ls_key combine_lots (dict_of ls_key (sn_lots left)) (sn_lots right) of
             Inl err \<Rightarrow> Inl err
           | Inr lots \<Rightarrow> Inr (freeze (sn_household_id left) (max (sn_as_of left) (sn_as_of right)) lots))"

subsection \<open>Units and the order of lots\<close>

lemma normalize_unit_idem [simp]: "normalize_unit (normalize_unit u) = normalize_unit u"
  by (simp add: normalize_unit_def strip_lower) (simp add: lower_def)

lemma storage_location_value_inject [simp]:
  "storage_location_value a = storage_location_value b \<longleftrightarrow> a = b"
  by (cases a; cases b) simp_all

lemma date_label_value_inject [simp]: "date_label_value a = date_label_value b \<longleftrightarrow> a = b"
  by (cases a; cases b) simp_all

lemma date_label_value_neq_Nil [simp]: "date_label_value a \<noteq> []" "[] \<noteq> date_label_value a"
  by (cases a; simp)+

lemma lot_sort_key_inject [simp]: "lot_sort_key a = lot_sort_key b \<longleftrightarrow> a = b"
  by (cases a; cases b) (auto simp: lot_sort_key_def split: option.splits)

lemma inj_lot_sort_key: "inj lot_sort_key"
  by (rule injI) simp

text \<open>\<open>sort_key\<close> is, as its docstring says, a total order over lots.\<close>

instantiation lot_key :: linorder
begin

definition less_eq_lot_key :: "lot_key \<Rightarrow> lot_key \<Rightarrow> bool" where
  "a \<le> b \<longleftrightarrow> lot_sort_key a \<le> lot_sort_key b"

definition less_lot_key :: "lot_key \<Rightarrow> lot_key \<Rightarrow> bool" where
  "a < b \<longleftrightarrow> lot_sort_key a < lot_sort_key b"

instance
  by standard (auto simp: less_eq_lot_key_def less_lot_key_def less_le simp flip: lot_sort_key_inject)

end

subsection \<open>Lots merge as a commutative semigroup\<close>

definition join_lots :: "lot_state \<Rightarrow> lot_state \<Rightarrow> lot_state" where
  "join_lots a b =
     \<lparr>ls_key = ls_key a,
      ls_quantity = ls_quantity a + ls_quantity b,
      ls_purchased_quantity = ls_purchased_quantity a + ls_purchased_quantity b,
      ls_consumed_quantity = ls_consumed_quantity a + ls_consumed_quantity b,
      ls_discarded_quantity = ls_discarded_quantity a + ls_discarded_quantity b,
      ls_event_count = ls_event_count a + ls_event_count b,
      ls_first_occurred_at = min (ls_first_occurred_at a) (ls_first_occurred_at b),
      ls_last_occurred_at = max (ls_last_occurred_at a) (ls_last_occurred_at b),
      ls_last_recorded_at = max (ls_last_recorded_at a) (ls_last_recorded_at b),
      ls_opened_at = earliest (ls_opened_at a) (ls_opened_at b)\<rparr>"

lemma join_lots_sel [simp]:
  "ls_key (join_lots a b) = ls_key a"
  "ls_quantity (join_lots a b) = ls_quantity a + ls_quantity b"
  "ls_purchased_quantity (join_lots a b) = ls_purchased_quantity a + ls_purchased_quantity b"
  "ls_consumed_quantity (join_lots a b) = ls_consumed_quantity a + ls_consumed_quantity b"
  "ls_discarded_quantity (join_lots a b) = ls_discarded_quantity a + ls_discarded_quantity b"
  "ls_event_count (join_lots a b) = ls_event_count a + ls_event_count b"
  "ls_first_occurred_at (join_lots a b) = min (ls_first_occurred_at a) (ls_first_occurred_at b)"
  "ls_last_occurred_at (join_lots a b) = max (ls_last_occurred_at a) (ls_last_occurred_at b)"
  "ls_last_recorded_at (join_lots a b) = max (ls_last_recorded_at a) (ls_last_recorded_at b)"
  "ls_opened_at (join_lots a b) = earliest (ls_opened_at a) (ls_opened_at b)"
  by (simp_all add: join_lots_def)

lemma earliest_None_right [simp]: "earliest a None = a"
  by (cases a) simp_all

lemma earliest_comm: "earliest a b = earliest b a"
  by (cases a; cases b) (simp_all add: min.commute)

lemma earliest_assoc: "earliest (earliest a b) c = earliest a (earliest b c)"
  by (cases a; cases b; cases c) (simp_all add: min.assoc)

interpretation lots: keyed_merge ls_key combine_lots join_lots
proof unfold_locales
  fix a b c :: lot_state
  assume "ls_key a = ls_key b"
  then show "combine_lots a b = Inr (join_lots a b)"
    by (simp add: combine_lots_def join_lots_def)
  show "ls_key (join_lots a b) = ls_key a"
    by simp
  show "join_lots a b = join_lots b a" if "ls_key a = ls_key b"
    using that by (simp add: join_lots_def add.commute min.commute max.commute earliest_comm)
  show "join_lots (join_lots a b) c = join_lots a (join_lots b c)"
    by (simp add: join_lots_def add.assoc min.assoc max.assoc earliest_assoc)
qed

subsection \<open>A snapshot is determined by its lots\<close>

definition canonical :: "inventory_snapshot \<Rightarrow> bool" where
  "canonical s \<longleftrightarrow> distinct (map ls_key (sn_lots s)) \<and> sorted (map ls_key (sn_lots s))"

lemma find_lot_map_of: "find_lot k ls = map_of (map (\<lambda>l. (ls_key l, l)) ls) k"
  by (induction ls) auto

lemma lot_map_of: "lot s = map_of (map (\<lambda>l. (ls_key l, l)) (sn_lots s))"
  by (rule ext) (simp add: lot_def find_lot_map_of)

lemma lot_key_eq: "lot s k = Some l \<Longrightarrow> ls_key l = k"
  by (auto simp: lot_map_of dest: map_of_SomeD)

lemma sorted_map_lot_order: "sorted (map lot_order ls) \<longleftrightarrow> sorted (map ls_key ls)"
  by (simp add: sorted_map less_eq_lot_key_def lot_order_def)

lemma freeze_canonical:
  assumes "dict_ok ls_key d"
  shows "canonical (freeze h t d)" and "lot (freeze h t d) = map_of d"
proof -
  let ?ls = "sn_lots (freeze h t d)"
  have perm: "mset ?ls = mset (map snd d)"
    by (simp add: freeze_def)
  have keys: "map ls_key (map snd d) = map fst d"
    using assms by (rule dict_keys_of_values)
  have "mset (map ls_key ?ls) = mset (map fst d)"
    using perm keys by (metis mset_map)
  then have dist: "distinct (map ls_key ?ls)"
    using assms mset_eq_imp_distinct_iff[of "map ls_key ?ls" "map fst d"] by (simp add: dict_ok_def)
  moreover have "sorted (map ls_key ?ls)"
    by (simp add: freeze_def flip: sorted_map_lot_order)
  ultimately show "canonical (freeze h t d)"
    by (simp add: canonical_def)
  have pairs: "map (\<lambda>l. (ls_key l, l)) (map snd d) = d"
    using assms by (induction d) (auto simp: dict_ok_def)
  have "set (map (\<lambda>l. (ls_key l, l)) ?ls) = set d"
    using perm pairs by (metis mset_eq_setD mset_map)
  moreover have "distinct (map fst (map (\<lambda>l. (ls_key l, l)) ?ls))"
    using dist by (simp add: comp_def)
  moreover have "distinct (map fst d)"
    using assms by (simp add: dict_ok_def)
  ultimately show "lot (freeze h t d) = map_of d"
    unfolding lot_map_of by (metis map_of_inject_set)
qed

lemma snapshot_eqI:
  assumes "canonical s" and "canonical s'" and "sn_household_id s = sn_household_id s'"
    and "sn_as_of s = sn_as_of s'" and "lot s = lot s'"
  shows "s = s'"
proof -
  let ?ps = "\<lambda>s. map (\<lambda>l. (ls_key l, l)) (sn_lots s)"
  have "mset (?ps s) = mset (?ps s')"
    by (rule map_of_mset_cong) (use assms in \<open>simp_all add: canonical_def comp_def lot_map_of\<close>)
  then have "image_mset snd (mset (?ps s)) = image_mset snd (mset (?ps s'))"
    by (rule arg_cong)
  then have "mset (sn_lots s) = mset (sn_lots s')"
    by (simp add: multiset.map_comp comp_def)
  moreover have "inj_on ls_key (set (sn_lots s'))"
    using assms(2) by (simp add: canonical_def distinct_map)
  ultimately have "sort_key ls_key (sn_lots s) = sort_key ls_key (sn_lots s')"
    by (rule sort_key_mset_cong)
  then have "sn_lots s = sn_lots s'"
    using assms(1,2) by (simp add: canonical_def sort_key_sorted_id)
  then show ?thesis
    using assms(3,4) by simp
qed

lemma canonical_empty [simp]: "canonical (empty_snapshot h t)"
  by (simp add: canonical_def empty_snapshot_def)

lemma lot_empty [simp]: "lot (empty_snapshot h t) = Map.empty"
  by (simp add: lot_map_of empty_snapshot_def)

lemma empty_snapshot_sel [simp]:
  "sn_household_id (empty_snapshot h t) = h" "sn_as_of (empty_snapshot h t) = t"
  "sn_lots (empty_snapshot h t) = []"
  by (simp_all add: empty_snapshot_def)

lemma freeze_sel [simp]: "sn_household_id (freeze h t d) = h" "sn_as_of (freeze h t d) = t"
  by (simp_all add: freeze_def)

lemma dict_of_snapshot:
  assumes "canonical s"
  shows "map_of (dict_of ls_key (sn_lots s)) = lot s"
  using assms by (simp add: canonical_def dict_of_distinct lot_map_of)

subsection \<open>What the fold accepts and refuses\<close>

definition known_to :: "uuid \<Rightarrow> datetime \<Rightarrow> inventory_event \<Rightarrow> bool" where
  "known_to h t e \<longleftrightarrow> ev_household_id e = h \<and> ev_occurred_at e \<le> t \<and> ev_recorded_at e \<le> t"

definition refusal :: "uuid \<Rightarrow> inventory_event \<Rightarrow> fold_error" where
  "refusal h e = (if ev_household_id e \<noteq> h then HouseholdMismatchError else LabelLeakageError)"

lemma known_to_mono: "known_to h t e \<Longrightarrow> t \<le> t' \<Longrightarrow> known_to h t' e"
  by (auto simp: known_to_def)

lemma find_None_known: "find (\<lambda>e. \<not> P e) es = None \<longleftrightarrow> list_all P es"
  by (auto simp: find_None_iff list_all_iff)

lemma apply_loop_known:
  "list_all (known_to h t) es \<Longrightarrow>
     apply_loop h t d es = merge_all ls_key combine_lots d (map lot_from_event es)"
  by (induction es arbitrary: d) (auto simp: known_to_def split: sum.split)

lemma apply_loop_refused:
  assumes "dict_ok ls_key d" and "find (\<lambda>e. \<not> known_to h t e) es = Some e"
  shows "apply_loop h t d es = Inl (refusal h e)"
  using assms
proof (induction es arbitrary: d)
  case Nil
  then show ?case by simp
next
  case (Cons e' es)
  obtain d' where d': "merge_into ls_key combine_lots d (lot_from_event e') = Inr d'" "dict_ok ls_key d'"
    using lots.merge_into_ok[OF Cons.prems(1)] by blast
  show ?case
  proof (cases "known_to h t e'")
    case True
    then have "apply_loop h t d' es = Inl (refusal h e)"
      using Cons.IH[OF d'(2)] Cons.prems(2) by simp
    then show ?thesis
      using True d'(1) by (auto simp: known_to_def)
  next
    case False
    then show ?thesis
      using Cons.prems(2) by (auto simp: known_to_def refusal_def)
  qed
qed

lemma apply_events_known:
  assumes "sn_as_of s \<le> t" and "list_all (known_to (sn_household_id s) t) es"
  shows "\<exists>d. apply_events s es t = Inr (freeze (sn_household_id s) t d) \<and> dict_ok ls_key d \<and>
    map_of d = lots.absorb (map_of (dict_of ls_key (sn_lots s))) (map lot_from_event es)"
proof -
  obtain d where "merge_all ls_key combine_lots (dict_of ls_key (sn_lots s)) (map lot_from_event es) = Inr d"
      "dict_ok ls_key d"
      "map_of d = lots.absorb (map_of (dict_of ls_key (sn_lots s))) (map lot_from_event es)"
    using lots.merge_all_ok[OF dict_ok_dict_of] by blast
  then show ?thesis
    using assms by (intro exI[of _ d]) (simp add: apply_events_def apply_loop_known)
qed

lemma apply_events_refused:
  assumes "sn_as_of s \<le> t" and "find (\<lambda>e. \<not> known_to (sn_household_id s) t e) es = Some e"
  shows "apply_events s es t = Inl (refusal (sn_household_id s) e)"
  using assms by (simp add: apply_events_def apply_loop_refused[OF dict_ok_dict_of])

lemma apply_events_backwards: "t < sn_as_of s \<Longrightarrow> apply_events s es t = Inl LabelLeakageError"
  by (simp add: apply_events_def)

lemma apply_events_Inr_iff:
  "(\<exists>s'. apply_events s es t = Inr s') \<longleftrightarrow>
     sn_as_of s \<le> t \<and> list_all (known_to (sn_household_id s) t) es"
proof (cases "sn_as_of s \<le> t")
  case True
  show ?thesis
  proof (cases "find (\<lambda>e. \<not> known_to (sn_household_id s) t e) es")
    case None
    then show ?thesis
      using True apply_events_known[of s t es] by (auto simp: find_None_known)
  next
    case (Some e)
    then have "\<not> list_all (known_to (sn_household_id s) t) es"
      by (metis find_None_known option.distinct(1))
    then show ?thesis
      using apply_events_refused[OF True Some] by simp
  qed
next
  case False
  then show ?thesis
    by (simp add: apply_events_backwards)
qed

lemma apply_events_lots:
  assumes "canonical s" and "apply_events s es t = Inr s'"
  shows "canonical s'" "sn_household_id s' = sn_household_id s" "sn_as_of s' = t"
    "lot s' = lots.absorb (lot s) (map lot_from_event es)"
proof -
  have "sn_as_of s \<le> t" and "list_all (known_to (sn_household_id s) t) es"
    using assms(2) apply_events_Inr_iff[of s es t] by auto
  then obtain d where d: "apply_events s es t = Inr (freeze (sn_household_id s) t d)" "dict_ok ls_key d"
      "map_of d = lots.absorb (lot s) (map lot_from_event es)"
    using apply_events_known dict_of_snapshot[OF assms(1)] by metis
  then have s': "s' = freeze (sn_household_id s) t d"
    using assms(2) by simp
  show "canonical s'" "sn_household_id s' = sn_household_id s" "sn_as_of s' = t"
    "lot s' = lots.absorb (lot s) (map lot_from_event es)"
    using freeze_canonical[OF d(2)] d(3) by (simp_all add: s')
qed

lemma fold_events_lots:
  assumes "fold_events es h t = Inr s"
  shows "canonical s" "sn_household_id s = h" "sn_as_of s = t"
    "lot s = lots.absorb Map.empty (map lot_from_event es)"
  using apply_events_lots[of "empty_snapshot h t" es t s] assms by (simp_all add: fold_events_def)

lemma fold_events_Inr_iff: "(\<exists>s. fold_events es h t = Inr s) \<longleftrightarrow> list_all (known_to h t) es"
  using apply_events_Inr_iff[of "empty_snapshot h t" es t] by (simp add: fold_events_def)

lemma fold_events_known: "fold_events es h t = Inr s \<Longrightarrow> list_all (known_to h t) es"
  using fold_events_Inr_iff by blast

text \<open>Any canonical snapshot with the right lots is the fold.\<close>

lemma fold_events_eqI:
  assumes "list_all (known_to h t) es" and "canonical s" and "sn_household_id s = h" and "sn_as_of s = t"
    and "lot s = lots.absorb Map.empty (map lot_from_event es)"
  shows "fold_events es h t = Inr s"
proof -
  obtain s' where s': "fold_events es h t = Inr s'"
    using assms(1) fold_events_Inr_iff by blast
  then have "s' = s"
    using fold_events_lots[OF s'] assms by (intro snapshot_eqI) simp_all
  with s' show ?thesis by simp
qed

subsection \<open>Order independence, resumption and sharding\<close>

lemma fold_events_perm:
  assumes "mset es = mset es'" and "fold_events es h t = Inr s"
  shows "fold_events es' h t = Inr s"
proof (rule fold_events_eqI)
  have "set es = set es'"
    using assms(1) by (rule mset_eq_setD)
  then show "list_all (known_to h t) es'"
    using fold_events_known[OF assms(2)] by (simp add: list_all_iff)
  have "mset (map lot_from_event es) = mset (map lot_from_event es')"
    using assms(1) by simp
  then show "lot s = lots.absorb Map.empty (map lot_from_event es')"
    using lots.absorb_perm[of _ _ Map.empty] fold_events_lots(4)[OF assms(2)] by simp
qed (use fold_events_lots[OF assms(2)] in simp_all)

lemma apply_events_resume:
  assumes "fold_events es h t = Inr s" and "t \<le> t'"
  shows "apply_events s es' t' = fold_events (es @ es') h t'"
proof (cases "find (\<lambda>e. \<not> known_to h t' e) es'")
  case None
  then have known: "list_all (known_to h t') es'"
    by (simp add: find_None_known)
  obtain s' where s': "apply_events s es' t' = Inr s'"
    using apply_events_Inr_iff[of s es' t'] known assms(2) fold_events_lots[OF assms(1)] by auto
  have "list_all (known_to h t') es"
    using fold_events_known[OF assms(1)] assms(2) by (auto simp: list_all_iff intro: known_to_mono)
  then have "fold_events (es @ es') h t' = Inr s'"
    using known apply_events_lots[OF fold_events_lots(1)[OF assms(1)] s'] fold_events_lots[OF assms(1)]
    by (intro fold_events_eqI) (simp_all add: lots.absorb_append)
  with s' show ?thesis by simp
next
  case (Some e)
  have "list_all (known_to h t') es"
    using fold_events_known[OF assms(1)] assms(2) by (auto simp: list_all_iff intro: known_to_mono)
  then have "find (\<lambda>e. \<not> known_to h t' e) (es @ es') = Some e"
    using Some by (induction es) auto
  then have "fold_events (es @ es') h t' = Inl (refusal h e)"
    using apply_events_refused[of "empty_snapshot h t'" t'] by (simp add: fold_events_def)
  moreover have "apply_events s es' t' = Inl (refusal h e)"
    using apply_events_refused[of s t' es' e] Some fold_events_lots[OF assms(1)] assms(2) by simp
  ultimately show ?thesis by simp
qed

lemma combine_snapshots_lots:
  assumes "canonical a" and "sn_household_id a = sn_household_id b"
  shows "\<exists>s. combine_snapshots a b = Inr s \<and> canonical s \<and> sn_household_id s = sn_household_id a \<and>
    sn_as_of s = max (sn_as_of a) (sn_as_of b) \<and> lot s = lots.absorb (lot a) (sn_lots b)"
proof -
  obtain d where d: "merge_all ls_key combine_lots (dict_of ls_key (sn_lots a)) (sn_lots b) = Inr d"
      "dict_ok ls_key d" "map_of d = lots.absorb (map_of (dict_of ls_key (sn_lots a))) (sn_lots b)"
    using lots.merge_all_ok[OF dict_ok_dict_of] by blast
  then show ?thesis
    using assms freeze_canonical[OF d(2)] by (simp add: combine_snapshots_def dict_of_snapshot)
qed

lemma dict_ok_snapshot: "canonical s \<Longrightarrow> dict_ok ls_key (map (\<lambda>l. (ls_key l, l)) (sn_lots s))"
  by (auto simp: canonical_def dict_ok_def comp_def)

lemma combine_snapshots_shards:
  assumes "fold_events es h t = Inr a" and "fold_events es' h t' = Inr b"
  shows "combine_snapshots a b = fold_events (es @ es') h (max t t')"
proof -
  note A = fold_events_lots[OF assms(1)] and B = fold_events_lots[OF assms(2)]
  obtain s where s: "combine_snapshots a b = Inr s" "canonical s" "sn_household_id s = h"
      "sn_as_of s = max t t'" "lot s = lots.absorb (lot a) (sn_lots b)"
    using combine_snapshots_lots[of a b] A B by auto
  have "lots.absorb (lot a) (map snd (map (\<lambda>l. (ls_key l, l)) (sn_lots b)))
      = lots.absorb (lot a) (map lot_from_event es')"
    using B(4) by (intro lots.absorb_values[OF dict_ok_snapshot[OF B(1)]])
      (simp_all add: lot_map_of[symmetric] lot_key_eq)
  then have "lot s = lots.absorb Map.empty (map lot_from_event (es @ es'))"
    using s(5) A(4) by (simp add: comp_def lots.absorb_append)
  moreover have "list_all (known_to h (max t t')) (es @ es')"
    using fold_events_known[OF assms(1)] fold_events_known[OF assms(2)]
    by (auto simp: list_all_iff intro: known_to_mono)
  ultimately show ?thesis
    using s by (metis fold_events_eqI)
qed

subsection \<open>The abstract specification of a lot\<close>

text \<open>
  A lot, as a reader of the decision record would state it: sums over the events of that
  lot, the earliest and latest instants among them, and when it was first opened.
\<close>

definition delta_of :: "event_type \<Rightarrow> inventory_event list \<Rightarrow> quantity" where
  "delta_of ty es = sum_list (map ev_quantity_delta (filter (\<lambda>e. ev_event_type e = ty) es))"

definition first_opened :: "inventory_event list \<Rightarrow> datetime option" where
  "first_opened es = (let os = filter (\<lambda>e. ev_event_type e = OPENED) es in
     if os = [] then None else Some (Min (ev_occurred_at ` set os)))"

definition lot_of_events :: "lot_key \<Rightarrow> inventory_event list \<Rightarrow> lot_state" where
  "lot_of_events k es =
     \<lparr>ls_key = k,
      ls_quantity = sum_list (map ev_quantity_delta es),
      ls_purchased_quantity = delta_of PURCHASED es,
      ls_consumed_quantity = - delta_of CONSUMED es,
      ls_discarded_quantity = - delta_of DISCARDED es,
      ls_event_count = int (length es),
      ls_first_occurred_at = Min (ev_occurred_at ` set es),
      ls_last_occurred_at = Max (ev_occurred_at ` set es),
      ls_last_recorded_at = Max (ev_recorded_at ` set es),
      ls_opened_at = first_opened es\<rparr>"

definition spec_lot :: "inventory_event list \<Rightarrow> lot_key \<Rightarrow> lot_state option" where
  "spec_lot es k = (let own = filter (\<lambda>e. for_event e = k) es in
     if own = [] then None else Some (lot_of_events k own))"

lemma first_opened_snoc:
  "first_opened (es @ [e]) =
     earliest (first_opened es) (if ev_event_type e = OPENED then Some (ev_occurred_at e) else None)"
  by (cases "filter (\<lambda>e. ev_event_type e = OPENED) es = []")
    (simp_all add: first_opened_def Let_def Min_insert2 min.commute flip: set_filter)

lemma lot_of_events_snoc:
  assumes "es \<noteq> []"
  shows "lot_of_events k (es @ [e]) = join_lots (lot_of_events k es) (lot_from_event e)"
proof -
  have ne: "ev_occurred_at ` set es \<noteq> {}" "ev_recorded_at ` set es \<noteq> {}"
    using assms by simp_all
  show ?thesis
    by (simp add: lot_of_events_def join_lots_def lot_from_event_def Let_def delta_of_def
        first_opened_snoc Min_insert[OF _ ne(1)] Max_insert[OF _ ne(1)] Max_insert[OF _ ne(2)]
        min.commute max.commute)
qed

lemma lot_of_events_single: "lot_of_events (for_event e) [e] = lot_from_event e"
  by (simp add: lot_of_events_def lot_from_event_def Let_def delta_of_def first_opened_def)

lemma foldl_join_lot_of_events:
  assumes "for_event e = k"
  shows "foldl join_lots (lot_from_event e) (map lot_from_event es) = lot_of_events k (e # es)"
  using assms
proof (induction es rule: rev_induct)
  case Nil
  then show ?case using lot_of_events_single[of e] by simp
next
  case (snoc x xs)
  then show ?case using lot_of_events_snoc[of "e # xs" k x] by simp
qed

lemma ls_key_lot_from_event [simp]: "ls_key (lot_from_event e) = for_event e"
  by (simp add: lot_from_event_def Let_def)

lemma absorb_spec: "lots.absorb Map.empty (map lot_from_event es) = spec_lot es"
proof
  fix k
  have "filter (\<lambda>l. ls_key l = k) (map lot_from_event es)
      = map lot_from_event (filter (\<lambda>e. for_event e = k) es)"
    by (simp add: filter_map comp_def)
  moreover have "lots.pour None (map lot_from_event own) = (if own = [] then None else Some (lot_of_events k own))"
    if "\<forall>e \<in> set own. for_event e = k" for own
    using that foldl_join_lot_of_events by (cases own) auto
  ultimately show "lots.absorb Map.empty (map lot_from_event es) k = spec_lot es k"
    unfolding lots.absorb_def spec_lot_def by (simp add: Let_def)
qed

lemma fold_events_spec: "fold_events es h t = Inr s \<Longrightarrow> lot s = spec_lot es"
  using fold_events_lots(4) absorb_spec by metis

subsection \<open>Totals over the lots of a snapshot\<close>

text \<open>
  Every event is in exactly one lot, so a total over the lots that each event adds to is
  a total over the events.
\<close>

lemma lot_keys_spec:
  assumes "lot s = spec_lot es"
  shows "set (map ls_key (sn_lots s)) = for_event ` set es"
proof -
  have "set (map ls_key (sn_lots s)) = dom (lot s)"
    by (simp add: lot_map_of dom_map_of_conv_image_fst image_image)
  also have "\<dots> = for_event ` set es"
    by (auto simp: assms spec_lot_def Let_def filter_empty_conv dom_def)
  finally show ?thesis .
qed

lemma lot_in_snapshot:
  assumes "canonical s"
  shows "l \<in> set (sn_lots s) \<longleftrightarrow> lot s (ls_key l) = Some l"
  using assms by (auto simp: lot_map_of canonical_def comp_def intro!: map_of_is_SomeI dest: map_of_SomeD)

lemma lots_of_spec:
  assumes "canonical s" and "lot s = spec_lot es" and "l \<in> set (sn_lots s)"
  shows "\<exists>own. own \<noteq> [] \<and> own = filter (\<lambda>e. for_event e = ls_key l) es \<and> l = lot_of_events (ls_key l) own"
  using assms lot_in_snapshot[OF assms(1)] by (auto simp: spec_lot_def Let_def split: if_splits)

lemma sum_lots_spec:
  fixes f :: "lot_state \<Rightarrow> int"
  assumes "canonical s" and "lot s = spec_lot es"
    and f: "\<And>k own. own \<noteq> [] \<Longrightarrow> f (lot_of_events k own) = sum_list (map g own)"
  shows "sum_list (map f (filter (\<lambda>l. P (ls_key l)) (sn_lots s)))
    = sum_list (map g (filter (\<lambda>e. P (for_event e)) es))"
proof -
  let ?own = "\<lambda>k. filter (\<lambda>e. for_event e = k) es"
  let ?ls = "filter (\<lambda>l. P (ls_key l)) (sn_lots s)"
  let ?K = "set (map ls_key (sn_lots s))"
  have dist: "distinct (sn_lots s)" "inj_on ls_key (set (sn_lots s))"
    using assms(1) by (simp_all add: canonical_def distinct_map)
  have val: "f l = sum_list (map g (?own (ls_key l)))" if "l \<in> set (sn_lots s)" for l
    using lots_of_spec[OF assms(1,2) that] f by metis
  have "sum_list (map f ?ls) = sum f (set ?ls)"
    using dist by (simp add: sum_list_distinct_conv_sum_set)
  also have "\<dots> = (\<Sum>l \<in> set ?ls. sum_list (map g (?own (ls_key l))))"
    by (intro sum.cong) (simp_all add: val)
  also have "\<dots> = (\<Sum>k \<in> {k \<in> ?K. P k}. sum_list (map g (?own k)))"
    using dist by (intro sum.reindex_cong[symmetric, of ls_key]) (auto simp: inj_on_def)
  also have "\<dots> = sum_list (map g (filter (\<lambda>e. P (for_event e)) es))"
    using lot_keys_spec[OF assms(2)] by (intro sum_by_group) simp_all
  finally show ?thesis .
qed

subsection \<open>The snapshot invariant\<close>

definition lot_inv :: "datetime \<Rightarrow> lot_state \<Rightarrow> bool" where
  "lot_inv t l \<longleftrightarrow>
     1 \<le> ls_event_count l \<and>
     ls_first_occurred_at l \<le> ls_last_occurred_at l \<and>
     ls_last_occurred_at l \<le> t \<and> ls_last_recorded_at l \<le> t \<and>
     (case ls_opened_at l of None \<Rightarrow> True
      | Some o' \<Rightarrow> ls_first_occurred_at l \<le> o' \<and> o' \<le> ls_last_occurred_at l) \<and>
     normalize_unit (lk_unit (ls_key l)) = lk_unit (ls_key l)"

definition snapshot_inv :: "inventory_snapshot \<Rightarrow> bool" where
  "snapshot_inv s \<longleftrightarrow> canonical s \<and> list_all (lot_inv (sn_as_of s)) (sn_lots s)"

lemma lot_inv_mono: "lot_inv t l \<Longrightarrow> t \<le> t' \<Longrightarrow> lot_inv t' l"
  by (auto simp: lot_inv_def)

lemma lot_inv_join: "lot_inv t a \<Longrightarrow> lot_inv t b \<Longrightarrow> lot_inv t (join_lots a b)"
  by (cases "ls_opened_at a"; cases "ls_opened_at b") (auto simp: lot_inv_def)

lemma lot_inv_event: "known_to h t e \<Longrightarrow> lot_inv t (lot_from_event e)"
  by (auto simp: lot_inv_def known_to_def lot_from_event_def Let_def for_event_def)

lemma snapshot_inv_absorb:
  assumes "snapshot_inv s" and "canonical s'" and "lot s' = lots.absorb (lot s) xs"
    and "sn_as_of s \<le> sn_as_of s'" and "\<forall>x \<in> set xs. lot_inv (sn_as_of s') x"
  shows "snapshot_inv s'"
proof -
  have "lot_inv (sn_as_of s') l" if "l \<in> set (sn_lots s')" for l
  proof (rule lots.absorb_pres[of "lot_inv (sn_as_of s')" "lot s" xs "ls_key l" l])
    show "lots.absorb (lot s) xs (ls_key l) = Some l"
      using that lot_in_snapshot[OF assms(2)] assms(3) by simp
    fix k a
    assume "lot s k = Some a"
    then have "ls_key a = k" "a \<in> set (sn_lots s)"
      using assms(1) lot_key_eq[of s k a] lot_in_snapshot[of s a] by (auto simp: snapshot_inv_def)
    then show "ls_key a = k \<and> lot_inv (sn_as_of s') a"
      using assms(1,4) by (auto simp: snapshot_inv_def list_all_iff intro: lot_inv_mono)
  qed (use assms(5) lot_inv_join in auto)
  then show ?thesis
    using assms(2) by (simp add: snapshot_inv_def list_all_iff)
qed

lemma apply_events_inv:
  assumes "snapshot_inv s" and "apply_events s es t = Inr s'"
  shows "snapshot_inv s'"
proof -
  have known: "sn_as_of s \<le> t" "list_all (known_to (sn_household_id s) t) es"
    using assms(2) apply_events_Inr_iff[of s es t] by auto
  have lots: "\<forall>x \<in> set (map lot_from_event es). lot_inv t x"
    using known(2) lot_inv_event by (auto simp: list_all_iff)
  have "canonical s"
    using assms(1) by (simp add: snapshot_inv_def)
  note S' = apply_events_lots[OF this assms(2)]
  show ?thesis
    using known(1) lots by (intro snapshot_inv_absorb[OF assms(1) S'(1,4)]) (simp_all add: S'(3))
qed

lemma combine_snapshots_inv:
  assumes "snapshot_inv a" and "snapshot_inv b" and "combine_snapshots a b = Inr s"
  shows "snapshot_inv s"
proof -
  have "sn_household_id a = sn_household_id b"
    using assms(3) by (auto simp: combine_snapshots_def split: if_splits)
  then have "canonical s" "lot s = lots.absorb (lot a) (sn_lots b)" "sn_as_of s = max (sn_as_of a) (sn_as_of b)"
    using combine_snapshots_lots[of a b] assms by (auto simp: snapshot_inv_def)
  then show ?thesis
    using assms(2) by (intro snapshot_inv_absorb[OF assms(1)])
      (auto simp: snapshot_inv_def list_all_iff intro: lot_inv_mono)
qed

lemma empty_snapshot_inv [simp]: "snapshot_inv (empty_snapshot h t)"
  by (simp add: snapshot_inv_def)

lemma fold_events_inv: "fold_events es h t = Inr s \<Longrightarrow> snapshot_inv s"
  unfolding fold_events_def by (rule apply_events_inv[OF empty_snapshot_inv])

subsection \<open>Combining snapshots in either order\<close>

lemma map_of_absorb_self:
  assumes "distinct (map ls_key ls)"
  shows "map_of (map (\<lambda>l. (ls_key l, l)) ls) = lots.absorb Map.empty ls"
  using assms
proof (induction ls rule: rev_induct)
  case Nil
  then show ?case by simp
next
  case (snoc l ls)
  let ?m = "map_of (map (\<lambda>l. (ls_key l, l)) ls)"
  have none: "?m (ls_key l) = None"
    using snoc.prems by (simp add: map_of_eq_None_iff image_image)
  have "lots.absorb ?m [l] k = map_of (map (\<lambda>l. (ls_key l, l)) (ls @ [l])) k" for k
    using none by (cases "?m k") (auto simp: lots.absorb_def map_add_def)
  then have "lots.absorb ?m [l] = map_of (map (\<lambda>l. (ls_key l, l)) (ls @ [l]))"
    by (rule ext)
  then show ?case
    using snoc by (simp add: lots.absorb_append)
qed

lemma lot_absorb_self: "canonical s \<Longrightarrow> lot s = lots.absorb Map.empty (sn_lots s)"
  by (simp add: canonical_def lot_map_of map_of_absorb_self)

lemma combine_snapshots_comm:
  assumes "canonical a" and "canonical b"
  shows "combine_snapshots a b = combine_snapshots b a"
proof (cases "sn_household_id a = sn_household_id b")
  case True
  obtain s where s: "combine_snapshots a b = Inr s" "canonical s" "sn_household_id s = sn_household_id a"
      "sn_as_of s = max (sn_as_of a) (sn_as_of b)" "lot s = lots.absorb (lot a) (sn_lots b)"
    using combine_snapshots_lots[OF assms(1) True] by blast
  obtain s' where s': "combine_snapshots b a = Inr s'" "canonical s'" "sn_household_id s' = sn_household_id b"
      "sn_as_of s' = max (sn_as_of b) (sn_as_of a)" "lot s' = lots.absorb (lot b) (sn_lots a)"
    using combine_snapshots_lots[OF assms(2) True[symmetric]] by blast
  have "lots.absorb Map.empty (sn_lots a @ sn_lots b) = lots.absorb Map.empty (sn_lots b @ sn_lots a)"
    by (rule lots.absorb_perm) auto
  then have "lot s = lot s'"
    by (simp add: s(5) s'(5) lot_absorb_self assms lots.absorb_append)
  then have "s = s'"
    using s s' True by (intro snapshot_eqI) (simp_all add: max.commute)
  then show ?thesis
    by (simp add: s(1) s'(1))
next
  case False
  then show ?thesis
    by (auto simp: combine_snapshots_def)
qed

subsection \<open>Magnitudes\<close>

text \<open>
  A \<^verbatim>\<open>Numeric(14, 3)\<close> column holds less than \<open>10 ^ 14\<close> thousandths either way, and an
  \<^verbatim>\<open>Integer\<close> column less than \<open>2 ^ 31\<close> events.
\<close>

definition fits_numeric_14_3 :: "quantity \<Rightarrow> bool" where
  "fits_numeric_14_3 q \<longleftrightarrow> \<bar>q\<bar> < 10 ^ 14"

lemma sum_list_abs_bound:
  fixes f :: "'a \<Rightarrow> int"
  assumes "\<forall>x \<in> set xs. \<bar>f x\<bar> < B" and "xs \<noteq> []"
  shows "\<bar>sum_list (map f xs)\<bar> < int (length xs) * B"
  using assms(2,1)
proof (induction xs rule: list_nonempty_induct)
  case (single x)
  then show ?case by simp
next
  case (cons x xs)
  then have "\<bar>f x\<bar> < B" "\<bar>sum_list (map f xs)\<bar> < int (length xs) * B"
    by simp_all
  then show ?case
    by (simp add: distrib_right)
qed

lemma lot_quantity_bound:
  assumes "fold_events es h t = Inr s" and "\<forall>e \<in> set es. fits_numeric_14_3 (ev_quantity_delta e)"
    and "l \<in> set (sn_lots s)"
  shows "\<bar>ls_quantity l\<bar> < ls_event_count l * 10 ^ 14"
proof -
  obtain own where own: "own \<noteq> []" "own = filter (\<lambda>e. for_event e = ls_key l) es"
      "l = lot_of_events (ls_key l) own"
    using lots_of_spec[OF fold_events_lots(1)[OF assms(1)] fold_events_spec[OF assms(1)] assms(3)] by blast
  have "\<forall>e \<in> set own. \<bar>ev_quantity_delta e\<bar> < 10 ^ 14"
    using assms(2) by (auto simp: own(2) fits_numeric_14_3_def)
  then have "\<bar>sum_list (map ev_quantity_delta own)\<bar> < int (length own) * 10 ^ 14"
    using own(1) by (rule sum_list_abs_bound)
  then show ?thesis
    by (subst (1 2) own(3)) (simp add: lot_of_events_def)
qed

lemma sum_list_nonneg_int: "\<forall>x \<in> set xs. 0 \<le> (f x :: int) \<Longrightarrow> 0 \<le> sum_list (map f xs)"
  by (induction xs) auto

lemma foldl_plus_int: "foldl (+) a xs = a + sum_list xs" for a :: int
  by (induction xs arbitrary: a) auto

subsection \<open>Examples\<close>

text \<open>A household and a few of its events, for the concrete instances below.\<close>

definition example_household :: uuid where
  "example_household = 7"

definition example_event ::
  "uuid \<Rightarrow> event_type \<Rightarrow> quantity \<Rightarrow> string \<Rightarrow> datetime \<Rightarrow> datetime \<Rightarrow> inventory_event" where
  "example_event i ty delta u occ rec =
     \<lparr>ev_id = i, ev_household_id = example_household, ev_canonical_product_id = 3, ev_event_type = ty,
      ev_quantity_delta = delta, ev_unit = u, ev_storage_location = FRIDGE, ev_printed_date = None,
      ev_date_label_type = None, ev_occurred_at = occ, ev_recorded_at = rec, ev_source = ''user_manual'',
      ev_confidence = 1, ev_idempotency_key = uuid_str i, ev_metadata = fmempty\<rparr>"

definition milk_bought :: inventory_event where
  "milk_bought = example_event 1 PURCHASED 2000 ''L'' 10 12"

definition milk_opened :: inventory_event where
  "milk_opened = example_event 2 OPENED 0 '' l '' 14 15"

definition milk_spilled :: inventory_event where
  "milk_spilled = example_event 3 DISCARDED (-500) ''l'' 11 20"

lemmas example_defs = milk_bought_def milk_opened_def milk_spilled_def example_event_def example_household_def

lemma example_fold:
  "fold_events [milk_bought, milk_opened] example_household 16 =
     Inr (projr (fold_events [milk_bought, milk_opened] example_household 16))"
  by code_simp

subsection \<open>Properties\<close>

text \<open>
  C15: order independence.  If the events fold into a snapshot, every reordering of the same
  events folds into the same snapshot -- the same lots, in the same order, field for field.
\<close>

theorem fold_order_independent:
  assumes "mset es = mset es'" and "fold_events es h t = Inr s"
  shows "fold_events es' h t = Inr s"
  using assms by (rule fold_events_perm)

theorem fold_order_independent_witness:
  "fold_events [milk_opened, milk_bought] example_household 16 =
     Inr (projr (fold_events [milk_bought, milk_opened] example_household 16))"
  by (rule fold_order_independent[OF _ example_fold]) simp

text \<open>
  C16: resumption.  Advancing the snapshot of a first batch of events by a second batch gives
  exactly what a full replay of both batches gives, refusals included, whatever the clocks of the
  second batch.
\<close>

theorem apply_events_is_replay:
  assumes "fold_events es h t = Inr s" and "t \<le> t'"
  shows "apply_events s es' t' = fold_events (es @ es') h t'"
  using assms by (rule apply_events_resume)

theorem apply_events_is_replay_witness:
  "apply_events (projr (fold_events [milk_bought, milk_opened] example_household 16)) [milk_spilled] 20 =
     fold_events ([milk_bought, milk_opened] @ [milk_spilled]) example_household 20"
  by (rule apply_events_is_replay[OF example_fold]) simp

text \<open>
  The monoid law of the module's docstring.  Combining the snapshots of two batches is folding
  both batches, as of the later of the two instants.
\<close>

theorem fold_union_is_combine:
  assumes "fold_events es h t = Inr a" and "fold_events es' h t' = Inr b"
  shows "combine_snapshots a b = fold_events (es @ es') h (max t t')"
  using assms by (rule combine_snapshots_shards)

theorem fold_union_is_combine_witness:
  "combine_snapshots (projr (fold_events [milk_bought, milk_opened] example_household 16))
       (projr (fold_events [milk_spilled] example_household 20)) =
     fold_events ([milk_bought, milk_opened] @ [milk_spilled]) example_household (max 16 20)"
proof (rule fold_union_is_combine[OF example_fold])
  show "fold_events [milk_spilled] example_household 20 =
      Inr (projr (fold_events [milk_spilled] example_household 20))"
    by code_simp
qed

text \<open>
  C17: the fold computes its specification.  Looking a lot up in the snapshot gives the sums,
  counts, extrema and first opening of exactly the events whose key is that lot's, and nothing for
  a key no event has.
\<close>

theorem fold_refines_spec:
  assumes "fold_events es h t = Inr s"
  shows "lot s k = spec_lot es k"
  using fold_events_spec[OF assms] by simp

theorem fold_refines_spec_witness:
  "lot (projr (fold_events [milk_bought, milk_opened] example_household 16)) (for_event milk_bought) =
     spec_lot [milk_bought, milk_opened] (for_event milk_bought)"
  by (rule fold_refines_spec[OF example_fold])

text \<open>
  C18: the fold's refusals, exactly.  \<open>apply_events\<close> raises \<open>LabelLeakageError\<close> when the
  instant moves backwards, and otherwise refuses the first event that is another household's
  (\<open>HouseholdMismatchError\<close>) or stamped after the instant on either clock
  (\<open>LabelLeakageError\<close>); in every other case it returns a snapshot, and it never reaches the
  \<open>InventoryFoldError\<close> of \<open>combine_lots\<close>.
\<close>

theorem apply_events_refusals:
  "apply_events s es t = Inl err \<longleftrightarrow>
     t < sn_as_of s \<and> err = LabelLeakageError \<or>
     sn_as_of s \<le> t \<and>
       (\<exists>e. find (\<lambda>e. \<not> known_to (sn_household_id s) t e) es = Some e \<and>
          err = (if ev_household_id e \<noteq> sn_household_id s then HouseholdMismatchError else LabelLeakageError))"
proof (cases "sn_as_of s \<le> t")
  case True
  show ?thesis
  proof (cases "find (\<lambda>e. \<not> known_to (sn_household_id s) t e) es")
    case None
    then have "\<exists>s'. apply_events s es t = Inr s'"
      using True by (simp add: apply_events_Inr_iff find_None_known)
    then show ?thesis
      using True None by auto
  next
    case (Some e)
    then show ?thesis
      using True apply_events_refused[OF True Some] by (auto simp: refusal_def)
  qed
next
  case False
  then show ?thesis
    by (auto simp: apply_events_backwards)
qed

text \<open>
  C19: the snapshot invariant.  Advancing keeps a snapshot well formed: its lots sorted and
  distinct, each with at least one event, its instants in order and none after \<open>as_of\<close> on either
  clock, its unit normalised.
\<close>

theorem apply_events_keeps_invariant:
  assumes "snapshot_inv s" and "apply_events s es t = Inr s'"
  shows "snapshot_inv s' \<and> sn_household_id s' = sn_household_id s \<and> sn_as_of s' = t"
proof -
  have "canonical s"
    using assms(1) by (simp add: snapshot_inv_def)
  then show ?thesis
    using apply_events_inv[OF assms] apply_events_lots(2,3)[OF _ assms(2)] by simp
qed

theorem apply_events_keeps_invariant_witness:
  "snapshot_inv (projr (apply_events (empty_snapshot example_household 1) [milk_bought] 12)) \<and>
   sn_household_id (projr (apply_events (empty_snapshot example_household 1) [milk_bought] 12))
     = sn_household_id (empty_snapshot example_household 1) \<and>
   sn_as_of (projr (apply_events (empty_snapshot example_household 1) [milk_bought] 12)) = 12"
proof (rule apply_events_keeps_invariant[OF empty_snapshot_inv])
  show "apply_events (empty_snapshot example_household 1) [milk_bought] 12 =
      Inr (projr (apply_events (empty_snapshot example_household 1) [milk_bought] 12))"
    by code_simp
qed

text \<open>
  No event is lost or counted twice.  The quantity of a product over all its lots is the sum
  of the deltas of all its events, and the lots' event counts add up to the number of events.
\<close>

theorem fold_conserves_events:
  assumes "fold_events es h t = Inr s"
  shows "quantity_of s p = sum_list (map ev_quantity_delta (filter (\<lambda>e. ev_canonical_product_id e = p) es)) \<and>
    sum_list (map ls_event_count (sn_lots s)) = int (length es)"
proof
  note S = fold_events_lots(1)[OF assms] fold_events_spec[OF assms]
  have "sum_list (map ls_quantity (filter (\<lambda>l. lk_canonical_product_id (ls_key l) = p) (sn_lots s)))
      = sum_list (map ev_quantity_delta (filter (\<lambda>e. lk_canonical_product_id (for_event e) = p) es))"
    by (rule sum_lots_spec[OF S]) (simp add: lot_of_events_def)
  then show "quantity_of s p = sum_list (map ev_quantity_delta (filter (\<lambda>e. ev_canonical_product_id e = p) es))"
    by (simp add: quantity_of_def foldl_plus_int for_event_def)
  have "sum_list (map ls_event_count (filter (\<lambda>l. True) (sn_lots s)))
      = sum_list (map (\<lambda>_. 1) (filter (\<lambda>e. True) es))"
    by (rule sum_lots_spec[OF S]) (simp add: lot_of_events_def sum_list_triv)
  then show "sum_list (map ls_event_count (sn_lots s)) = int (length es)"
    by (simp add: sum_list_triv)
qed

theorem fold_conserves_events_witness:
  "quantity_of (projr (fold_events [milk_bought, milk_opened] example_household 16)) 3 = 2000 \<and>
   sum_list (map ls_event_count (sn_lots (projr (fold_events [milk_bought, milk_opened] example_household 16)))) = 2"
  using fold_conserves_events[OF example_fold, of 3] by (simp add: example_defs)

text \<open>
  Sizes.  When every delta fits its \<^verbatim>\<open>Numeric(14, 3)\<close> column and the lot's count its
  \<^verbatim>\<open>Integer\<close> column, the lot's total has fewer than 28 digits: Python's default
  \<^verbatim>\<open>Decimal\<close> precision never rounds a sum of the fold.
\<close>

theorem lot_total_fits_decimal:
  assumes "fold_events es h t = Inr s" and "\<forall>e \<in> set es. fits_numeric_14_3 (ev_quantity_delta e)"
    and "l \<in> set (sn_lots s)" and "ls_event_count l < 2 ^ 31"
  shows "\<bar>ls_quantity l\<bar> < 10 ^ 28"
proof -
  have "\<bar>ls_quantity l\<bar> < ls_event_count l * 10 ^ 14"
    by (rule lot_quantity_bound[OF assms(1-3)])
  also have "\<dots> \<le> 10 ^ 28"
    using assms(4) by simp
  finally show ?thesis .
qed

theorem lot_total_fits_decimal_witness:
  "\<bar>ls_quantity (hd (sn_lots (projr (fold_events [milk_bought, milk_opened] example_household 16))))\<bar> < 10 ^ 28"
proof (rule lot_total_fits_decimal[OF example_fold])
  show "\<forall>e \<in> set [milk_bought, milk_opened]. fits_numeric_14_3 (ev_quantity_delta e)"
    by (simp add: example_defs fits_numeric_14_3_def)
  show "hd (sn_lots (projr (fold_events [milk_bought, milk_opened] example_household 16)))
      \<in> set (sn_lots (projr (fold_events [milk_bought, milk_opened] example_household 16)))"
    by (rule hd_in_set) code_simp
  show "ls_event_count (hd (sn_lots (projr (fold_events [milk_bought, milk_opened] example_household 16)))) < 2 ^ 31"
    by code_simp
qed

end
