(* ===== verification/Domain_Receipts.thy ===== *)
theory Domain_Receipts
  imports Py_Stdlib
begin

section \<open>Receipt uploads\<close>

text \<open>
  The model of \<^verbatim>\<open>src/kitchensense/domain/receipts.py\<close>: the closed set of content types,
  the blob name of a receipt and the detached upload.  The lemmas show what the
  docstring of \<^verbatim>\<open>receipt_blob_name\<close> says is \<^emph>\<open>a property of the type\<close>: the alphabet of
  a name, its household prefix, and that no two uploads share one.
\<close>

datatype receipt_content_type = JPEG | PNG | HEIC | WEBP | PDF

fun content_type_value :: "receipt_content_type \<Rightarrow> string" where
  "content_type_value JPEG = ''image/jpeg''"
| "content_type_value PNG = ''image/png''"
| "content_type_value HEIC = ''image/heic''"
| "content_type_value WEBP = ''image/webp''"
| "content_type_value PDF = ''application/pdf''"

definition receipt_blob_name :: "uuid \<Rightarrow> uuid \<Rightarrow> datetime \<Rightarrow> string" where
  "receipt_blob_name household_id upload_id requested_at =
     (case utc_ymd requested_at of (y, m, d) \<Rightarrow>
        uuid_str household_id @ ''/'' @
        digits 10 4 y @ ''/'' @ digits 10 2 m @ ''/'' @ digits 10 2 d @ ''/'' @
        uuid_str upload_id)"

record receipt_upload =
  ru_id :: uuid
  ru_household_id :: uuid
  ru_blob_name :: string
  ru_content_type :: string
  ru_requested_at :: datetime
  ru_expires_at :: datetime
  ru_confirmed_at :: "datetime option"

definition is_confirmed :: "receipt_upload \<Rightarrow> bool" where
  "is_confirmed u = (ru_confirmed_at u \<noteq> None)"

definition has_expired :: "receipt_upload \<Rightarrow> datetime \<Rightarrow> bool" where
  "has_expired u as_of = (as_of \<ge> ru_expires_at u)"

lemma content_type_value_inject [simp]: "content_type_value a = content_type_value b \<longleftrightarrow> a = b"
  by (cases a; cases b) simp_all

lemma length_blob_name [simp]: "length (receipt_blob_name h u t) = 84"
  by (simp add: receipt_blob_name_def split: prod.split)

lemma blob_name_parts:
  "receipt_blob_name h u t = uuid_str h @ ''/'' @ take 10 (drop 37 (receipt_blob_name h u t)) @ ''/'' @ uuid_str u"
  by (simp add: receipt_blob_name_def split: prod.split)

lemma digit_char_in_alphabet: "0 \<le> n \<Longrightarrow> n < 10 \<Longrightarrow> digit_char n \<in> uuid_alphabet"
  by (simp add: uuid_alphabet_def)

lemma set_digits_10: "set (digits 10 k n) \<subseteq> uuid_alphabet"
  using set_digits[of 10 k n] by (auto simp: digit_char_in_alphabet)

lemma set_blob_name: "set (receipt_blob_name h u t) \<subseteq> insert (CHR ''/'') uuid_alphabet"
  using set_uuid_str[of h] set_uuid_str[of u]
  by (auto simp: receipt_blob_name_def split: prod.split dest: subsetD[OF set_digits_10])

lemma uuid_alphabet_eval: "uuid_alphabet = set ''-0123456789abcdef''"
proof -
  have "digit_char ` {0..<16} = digit_char ` set [0..15]"
    by (rule arg_cong[where f = "image digit_char"]) auto
  also have "\<dots> = set ''0123456789abcdef''"
    unfolding set_map[symmetric] by code_simp
  finally show ?thesis
    by (simp add: uuid_alphabet_def)
qed

text \<open>
  A blob name is drawn from the hexadecimal digits, the dash and the slash, so none of
  the characters that mean something to a URL parser occurs in it (in particular no dot,
  hence no parent-directory segment); and it starts with the household's own prefix.
\<close>

theorem blob_name_is_safe:
  "set (receipt_blob_name h u t) \<subseteq> set ''/-0123456789abcdef'' \<and>
   set (receipt_blob_name h u t) \<inter> set ''.?#%&;:@ '' = {} \<and>
   take 37 (receipt_blob_name h u t) = uuid_str h @ ''/''"
proof (intro conjI)
  show sub: "set (receipt_blob_name h u t) \<subseteq> set ''/-0123456789abcdef''"
    using set_blob_name[of h u t] by (simp add: uuid_alphabet_eval)
  have "set ''/-0123456789abcdef'' \<inter> set ''.?#%&;:@ '' = {}"
    by simp
  with sub show "set (receipt_blob_name h u t) \<inter> set ''.?#%&;:@ '' = {}"
    by blast
  show "take 37 (receipt_blob_name h u t) = uuid_str h @ ''/''"
    by (subst blob_name_parts) simp
qed

text \<open>
  A blob name determines its household and its upload, so two uploads never share a
  blob, whatever the dates, and one household's prefix never matches another's blob.
\<close>

theorem blob_name_injective:
  "(receipt_blob_name h u t = receipt_blob_name h' u' t' \<longrightarrow> h = h' \<and> u = u') \<and>
   (take 37 (receipt_blob_name h u t) = take 37 (receipt_blob_name h' u' t') \<longleftrightarrow> h = h')"
proof (intro conjI impI)
  assume eq: "receipt_blob_name h u t = receipt_blob_name h' u' t'"
  have "uuid_str h = uuid_str h' \<and> uuid_str u = uuid_str u'"
    using eq by (subst (asm) (1 2) blob_name_parts) simp
  then show "h = h'" and "u = u'"
    by simp_all
next
  have "take 37 (receipt_blob_name h u t) = uuid_str h @ ''/''" for h u t
    by (subst blob_name_parts) simp
  then show "take 37 (receipt_blob_name h u t) = take 37 (receipt_blob_name h' u' t') \<longleftrightarrow> h = h'"
    by simp
qed

theorem blob_name_injective_witness:
  "receipt_blob_name 1 2 0 = receipt_blob_name 1 2 5 \<and> (1 :: uuid) = 1"
proof
  show "receipt_blob_name 1 2 0 = receipt_blob_name 1 2 5"
    by code_simp
  with blob_name_injective[of 1 2 0 1 2 5] show "(1 :: uuid) = 1"
    by blast
qed

end
