(* ===== verification/Py_Uuid5.thy ===== *)
theory Py_Uuid5
  imports Py_Stdlib
begin

unbundle bit_operations_syntax

section \<open>Name-based UUIDs\<close>

text \<open>
  \<^verbatim>\<open>uuid.uuid5\<close> of the standard library: the first sixteen bytes of the SHA-1 digest of
  the namespace's bytes followed by the name in UTF-8, with the version and variant
  fields overwritten.  SHA-1 is written out as FIPS 180-4 gives it, on 32-bit words.
\<close>

type_synonym byte = "8 word"
type_synonym word32 = "32 word"

definition utf8_char :: "char \<Rightarrow> byte list" where
  "utf8_char c = (let n = code_point c in
     if n < 128 then [word_of_int n] else [word_of_int (192 + n div 64), word_of_int (128 + n mod 64)])"

definition encode_utf8 :: "string \<Rightarrow> byte list" where
  "encode_utf8 s = concat (map utf8_char s)"

fun be_bytes :: "nat \<Rightarrow> int \<Rightarrow> byte list" where
  "be_bytes 0 n = []"
| "be_bytes (Suc k) n = be_bytes k (n div 256) @ [word_of_int n]"

definition be_value :: "byte list \<Rightarrow> int" where
  "be_value bs = foldl (\<lambda>a b. a * 256 + uint b) 0 bs"

subsection \<open>SHA-1\<close>

definition rotl :: "nat \<Rightarrow> word32 \<Rightarrow> word32" where
  "rotl k x = push_bit k x OR drop_bit (32 - k) x"

definition sha1_pad :: "byte list \<Rightarrow> byte list" where
  "sha1_pad m = m @ 0x80 # replicate ((119 - length m mod 64) mod 64) 0 @ be_bytes 8 (8 * int (length m))"

definition be_word :: "byte list \<Rightarrow> word32" where
  "be_word bs = word_of_int (be_value bs)"

fun chunks :: "nat \<Rightarrow> nat \<Rightarrow> 'a list \<Rightarrow> 'a list list" where
  "chunks 0 k xs = []"
| "chunks (Suc n) k xs = take k xs # chunks n k (drop k xs)"

text \<open>The message schedule, newest word first.\<close>

fun sha1_schedule :: "nat \<Rightarrow> word32 list \<Rightarrow> word32 list" where
  "sha1_schedule 0 ws = ws"
| "sha1_schedule (Suc n) ws = sha1_schedule n (rotl 1 (ws ! 2 XOR ws ! 7 XOR ws ! 13 XOR ws ! 15) # ws)"

definition sha1_f :: "nat \<Rightarrow> word32 \<Rightarrow> word32 \<Rightarrow> word32 \<Rightarrow> word32 \<times> word32" where
  "sha1_f t b c d =
     (if t < 20 then ((b AND c) OR (NOT b AND d), 0x5a827999)
      else if t < 40 then (b XOR c XOR d, 0x6ed9eba1)
      else if t < 60 then ((b AND c) OR (b AND d) OR (c AND d), 0x8f1bbcdc)
      else (b XOR c XOR d, 0xca62c1d6))"

type_synonym sha1_state = "word32 \<times> word32 \<times> word32 \<times> word32 \<times> word32"

fun sha1_step :: "nat \<Rightarrow> word32 \<Rightarrow> sha1_state \<Rightarrow> sha1_state" where
  "sha1_step t w (a, b, c, d, e) =
     (let (f, k) = sha1_f t b c d in (rotl 5 a + f + e + k + w, a, rotl 30 b, c, d))"

fun sha1_rounds :: "nat \<Rightarrow> word32 list \<Rightarrow> sha1_state \<Rightarrow> sha1_state" where
  "sha1_rounds t [] s = s"
| "sha1_rounds t (w # ws) s = sha1_rounds (Suc t) ws (sha1_step t w s)"

fun sha1_add :: "sha1_state \<Rightarrow> sha1_state \<Rightarrow> sha1_state" where
  "sha1_add (h0, h1, h2, h3, h4) (a, b, c, d, e) = (h0 + a, h1 + b, h2 + c, h3 + d, h4 + e)"

definition sha1_block :: "sha1_state \<Rightarrow> byte list \<Rightarrow> sha1_state" where
  "sha1_block s block =
     sha1_add s (sha1_rounds 0 (rev (sha1_schedule 64 (rev (map be_word (chunks 16 4 block))))) s)"

definition sha1_init :: sha1_state where
  "sha1_init = (0x67452301, 0xefcdab89, 0x98badcfe, 0x10325476, 0xc3d2e1f0)"

fun sha1_digest :: "sha1_state \<Rightarrow> byte list" where
  "sha1_digest (a, b, c, d, e) = concat (map (\<lambda>w. be_bytes 4 (uint w)) [a, b, c, d, e])"

definition sha1_blocks :: "byte list \<Rightarrow> byte list list" where
  "sha1_blocks p = chunks (length p div 64) 64 p"

definition sha1 :: "byte list \<Rightarrow> byte list" where
  "sha1 m = sha1_digest (foldl sha1_block sha1_init (sha1_blocks (sha1_pad m)))"

subsection \<open>\<^verbatim>\<open>uuid.uuid5\<close>\<close>

text \<open>
  \<^verbatim>\<open>UUID(bytes = hash[:16], version = 5)\<close>: the two variant bits become \<open>10\<close> and the four
  version bits \<open>0101\<close>.
\<close>

definition with_version_5 :: "uuid \<Rightarrow> uuid" where
  "with_version_5 u =
     (((u AND NOT (push_bit 48 0xc000)) OR push_bit 48 0x8000) AND NOT (push_bit 64 0xf000))
       OR push_bit 76 5"

definition uuid5 :: "uuid \<Rightarrow> string \<Rightarrow> uuid" where
  "uuid5 namespace name =
     with_version_5 (word_of_int (be_value (take 16 (sha1 (be_bytes 16 (uint namespace) @ encode_utf8 name)))))"

definition uuid_version :: "uuid \<Rightarrow> uuid" where
  "uuid_version u = drop_bit 76 u AND 0xf"

definition uuid_variant :: "uuid \<Rightarrow> uuid" where
  "uuid_variant u = drop_bit 62 u AND 3"

lemma uuid5_version: "uuid_version (uuid5 ns name) = 5"
proof -
  have four: "n = 0 \<or> n = 1 \<or> n = 2 \<or> n = 3" if "n < 4" for n :: nat
    using that by auto
  have fixed: "take_bit 4 (drop_bit 76 (with_version_5 u)) = take_bit 4 5" for u
    unfolding with_version_5_def
    by (rule bit_word_eqI) (auto simp: bit_simps dest!: four)
  moreover have "(0xf :: uuid) = mask 4" and "take_bit 4 (5 :: uuid) = 5"
    by (simp_all add: mask_eq_exp_minus_1)
  ultimately show ?thesis
    by (simp add: uuid_version_def uuid5_def take_bit_eq_mask)
qed

end
