(* ===== verification/Domain_Household.thy ===== *)
theory Domain_Household
  imports Py_Uuid5
begin

section \<open>Turning a signed-in user into a household\<close>

text \<open>
  The model of \<^verbatim>\<open>src/kitchensense/domain/household.py\<close>: \<open>household_id_for\<close> with its two
  refusals, through the real \<^verbatim>\<open>uuid5\<close>.  The lemmas are about what can be said without
  assuming anything of SHA-1: which names are hashed, when two of them coincide, and
  which ids can never come out.
\<close>

datatype household_error = NoIssuer | NoSubject

definition HOUSEHOLD_NAMESPACE :: uuid where
  "HOUSEHOLD_NAMESPACE = 0x6f2d1a549c3b4f7e8a213d5b0c7e4f19"

text \<open>The f-string \<^verbatim>\<open>{issuer}\n{subject}\<close>.\<close>

definition household_key :: "string \<Rightarrow> string \<Rightarrow> string" where
  "household_key issuer subject = issuer @ CHR 0x0A # subject"

definition household_id_for :: "string \<Rightarrow> string \<Rightarrow> household_error + uuid" where
  "household_id_for issuer subject = (let
     issuer = strip issuer;
     subject = strip subject
   in if issuer = [] then Inl NoIssuer
      else if subject = [] then Inl NoSubject
      else Inr (uuid5 HOUSEHOLD_NAMESPACE (household_key issuer subject)))"

definition PLACEHOLDER_HOUSEHOLD_ID :: uuid where
  "PLACEHOLDER_HOUSEHOLD_ID = 0x11111111111141118111111111111111"

lemma household_id_for_Inr_iff:
  "household_id_for i s = Inr h \<longleftrightarrow>
     \<not> is_blank i \<and> \<not> is_blank s \<and> h = uuid5 HOUSEHOLD_NAMESPACE (household_key (strip i) (strip s))"
  by (auto simp: household_id_for_def is_blank_def Let_def)

lemma household_key_inject:
  assumes "CHR 0x0A \<notin> set i" and "CHR 0x0A \<notin> set i'"
  shows "household_key i s = household_key i' s' \<longleftrightarrow> i = i' \<and> s = s'"
proof
  let ?line = "takeWhile (\<lambda>c. c \<noteq> CHR 0x0A)"
  have line: "?line (household_key j t) = j" if "CHR 0x0A \<notin> set j" for j t
    unfolding household_key_def using that
    by (subst takeWhile_append2) auto
  assume eq: "household_key i s = household_key i' s'"
  then have "i = i'"
    using line[OF assms(1), of s] line[OF assms(2), of s'] by simp
  with eq show "i = i' \<and> s = s'"
    by (simp add: household_key_def)
qed simp

text \<open>
  A household is derived exactly from tokens whose issuer and subject are both non-blank,
  depends on nothing but their stripped values, and is always a version-5 UUID.
\<close>

theorem household_id_total:
  "(case household_id_for i s of
      Inl NoIssuer \<Rightarrow> is_blank i
    | Inl NoSubject \<Rightarrow> \<not> is_blank i \<and> is_blank s
    | Inr h \<Rightarrow> \<not> is_blank i \<and> \<not> is_blank s \<and> uuid_version h = 5) \<and>
   household_id_for (strip i) (strip s) = household_id_for i s"
  by (auto simp: household_id_for_def is_blank_def uuid5_version Let_def)

text \<open>
  The issuer separator works: when neither issuer contains a newline, two tokens hash the
  same name exactly when they agree on stripped issuer and stripped subject (a newline in
  a subject is harmless).  So the issuer really is mixed in, and a subject cannot borrow
  characters from it.
\<close>

theorem household_key_separates:
  assumes "CHR 0x0A \<notin> set (strip i)" and "CHR 0x0A \<notin> set (strip i')"
  shows "household_key (strip i) (strip s) = household_key (strip i') (strip s') \<longleftrightarrow>
    strip i = strip i' \<and> strip s = strip s'"
  by (rule household_key_inject[OF assms])

theorem household_key_separates_witness:
  "household_key (strip '' a'') (strip ''bc'') \<noteq> household_key (strip ''ab'') (strip ''c '')"
  by (subst household_key_separates) code_simp+

text \<open>
  The newline in an issuer is excluded by the comment (\<^emph>\<open>a newline cannot appear in either
  value\<close>), not by the code: two different issuers, one of them with a newline inside, get
  one household.
\<close>

theorem household_newline_collision:
  "strip ''a'' \<noteq> strip (''a'' @ CHR 0x0A # ''b'') \<and>
   household_id_for ''a'' (''b'' @ CHR 0x0A # ''c'') = household_id_for (''a'' @ CHR 0x0A # ''b'') ''c'' \<and>
   (\<exists>h. household_id_for ''a'' (''b'' @ CHR 0x0A # ''c'') = Inr h)"
proof (intro conjI)
  have strips: "strip ''a'' = ''a''" "strip ''c'' = ''c''"
      "strip (''a'' @ CHR 0x0A # ''b'') = ''a'' @ CHR 0x0A # ''b''"
      "strip (''b'' @ CHR 0x0A # ''c'') = ''b'' @ CHR 0x0A # ''c''"
    by code_simp+
  then show "strip ''a'' \<noteq> strip (''a'' @ CHR 0x0A # ''b'')"
    by simp
  show "household_id_for ''a'' (''b'' @ CHR 0x0A # ''c'') = household_id_for (''a'' @ CHR 0x0A # ''b'') ''c''"
    by (simp only: household_id_for_def Let_def strips household_key_def) simp
  show "\<exists>h. household_id_for ''a'' (''b'' @ CHR 0x0A # ''c'') = Inr h"
    by (simp only: household_id_for_def Let_def strips) simp
qed

text \<open>
  No token derives the placeholder household of the first migrations, whose id is a
  version-4 UUID; the row that migration 0003 may leave behind is unreachable, as it says.
\<close>

theorem placeholder_unreachable: "household_id_for i s \<noteq> Inr PLACEHOLDER_HOUSEHOLD_ID"
proof
  assume "household_id_for i s = Inr PLACEHOLDER_HOUSEHOLD_ID"
  then have "uuid_version PLACEHOLDER_HOUSEHOLD_ID = 5"
    using uuid5_version by (metis household_id_for_Inr_iff)
  moreover have "uuid_version PLACEHOLDER_HOUSEHOLD_ID = 4"
    by code_simp
  ultimately show False
    by simp
qed

end
