(* ===== verification/Kitchen_Tables.thy ===== *)
theory Kitchen_Tables
  imports Domain_Inventory Domain_Receipts Domain_Household
begin

section \<open>The tables and the statements executed on them\<close>

text \<open>
  The model of \<^verbatim>\<open>src/kitchensense/models/\<close> and of the schema \<^verbatim>\<open>alembic/versions\<close> creates:
  one record per row class, one list of rows per table, and the constraints the classes
  declare -- column widths, CHECK, UNIQUE and FOREIGN KEY constraints, the append-only
  triggers -- as the conditions under which a statement is refused.

  A statement is a function of the database.  It is refused with \<open>DBAPIError\<close> when a value does
  not fit its column (the asyncpg dialect wraps such an error in no narrower class) and
  with \<open>IntegrityError\<close> when a constraint does not hold.  Values the server supplies
  (\<^verbatim>\<open>gen_random_uuid()\<close>, \<^verbatim>\<open>now()\<close>) are arguments.

  The lemmas show that every statement keeps the declared constraints true of the whole
  database, and that the event log only ever grows.
\<close>

datatype db_error = IntegrityError | DBAPIError

subsection \<open>Rows\<close>

record household_row =
  hr_id :: uuid
  hr_name :: string
  hr_timezone :: string
  hr_created_at :: datetime

record product_row =
  pr_id :: uuid
  pr_canonical_name :: string
  pr_brand :: "string option"
  pr_category :: "string option"
  pr_default_unit :: string
  pr_typical_shelf_life_days :: "int option"
  pr_gtin :: "string option"
  pr_attributes :: metadata
  pr_created_at :: datetime

record event_row =
  er_id :: uuid
  er_household_id :: uuid
  er_canonical_product_id :: uuid
  er_event_type :: event_type
  er_quantity_delta :: quantity
  er_unit :: string
  er_storage_location :: storage_location
  er_printed_date :: "date option"
  er_date_label_type :: "date_label_type option"
  er_occurred_at :: datetime
  er_recorded_at :: datetime
  er_source :: string
  er_confidence :: rat
  er_idempotency_key :: string
  er_event_metadata :: metadata

record snapshot_row =
  sr_id :: uuid
  sr_household_id :: uuid
  sr_canonical_product_id :: uuid
  sr_storage_location :: storage_location
  sr_unit :: string
  sr_printed_date :: "date option"
  sr_date_label_type :: "date_label_type option"
  sr_quantity :: quantity
  sr_purchased_quantity :: quantity
  sr_consumed_quantity :: quantity
  sr_discarded_quantity :: quantity
  sr_event_count :: int
  sr_first_occurred_at :: datetime
  sr_last_occurred_at :: datetime
  sr_last_recorded_at :: datetime
  sr_opened_at :: "datetime option"
  sr_as_of :: datetime
  sr_computed_at :: datetime

record upload_row =
  ur_id :: uuid
  ur_household_id :: uuid
  ur_blob_name :: string
  ur_content_type :: string
  ur_requested_at :: datetime
  ur_expires_at :: datetime
  ur_confirmed_at :: "datetime option"

record kitchen_db =
  db_households :: "household_row list"
  db_products :: "product_row list"
  db_events :: "event_row list"
  db_snapshots :: "snapshot_row list"
  db_uploads :: "upload_row list"

definition event_to_domain :: "event_row \<Rightarrow> inventory_event" where
  "event_to_domain r =
     \<lparr>ev_id = er_id r,
      ev_household_id = er_household_id r,
      ev_canonical_product_id = er_canonical_product_id r,
      ev_event_type = er_event_type r,
      ev_quantity_delta = er_quantity_delta r,
      ev_unit = er_unit r,
      ev_storage_location = er_storage_location r,
      ev_printed_date = er_printed_date r,
      ev_date_label_type = er_date_label_type r,
      ev_occurred_at = er_occurred_at r,
      ev_recorded_at = er_recorded_at r,
      ev_source = er_source r,
      ev_confidence = er_confidence r,
      ev_idempotency_key = er_idempotency_key r,
      ev_metadata = er_event_metadata r\<rparr>"

definition snapshot_row_key :: "snapshot_row \<Rightarrow> lot_key" where
  "snapshot_row_key r =
     LotKey (sr_canonical_product_id r) (sr_storage_location r) (sr_unit r) (sr_printed_date r)
       (sr_date_label_type r)"

definition snapshot_to_domain :: "snapshot_row \<Rightarrow> lot_state" where
  "snapshot_to_domain r =
     \<lparr>ls_key = snapshot_row_key r,
      ls_quantity = sr_quantity r,
      ls_purchased_quantity = sr_purchased_quantity r,
      ls_consumed_quantity = sr_consumed_quantity r,
      ls_discarded_quantity = sr_discarded_quantity r,
      ls_event_count = sr_event_count r,
      ls_first_occurred_at = sr_first_occurred_at r,
      ls_last_occurred_at = sr_last_occurred_at r,
      ls_last_recorded_at = sr_last_recorded_at r,
      ls_opened_at = sr_opened_at r\<rparr>"

definition upload_to_domain :: "upload_row \<Rightarrow> receipt_upload" where
  "upload_to_domain r =
     \<lparr>ru_id = ur_id r,
      ru_household_id = ur_household_id r,
      ru_blob_name = ur_blob_name r,
      ru_content_type = ur_content_type r,
      ru_requested_at = ur_requested_at r,
      ru_expires_at = ur_expires_at r,
      ru_confirmed_at = ur_confirmed_at r\<rparr>"

subsection \<open>Columns\<close>

text \<open>
  Storing into \<^verbatim>\<open>varchar(n)\<close>: text carries no NUL, and a longer string is an error unless
  what is over is all spaces, which are cut off.
\<close>

definition varchar :: "nat \<Rightarrow> string \<Rightarrow> db_error + string" where
  "varchar n s =
     (if CHR 0x00 \<in> set s then Inl DBAPIError
      else if length s \<le> n then Inr s
      else if list_all (\<lambda>c. c = CHR '' '') (drop n s) then Inr (take n s)
      else Inl DBAPIError)"

definition varchar_opt :: "nat \<Rightarrow> string option \<Rightarrow> db_error + string option" where
  "varchar_opt n s = (case s of None \<Rightarrow> Inr None | Some s \<Rightarrow> bind_sum (varchar n s) (\<lambda>s. Inr (Some s)))"

text \<open>A \<^verbatim>\<open>jsonb\<close> column refuses the escape \<^verbatim>\<open>\u0000\<close> anywhere in a document.\<close>

primrec json_storable :: "json \<Rightarrow> bool" where
  "json_storable JNull = True"
| "json_storable (JBool b) = True"
| "json_storable (JNum n) = True"
| "json_storable (JStr s) = (CHR 0x00 \<notin> set s)"
| "json_storable (JArray xs) = list_all (\<lambda>b. b) (map json_storable xs)"
| "json_storable (JObject m) = fmpred (\<lambda>k b. CHR 0x00 \<notin> set k \<and> b) (fmmap json_storable m)"

definition fits_int32 :: "int \<Rightarrow> bool" where
  "fits_int32 n = (- (2 ^ 31) \<le> n \<and> n < 2 ^ 31)"

definition btrim :: "string \<Rightarrow> string" where
  "btrim s = rev (dropWhile (\<lambda>c. c = CHR '' '') (rev (dropWhile (\<lambda>c. c = CHR '' '') s)))"

definition not_blank :: "string \<Rightarrow> bool" where
  "not_blank s = (length (btrim s) > 0)"

definition is_gtin :: "string \<Rightarrow> bool" where
  "is_gtin s = (8 \<le> length s \<and> length s \<le> 14 \<and> list_all (\<lambda>c. c \<in> set ''0123456789'') s)"

definition store_household :: "household_row \<Rightarrow> db_error + household_row" where
  "store_household r =
     bind_sum (varchar 200 (hr_name r)) (\<lambda>name.
     bind_sum (varchar 64 (hr_timezone r)) (\<lambda>timezone.
     Inr (r\<lparr>hr_name := name, hr_timezone := timezone\<rparr>)))"

definition store_product :: "product_row \<Rightarrow> db_error + product_row" where
  "store_product r =
     bind_sum (varchar 200 (pr_canonical_name r)) (\<lambda>name.
     bind_sum (varchar_opt 120 (pr_brand r)) (\<lambda>brand.
     bind_sum (varchar_opt 80 (pr_category r)) (\<lambda>category.
     bind_sum (varchar 24 (pr_default_unit r)) (\<lambda>unit.
     bind_sum (varchar_opt 14 (pr_gtin r)) (\<lambda>gtin.
     if \<not> (pred_option fits_int32 (pr_typical_shelf_life_days r) \<and> json_storable (JObject (pr_attributes r)))
     then Inl DBAPIError
     else Inr (r\<lparr>pr_canonical_name := name, pr_brand := brand, pr_category := category,
       pr_default_unit := unit, pr_gtin := gtin\<rparr>))))))"

definition store_event :: "event_row \<Rightarrow> db_error + event_row" where
  "store_event r =
     (if \<not> (fits_numeric_14_3 (er_quantity_delta r) \<and> json_storable (JObject (er_event_metadata r)))
      then Inl DBAPIError
      else
       bind_sum (varchar 24 (er_unit r)) (\<lambda>unit.
       bind_sum (varchar 64 (er_source r)) (\<lambda>source.
       bind_sum (varchar 200 (er_idempotency_key r)) (\<lambda>idempotency_key.
       Inr (r\<lparr>er_unit := unit, er_source := source, er_idempotency_key := idempotency_key\<rparr>)))))"

definition store_snapshot_row :: "snapshot_row \<Rightarrow> db_error + snapshot_row" where
  "store_snapshot_row r =
     (if \<not> (list_all fits_numeric_14_3
              [sr_quantity r, sr_purchased_quantity r, sr_consumed_quantity r, sr_discarded_quantity r] \<and>
            fits_int32 (sr_event_count r)) then Inl DBAPIError
      else bind_sum (varchar 24 (sr_unit r)) (\<lambda>unit. Inr (r\<lparr>sr_unit := unit\<rparr>)))"

definition store_upload :: "upload_row \<Rightarrow> db_error + upload_row" where
  "store_upload r =
     bind_sum (varchar 400 (ur_blob_name r)) (\<lambda>blob_name.
     bind_sum (varchar 128 (ur_content_type r)) (\<lambda>content_type.
     Inr (r\<lparr>ur_blob_name := blob_name, ur_content_type := content_type\<rparr>)))"

subsection \<open>Constraints\<close>

definition household_checks :: "household_row \<Rightarrow> bool" where
  "household_checks r \<longleftrightarrow> not_blank (hr_name r) \<and> not_blank (hr_timezone r)"

definition product_checks :: "product_row \<Rightarrow> bool" where
  "product_checks r \<longleftrightarrow>
     not_blank (pr_canonical_name r) \<and>
     pred_option (\<lambda>n. n > 0) (pr_typical_shelf_life_days r) \<and>
     pred_option is_gtin (pr_gtin r)"

definition label_needs_date :: "date_label_type option \<Rightarrow> date option \<Rightarrow> bool" where
  "label_needs_date label printed \<longleftrightarrow> label = None \<or> printed \<noteq> None"

definition event_checks :: "event_row \<Rightarrow> bool" where
  "event_checks r \<longleftrightarrow>
     (er_quantity_delta r \<ge> 0 \<or> er_event_type r \<noteq> PURCHASED) \<and>
     (er_quantity_delta r \<le> 0 \<or> er_event_type r \<notin> {CONSUMED, DISCARDED}) \<and>
     label_needs_date (er_date_label_type r) (er_printed_date r) \<and>
     (er_confidence r \<ge> 0 \<and> er_confidence r \<le> 1) \<and>
     not_blank (er_unit r) \<and> not_blank (er_source r) \<and> not_blank (er_idempotency_key r)"

definition snapshot_checks :: "snapshot_row \<Rightarrow> bool" where
  "snapshot_checks r \<longleftrightarrow>
     sr_event_count r > 0 \<and> label_needs_date (sr_date_label_type r) (sr_printed_date r)"

definition upload_checks :: "upload_row \<Rightarrow> bool" where
  "upload_checks r \<longleftrightarrow>
     not_blank (ur_blob_name r) \<and> not_blank (ur_content_type r) \<and>
     ur_expires_at r > ur_requested_at r \<and>
     pred_option (\<lambda>t. t \<ge> ur_requested_at r) (ur_confirmed_at r)"

text \<open>Foreign keys of the rows that have them.\<close>

definition household_exists :: "kitchen_db \<Rightarrow> uuid \<Rightarrow> bool" where
  "household_exists db h \<longleftrightarrow> h \<in> set (map hr_id (db_households db))"

definition product_exists :: "kitchen_db \<Rightarrow> uuid \<Rightarrow> bool" where
  "product_exists db p \<longleftrightarrow> p \<in> set (map pr_id (db_products db))"

definition event_refs :: "kitchen_db \<Rightarrow> event_row \<Rightarrow> bool" where
  "event_refs db r \<longleftrightarrow> household_exists db (er_household_id r) \<and> product_exists db (er_canonical_product_id r)"

definition snapshot_refs :: "kitchen_db \<Rightarrow> snapshot_row \<Rightarrow> bool" where
  "snapshot_refs db r \<longleftrightarrow> household_exists db (sr_household_id r) \<and> product_exists db (sr_canonical_product_id r)"

definition upload_refs :: "kitchen_db \<Rightarrow> upload_row \<Rightarrow> bool" where
  "upload_refs db r \<longleftrightarrow> household_exists db (ur_household_id r)"

subsection \<open>Statements\<close>

definition insert_household_if_new ::
  "household_row \<Rightarrow> kitchen_db \<Rightarrow> db_error + uuid option \<times> kitchen_db" where
  "insert_household_if_new row db =
     bind_sum (store_household row) (\<lambda>r.
       if \<not> household_checks r then Inl IntegrityError
       else if household_exists db (hr_id r) then Inr (None, db)
       else Inr (Some (hr_id r), db\<lparr>db_households := db_households db @ [r]\<rparr>))"

definition insert_product :: "product_row \<Rightarrow> kitchen_db \<Rightarrow> db_error + kitchen_db" where
  "insert_product row db =
     bind_sum (store_product row) (\<lambda>r.
       if \<not> product_checks r then Inl IntegrityError
       else if product_exists db (pr_id r) then Inl IntegrityError
       else if pr_gtin r \<noteq> None \<and> pr_gtin r \<in> set (map pr_gtin (db_products db)) then Inl IntegrityError
       else Inr (db\<lparr>db_products := db_products db @ [r]\<rparr>))"

definition insert_event :: "event_row \<Rightarrow> kitchen_db \<Rightarrow> db_error + event_row \<times> kitchen_db" where
  "insert_event row db =
     bind_sum (store_event row) (\<lambda>r.
       if \<not> event_checks r then Inl IntegrityError
       else if er_id r \<in> set (map er_id (db_events db)) then Inl IntegrityError
       else if er_idempotency_key r \<in> set (map er_idempotency_key (db_events db)) then Inl IntegrityError
       else if \<not> event_refs db r then Inl IntegrityError
       else Inr (r, db\<lparr>db_events := db_events db @ [r]\<rparr>))"

text \<open>\<^verbatim>\<open>INSERT ... ON CONFLICT (idempotency_key) DO NOTHING RETURNING\<close>.\<close>

definition insert_event_if_new ::
  "event_row \<Rightarrow> kitchen_db \<Rightarrow> db_error + event_row option \<times> kitchen_db" where
  "insert_event_if_new row db =
     bind_sum (store_event row) (\<lambda>r.
       if \<not> event_checks r then Inl IntegrityError
       else if er_idempotency_key r \<in> set (map er_idempotency_key (db_events db)) then Inr (None, db)
       else if er_id r \<in> set (map er_id (db_events db)) then Inl IntegrityError
       else if \<not> event_refs db r then Inl IntegrityError
       else Inr (Some r, db\<lparr>db_events := db_events db @ [r]\<rparr>))"

text \<open>The trigger function \<^verbatim>\<open>kitchensense_reject_mutation\<close>, before UPDATE, DELETE and TRUNCATE.\<close>

definition reject_mutation :: "kitchen_db \<Rightarrow> db_error + kitchen_db" where
  "reject_mutation db = Inl IntegrityError"

definition insert_snapshot_row :: "snapshot_row \<Rightarrow> kitchen_db \<Rightarrow> db_error + kitchen_db" where
  "insert_snapshot_row row db =
     bind_sum (store_snapshot_row row) (\<lambda>r.
       if \<not> snapshot_checks r then Inl IntegrityError
       else if sr_id r \<in> set (map sr_id (db_snapshots db)) then Inl IntegrityError
       else if (sr_household_id r, snapshot_row_key r)
                 \<in> set (map (\<lambda>q. (sr_household_id q, snapshot_row_key q)) (db_snapshots db))
         then Inl IntegrityError
       else if \<not> snapshot_refs db r then Inl IntegrityError
       else Inr (db\<lparr>db_snapshots := db_snapshots db @ [r]\<rparr>))"

definition delete_snapshots :: "uuid \<Rightarrow> kitchen_db \<Rightarrow> kitchen_db" where
  "delete_snapshots h db = db\<lparr>db_snapshots := filter (\<lambda>r. sr_household_id r \<noteq> h) (db_snapshots db)\<rparr>"

definition insert_upload :: "upload_row \<Rightarrow> kitchen_db \<Rightarrow> db_error + upload_row \<times> kitchen_db" where
  "insert_upload row db =
     bind_sum (store_upload row) (\<lambda>r.
       if \<not> upload_checks r then Inl IntegrityError
       else if ur_id r \<in> set (map ur_id (db_uploads db)) then Inl IntegrityError
       else if ur_blob_name r \<in> set (map ur_blob_name (db_uploads db)) then Inl IntegrityError
       else if \<not> upload_refs db r then Inl IntegrityError
       else Inr (r, db\<lparr>db_uploads := db_uploads db @ [r]\<rparr>))"

text \<open>\<^verbatim>\<open>UPDATE receipt_uploads SET confirmed_at = :at WHERE id = :id\<close>, the flush of a changed row.\<close>

definition set_confirmed :: "uuid \<Rightarrow> datetime \<Rightarrow> upload_row \<Rightarrow> upload_row" where
  "set_confirmed i at r = (if ur_id r = i then r\<lparr>ur_confirmed_at := Some at\<rparr> else r)"

definition update_confirmed_at :: "uuid \<Rightarrow> datetime \<Rightarrow> kitchen_db \<Rightarrow> db_error + kitchen_db" where
  "update_confirmed_at i at db =
     (let rows = map (set_confirmed i at) (db_uploads db)
      in if \<not> list_all (\<lambda>r. ur_id r = i \<longrightarrow> upload_checks r) rows then Inl IntegrityError
         else Inr (db\<lparr>db_uploads := rows\<rparr>))"

text \<open>
  \<^verbatim>\<open>DELETE FROM households WHERE id = :id\<close>: refused while the log or an upload references it
  (RESTRICT), taking the projection with it (CASCADE).
\<close>

definition delete_household :: "uuid \<Rightarrow> kitchen_db \<Rightarrow> db_error + kitchen_db" where
  "delete_household h db =
     (if household_exists db h \<and>
         (h \<in> set (map er_household_id (db_events db)) \<or> h \<in> set (map ur_household_id (db_uploads db)))
      then Inl IntegrityError
      else Inr ((delete_snapshots h db)\<lparr>db_households := filter (\<lambda>r. hr_id r \<noteq> h) (db_households db)\<rparr>))"

subsection \<open>The declared constraints as an invariant\<close>

definition households_ok :: "kitchen_db \<Rightarrow> bool" where
  "households_ok db \<longleftrightarrow>
     distinct (map hr_id (db_households db)) \<and>
     list_all (\<lambda>r. store_household r = Inr r \<and> household_checks r) (db_households db)"

definition products_ok :: "kitchen_db \<Rightarrow> bool" where
  "products_ok db \<longleftrightarrow>
     distinct (map pr_id (db_products db)) \<and>
     distinct (filter (\<lambda>g. g \<noteq> None) (map pr_gtin (db_products db))) \<and>
     list_all (\<lambda>r. store_product r = Inr r \<and> product_checks r) (db_products db)"

definition events_ok :: "kitchen_db \<Rightarrow> bool" where
  "events_ok db \<longleftrightarrow>
     distinct (map er_id (db_events db)) \<and>
     distinct (map er_idempotency_key (db_events db)) \<and>
     list_all (\<lambda>r. store_event r = Inr r \<and> event_checks r \<and> event_refs db r) (db_events db)"

definition snapshots_ok :: "kitchen_db \<Rightarrow> bool" where
  "snapshots_ok db \<longleftrightarrow>
     distinct (map sr_id (db_snapshots db)) \<and>
     distinct (map (\<lambda>r. (sr_household_id r, snapshot_row_key r)) (db_snapshots db)) \<and>
     list_all (\<lambda>r. store_snapshot_row r = Inr r \<and> snapshot_checks r \<and> snapshot_refs db r) (db_snapshots db)"

definition uploads_ok :: "kitchen_db \<Rightarrow> bool" where
  "uploads_ok db \<longleftrightarrow>
     distinct (map ur_id (db_uploads db)) \<and>
     distinct (map ur_blob_name (db_uploads db)) \<and>
     list_all (\<lambda>r. store_upload r = Inr r \<and> upload_checks r \<and> upload_refs db r) (db_uploads db)"

definition db_ok :: "kitchen_db \<Rightarrow> bool" where
  "db_ok db \<longleftrightarrow> households_ok db \<and> products_ok db \<and> events_ok db \<and> snapshots_ok db \<and> uploads_ok db"

lemma db_okD [dest]:
  assumes "db_ok db"
  shows "households_ok db" "products_ok db" "events_ok db" "snapshots_ok db" "uploads_ok db"
  using assms by (simp_all add: db_ok_def)

lemmas refs_defs = event_refs_def snapshot_refs_def upload_refs_def household_exists_def product_exists_def

lemma refs_mono:
  assumes "set (map hr_id (db_households db)) \<subseteq> set (map hr_id (db_households db'))"
    and "set (map pr_id (db_products db)) \<subseteq> set (map pr_id (db_products db'))"
  shows "event_refs db e \<Longrightarrow> event_refs db' e"
    and "snapshot_refs db s \<Longrightarrow> snapshot_refs db' s"
    and "upload_refs db u \<Longrightarrow> upload_refs db' u"
  using assms unfolding refs_defs by (auto simp del: set_map)

text \<open>What is stored is stored as it is: a stored value already fits its column.\<close>

lemma varchar_stored: "varchar n s = Inr s' \<Longrightarrow> varchar n s' = Inr s'"
  by (auto simp: varchar_def split: if_splits dest: in_set_takeD)

lemma varchar_opt_stored: "varchar_opt n s = Inr s' \<Longrightarrow> varchar_opt n s' = Inr s'"
  by (auto simp: varchar_opt_def bind_sum_Inr_iff varchar_stored split: option.splits)

lemma store_household_stored: "store_household r = Inr r' \<Longrightarrow> store_household r' = Inr r' \<and> hr_id r' = hr_id r"
  by (auto simp: store_household_def bind_sum_Inr_iff varchar_stored)

lemma store_product_stored: "store_product r = Inr r' \<Longrightarrow> store_product r' = Inr r' \<and> pr_id r' = pr_id r"
  by (auto simp: store_product_def bind_sum_Inr_iff varchar_stored varchar_opt_stored split: if_splits)

lemma store_event_stored: "store_event r = Inr r' \<Longrightarrow> store_event r' = Inr r'"
  by (auto simp: store_event_def bind_sum_Inr_iff varchar_stored split: if_splits)

lemma store_snapshot_row_stored: "store_snapshot_row r = Inr r' \<Longrightarrow> store_snapshot_row r' = Inr r'"
  by (auto simp: store_snapshot_row_def bind_sum_Inr_iff varchar_stored split: if_splits)

lemma store_upload_stored: "store_upload r = Inr r' \<Longrightarrow> store_upload r' = Inr r'"
  by (auto simp: store_upload_def bind_sum_Inr_iff varchar_stored)

text \<open>What a statement that is not refused did.\<close>

lemma insert_household_if_new_Inr:
  "insert_household_if_new row db = Inr (created, db') \<longleftrightarrow>
     (\<exists>r. store_household row = Inr r \<and> household_checks r \<and>
        (if household_exists db (hr_id r) then created = None \<and> db' = db
         else created = Some (hr_id r) \<and> db' = db\<lparr>db_households := db_households db @ [r]\<rparr>))"
  by (auto simp: insert_household_if_new_def bind_sum_Inr_iff)

lemma insert_product_Inr:
  "insert_product row db = Inr db' \<longleftrightarrow>
     (\<exists>r. store_product row = Inr r \<and> product_checks r \<and> \<not> product_exists db (pr_id r) \<and>
        (pr_gtin r = None \<or> pr_gtin r \<notin> set (map pr_gtin (db_products db))) \<and>
        db' = db\<lparr>db_products := db_products db @ [r]\<rparr>)"
  by (auto simp: insert_product_def bind_sum_Inr_iff)

lemma insert_event_Inr:
  "insert_event row db = Inr (r, db') \<longleftrightarrow>
     store_event row = Inr r \<and> event_checks r \<and> er_id r \<notin> er_id ` set (db_events db) \<and>
     er_idempotency_key r \<notin> er_idempotency_key ` set (db_events db) \<and> event_refs db r \<and>
     db' = db\<lparr>db_events := db_events db @ [r]\<rparr>"
  by (auto simp: insert_event_def bind_sum_Inr_iff)

lemma insert_event_if_new_Inr:
  "insert_event_if_new row db = Inr (created, db') \<longleftrightarrow>
     (\<exists>r. store_event row = Inr r \<and> event_checks r \<and>
        (if er_idempotency_key r \<in> er_idempotency_key ` set (db_events db) then created = None \<and> db' = db
         else er_id r \<notin> er_id ` set (db_events db) \<and> event_refs db r \<and>
           created = Some r \<and> db' = db\<lparr>db_events := db_events db @ [r]\<rparr>))"
  by (auto simp: insert_event_if_new_def bind_sum_Inr_iff)

lemma insert_snapshot_row_Inr:
  "insert_snapshot_row row db = Inr db' \<longleftrightarrow>
     (\<exists>r. store_snapshot_row row = Inr r \<and> snapshot_checks r \<and> sr_id r \<notin> sr_id ` set (db_snapshots db) \<and>
        (sr_household_id r, snapshot_row_key r)
          \<notin> (\<lambda>q. (sr_household_id q, snapshot_row_key q)) ` set (db_snapshots db) \<and>
        snapshot_refs db r \<and> db' = db\<lparr>db_snapshots := db_snapshots db @ [r]\<rparr>)"
  by (auto simp: insert_snapshot_row_def bind_sum_Inr_iff)

lemma insert_upload_Inr:
  "insert_upload row db = Inr (r, db') \<longleftrightarrow>
     store_upload row = Inr r \<and> upload_checks r \<and> ur_id r \<notin> ur_id ` set (db_uploads db) \<and>
     ur_blob_name r \<notin> ur_blob_name ` set (db_uploads db) \<and> upload_refs db r \<and>
     db' = db\<lparr>db_uploads := db_uploads db @ [r]\<rparr>"
  by (auto simp: insert_upload_def bind_sum_Inr_iff)

lemmas statement_Inr = insert_household_if_new_Inr insert_product_Inr insert_event_Inr
  insert_event_if_new_Inr insert_snapshot_row_Inr insert_upload_Inr

subsection \<open>Every statement keeps the constraints\<close>

lemma refs_other_tables [simp]:
  "event_refs (db\<lparr>db_events := es\<rparr>) r = event_refs db r"
  "event_refs (db\<lparr>db_snapshots := ss\<rparr>) r = event_refs db r"
  "event_refs (db\<lparr>db_uploads := us\<rparr>) r = event_refs db r"
  "snapshot_refs (db\<lparr>db_events := es\<rparr>) s = snapshot_refs db s"
  "snapshot_refs (db\<lparr>db_snapshots := ss\<rparr>) s = snapshot_refs db s"
  "snapshot_refs (db\<lparr>db_uploads := us\<rparr>) s = snapshot_refs db s"
  "upload_refs (db\<lparr>db_events := es\<rparr>) u = upload_refs db u"
  "upload_refs (db\<lparr>db_snapshots := ss\<rparr>) u = upload_refs db u"
  "upload_refs (db\<lparr>db_uploads := us\<rparr>) u = upload_refs db u"
  by (simp_all add: refs_defs)

lemmas tables_ok_defs = households_ok_def products_ok_def events_ok_def snapshots_ok_def uploads_ok_def

lemma db_ok_grow_parents:
  assumes "db_ok db" and "households_ok db'" and "products_ok db'"
    and "db_events db' = db_events db" and "db_snapshots db' = db_snapshots db" and "db_uploads db' = db_uploads db"
    and grow: "set (map hr_id (db_households db)) \<subseteq> set (map hr_id (db_households db'))"
      "set (map pr_id (db_products db)) \<subseteq> set (map pr_id (db_products db'))"
  shows "db_ok db'"
  using assms(1-6) refs_mono[OF grow]
  by (auto simp: db_ok_def events_ok_def snapshots_ok_def uploads_ok_def list_all_iff)

lemma insert_household_if_new_ok:
  assumes "db_ok db" and "insert_household_if_new row db = Inr (created, db')"
  shows "db_ok db'"
proof -
  obtain r where r: "store_household row = Inr r" "household_checks r"
    and res: "if household_exists db (hr_id r) then created = None \<and> db' = db
        else created = Some (hr_id r) \<and> db' = db\<lparr>db_households := db_households db @ [r]\<rparr>"
    using assms(2) by (auto simp: statement_Inr)
  show ?thesis
  proof (cases "household_exists db (hr_id r)")
    case True
    with res assms(1) show ?thesis by simp
  next
    case False
    with res have db': "db' = db\<lparr>db_households := db_households db @ [r]\<rparr>"
      by simp
    have "households_ok db'"
      using assms(1) r False store_household_stored[OF r(1)]
      by (auto simp: db' db_ok_def households_ok_def household_exists_def)
    moreover have "products_ok db'"
      using assms(1) by (simp add: db' db_ok_def products_ok_def)
    ultimately show ?thesis
      by (rule db_ok_grow_parents[OF assms(1)]) (auto simp: db')
  qed
qed

lemma insert_product_ok:
  assumes "db_ok db" and "insert_product row db = Inr db'"
  shows "db_ok db'"
proof -
  obtain r where r: "store_product row = Inr r" "product_checks r" "\<not> product_exists db (pr_id r)"
      "pr_gtin r = None \<or> pr_gtin r \<notin> set (map pr_gtin (db_products db))"
    and db': "db' = db\<lparr>db_products := db_products db @ [r]\<rparr>"
    using assms(2) by (auto simp: statement_Inr)
  have "products_ok db'"
    using assms(1) r store_product_stored[OF r(1)]
    by (auto simp: db' db_ok_def products_ok_def product_exists_def)
  moreover have "households_ok db'"
    using assms(1) by (simp add: db' db_ok_def households_ok_def)
  ultimately show ?thesis
    by (intro db_ok_grow_parents[OF assms(1)]) (auto simp: db')
qed

lemma append_event_ok:
  assumes "db_ok db" and "store_event row = Inr r" and "event_checks r" and "er_id r \<notin> er_id ` set (db_events db)"
    and "er_idempotency_key r \<notin> er_idempotency_key ` set (db_events db)" and "event_refs db r"
  shows "db_ok (db\<lparr>db_events := db_events db @ [r]\<rparr>)"
  using assms(1,3-) store_event_stored[OF assms(2)]
  by (auto simp: db_ok_def tables_ok_defs)

lemma insert_event_ok: "db_ok db \<Longrightarrow> insert_event row db = Inr (r, db') \<Longrightarrow> db_ok db'"
  by (auto simp: statement_Inr append_event_ok)

lemma insert_event_if_new_ok: "db_ok db \<Longrightarrow> insert_event_if_new row db = Inr (created, db') \<Longrightarrow> db_ok db'"
  by (auto simp: statement_Inr append_event_ok split: if_splits)

lemma insert_snapshot_row_ok:
  assumes "db_ok db" and "insert_snapshot_row row db = Inr db'"
  shows "db_ok db'"
  using assms by (auto simp: statement_Inr db_ok_def tables_ok_defs dest: store_snapshot_row_stored)

lemma delete_snapshots_ok: "db_ok db \<Longrightarrow> db_ok (delete_snapshots h db)"
  by (auto simp: db_ok_def tables_ok_defs delete_snapshots_def list_all_iff distinct_map_filter)

lemma insert_upload_ok: "db_ok db \<Longrightarrow> insert_upload row db = Inr (r, db') \<Longrightarrow> db_ok db'"
  by (auto simp: statement_Inr db_ok_def tables_ok_defs dest: store_upload_stored)

lemma set_confirmed_sel [simp]:
  "ur_id (set_confirmed i at r) = ur_id r" "ur_household_id (set_confirmed i at r) = ur_household_id r"
  "ur_blob_name (set_confirmed i at r) = ur_blob_name r"
  "ur_content_type (set_confirmed i at r) = ur_content_type r"
  "ur_requested_at (set_confirmed i at r) = ur_requested_at r"
  "ur_expires_at (set_confirmed i at r) = ur_expires_at r"
  by (simp_all add: set_confirmed_def)

lemma set_confirmed_other [simp]: "ur_id r \<noteq> i \<Longrightarrow> set_confirmed i at r = r"
  by (simp add: set_confirmed_def)

lemma store_upload_set_confirmed: "store_upload r = Inr r \<Longrightarrow> store_upload (set_confirmed i at r) = Inr (set_confirmed i at r)"
  by (cases r) (auto simp: store_upload_def bind_sum_Inr_iff set_confirmed_def)

lemma update_confirmed_at_ok:
  assumes "db_ok db" and "update_confirmed_at i at db = Inr db'"
  shows "db_ok db'"
proof -
  have db': "db' = db\<lparr>db_uploads := map (set_confirmed i at) (db_uploads db)\<rparr>"
    and new: "\<forall>r \<in> set (db_uploads db). ur_id r = i \<longrightarrow> upload_checks (set_confirmed i at r)"
    using assms(2) by (auto simp: update_confirmed_at_def Let_def list_all_iff split: if_splits)
  have "upload_checks (set_confirmed i at r)" if "r \<in> set (db_uploads db)" for r
    using assms(1) new that by (cases "ur_id r = i") (auto simp: db_ok_def uploads_ok_def list_all_iff)
  then show ?thesis
    using assms(1)
    by (auto simp: db' db_ok_def tables_ok_defs comp_def list_all_iff upload_refs_def household_exists_def
        store_upload_set_confirmed)
qed

lemma delete_household_ok:
  assumes "db_ok db" and "delete_household h db = Inr db'"
  shows "db_ok db'"
proof -
  let ?hs = "filter (\<lambda>r. hr_id r \<noteq> h) (db_households db)"
  have db': "db' = (delete_snapshots h db)\<lparr>db_households := ?hs\<rparr>"
    using assms(2) by (auto simp: delete_household_def split: if_splits)
  have keep: "household_exists db' g" if "household_exists db g" "g \<noteq> h" for g
    using that by (auto simp: db' household_exists_def)
  have "er_household_id r \<noteq> h" if "r \<in> set (db_events db)" for r
    using assms that by (auto simp: delete_household_def db_ok_def events_ok_def list_all_iff event_refs_def split: if_splits)
  moreover have "ur_household_id r \<noteq> h" if "r \<in> set (db_uploads db)" for r
    using assms that by (auto simp: delete_household_def db_ok_def uploads_ok_def list_all_iff upload_refs_def split: if_splits)
  ultimately show ?thesis
    using assms(1) keep
    by (auto simp: db_ok_def tables_ok_defs db' delete_snapshots_def list_all_iff distinct_map_filter
        event_refs_def snapshot_refs_def upload_refs_def product_exists_def)
qed

subsection \<open>Histories of statements\<close>

text \<open>
  Everything a session may send: the statements above, and the UPDATE, DELETE and TRUNCATE of
  \<^verbatim>\<open>inventory_events\<close> that the triggers of migration 0001 intercept.
\<close>

datatype statement =
    InsertHousehold household_row
  | InsertProduct product_row
  | InsertEvent event_row
  | InsertEventIfNew event_row
  | UpdateEvents | DeleteEvents | TruncateEvents
  | InsertSnapshot snapshot_row
  | DeleteSnapshots uuid
  | InsertUpload upload_row
  | ConfirmUpload uuid datetime
  | DeleteHousehold uuid

fun execute :: "statement \<Rightarrow> kitchen_db \<Rightarrow> db_error + kitchen_db" where
  "execute (InsertHousehold r) db = bind_sum (insert_household_if_new r db) (\<lambda>(_, db'). Inr db')"
| "execute (InsertProduct r) db = insert_product r db"
| "execute (InsertEvent r) db = bind_sum (insert_event r db) (\<lambda>(_, db'). Inr db')"
| "execute (InsertEventIfNew r) db = bind_sum (insert_event_if_new r db) (\<lambda>(_, db'). Inr db')"
| "execute UpdateEvents db = reject_mutation db"
| "execute DeleteEvents db = reject_mutation db"
| "execute TruncateEvents db = reject_mutation db"
| "execute (InsertSnapshot r) db = insert_snapshot_row r db"
| "execute (DeleteSnapshots h) db = Inr (delete_snapshots h db)"
| "execute (InsertUpload r) db = bind_sum (insert_upload r db) (\<lambda>(_, db'). Inr db')"
| "execute (ConfirmUpload i at) db = update_confirmed_at i at db"
| "execute (DeleteHousehold h) db = delete_household h db"

inductive db_step :: "kitchen_db \<Rightarrow> kitchen_db \<Rightarrow> bool" where
  "execute s db = Inr db' \<Longrightarrow> db_step db db'"

inductive_cases db_stepE: "db_step db db'"

lemmas statement_ok = insert_household_if_new_ok insert_product_ok insert_event_ok insert_event_if_new_ok
  insert_snapshot_row_ok insert_upload_ok update_confirmed_at_ok delete_household_ok

lemma execute_ok: "db_ok db \<Longrightarrow> execute s db = Inr db' \<Longrightarrow> db_ok db'"
  by (cases s)
    (auto simp: bind_sum_Inr_iff reject_mutation_def delete_snapshots_ok dest: statement_ok[rotated])

lemma execute_log:
  assumes "execute s db = Inr db'"
  shows "\<exists>new. db_events db' = db_events db @ new"
  using assms
  by (cases s)
    (auto simp: bind_sum_Inr_iff statement_Inr reject_mutation_def delete_snapshots_def
      update_confirmed_at_def delete_household_def Let_def split: if_splits)

lemma db_steps_log:
  assumes "db_step\<^sup>*\<^sup>* db db'"
  shows "\<exists>new. db_events db' = db_events db @ new"
  using assms
proof induction
  case (step db1 db2)
  then show ?case
    using execute_log by (fastforce elim: db_stepE)
qed simp

lemma db_steps_ok: "db_step\<^sup>*\<^sup>* db db' \<Longrightarrow> db_ok db \<Longrightarrow> db_ok db'"
  by (induction rule: rtranclp_induct) (auto elim!: db_stepE simp: execute_ok)

subsection \<open>Examples\<close>

definition empty_db :: kitchen_db where
  "empty_db = \<lparr>db_households = [], db_products = [], db_events = [], db_snapshots = [], db_uploads = []\<rparr>"

definition example_db :: kitchen_db where
  "example_db = empty_db
     \<lparr>db_households := [\<lparr>hr_id = example_household, hr_name = ''Home'', hr_timezone = ''Europe/London'', hr_created_at = 0\<rparr>],
      db_products := [\<lparr>pr_id = 3, pr_canonical_name = ''Milk'', pr_brand = None, pr_category = None, pr_default_unit = ''l'',
        pr_typical_shelf_life_days = None, pr_gtin = None, pr_attributes = fmempty, pr_created_at = 0\<rparr>]\<rparr>"

lemma empty_db_ok [simp]: "db_ok empty_db"
  by (simp add: empty_db_def db_ok_def tables_ok_defs)

lemma example_db_ok [simp]: "db_ok example_db"
  by (simp add: example_db_def empty_db_def db_ok_def tables_ok_defs store_household_def store_product_def
      varchar_def varchar_opt_def household_checks_def product_checks_def not_blank_def btrim_def)

definition example_row :: event_row where
  "example_row =
     \<lparr>er_id = 1, er_household_id = example_household, er_canonical_product_id = 3, er_event_type = PURCHASED,
      er_quantity_delta = 2000, er_unit = ''l'', er_storage_location = FRIDGE, er_printed_date = None,
      er_date_label_type = None, er_occurred_at = 10, er_recorded_at = 12, er_source = ''user_manual'',
      er_confidence = 1, er_idempotency_key = ''till-1'', er_event_metadata = fmempty\<rparr>"

lemmas example_db_defs = example_db_def empty_db_def example_row_def example_household_def

lemma example_row_step: "db_step example_db (example_db\<lparr>db_events := [example_row]\<rparr>)"
proof (rule db_step.intros)
  show "execute (InsertEvent example_row) example_db = Inr (example_db\<lparr>db_events := [example_row]\<rparr>)"
    by (simp add: example_db_defs insert_event_def store_event_def varchar_def event_checks_def not_blank_def
        btrim_def event_refs_def household_exists_def product_exists_def label_needs_date_def fits_numeric_14_3_def)
qed

subsection \<open>Properties\<close>



text \<open>
  The kitchen record is append-only.  From any database, every history of statements leaves the
  old log as a prefix of the new one, row for row; and UPDATE, DELETE and TRUNCATE of the log are refused.
\<close>

theorem log_is_append_only:
  "(db_step\<^sup>*\<^sup>* db db' \<longrightarrow> take (length (db_events db)) (db_events db') = db_events db) \<and>
   execute UpdateEvents db = Inl IntegrityError \<and> execute DeleteEvents db = Inl IntegrityError \<and>
   execute TruncateEvents db = Inl IntegrityError"
  using db_steps_log[of db db'] by (auto simp: reject_mutation_def)

theorem log_is_append_only_witness:
  "db_step example_db (example_db\<lparr>db_events := [example_row]\<rparr>) \<and>
   take (length (db_events example_db)) (db_events (example_db\<lparr>db_events := [example_row]\<rparr>)) = db_events example_db"
  using log_is_append_only r_into_rtranclp[of db_step, OF example_row_step] example_row_step by blast

end
