(* ===== verification/Sql_Schema.thy ===== *)
theory Sql_Schema
  imports Kitchen_Tables
begin

section \<open>Tables as a database declares them\<close>

text \<open>
  What the models of \<^verbatim>\<open>src/kitchensense/models\<close> and the migrations of \<^verbatim>\<open>alembic/versions\<close> declare, and what a declaration means.  A
  \<open>catalogue\<close> is the part of Postgres' system tables they write: enumerated types, tables with columns and constraints, indexes,
  functions and triggers.  \<open>run_ddl\<close> is one operation of Alembic on it, refused where Postgres refuses it.

  A CHECK constraint is kept as the text the source has; \<open>check_meaning\<close> reads the texts of this schema as expressions, which are
  evaluated in SQL's three-valued logic.  \<open>satisfies\<close> is what a catalogue says of the rows of its tables: types and widths,
  NOT NULL, primary and unique keys, foreign keys, checks.
\<close>

subsection \<open>Catalogues\<close>

datatype sql_type =
    UuidType | Varchar nat | Timestamptz | Numeric nat nat | Jsonb | Integer32 | Float8 | Date | EnumType string

record column =
  cl_name :: string
  cl_type :: sql_type
  cl_nullable :: bool
  cl_default :: "string option"

datatype table_constraint =
    PrimaryKey string "string list"
  | ForeignKey string "string list" string "string list" string
  | Unique string "string list" bool
  | Check string string

record index_def =
  ix_name :: string
  ix_columns :: "string list"
  ix_unique :: bool
  ix_where :: "string option"

record table_def =
  tb_columns :: "column list"
  tb_constraints :: "table_constraint list"
  tb_indexes :: "index_def list"

record catalogue =
  ct_types :: "(string \<times> string list) list"
  ct_tables :: "(string \<times> table_def) list"
  ct_functions :: "string list"
  ct_triggers :: "(string \<times> string \<times> string \<times> string) list"

definition empty_catalogue :: catalogue where
  "empty_catalogue = \<lparr>ct_types = [], ct_tables = [], ct_functions = [], ct_triggers = []\<rparr>"

text \<open>A trigger is its table, its name, the statement it fires before and its function.\<close>

datatype ddl =
    CreateType string "string list"
  | DropType string
  | CreateTable string "column list" "table_constraint list"
  | DropTable string
  | CreateIndex string string "string list" bool "string option"
  | DropIndex string string
  | CreateFunction string
  | DropFunction string
  | CreateTrigger string string string string
  | DropTrigger string string

datatype ddl_error = DuplicateObject string | UndefinedObject string | DependentObjects string

definition column_names :: "table_def \<Rightarrow> string list" where
  "column_names t = map cl_name (tb_columns t)"

fun own_columns :: "table_constraint \<Rightarrow> string list" where
  "own_columns (PrimaryKey _ cols) = cols"
| "own_columns (ForeignKey _ cols _ _ _) = cols"
| "own_columns (Unique _ cols _) = cols"
| "own_columns (Check _ _) = []"

fun constraint_name :: "table_constraint \<Rightarrow> string" where
  "constraint_name (PrimaryKey n _) = n"
| "constraint_name (ForeignKey n _ _ _ _) = n"
| "constraint_name (Unique n _ _) = n"
| "constraint_name (Check n _) = n"

text \<open>Keys are backed by an index of their own name.\<close>

fun key_name :: "table_constraint \<Rightarrow> string list" where
  "key_name (PrimaryKey n _) = [n]"
| "key_name (Unique n _ _) = [n]"
| "key_name _ = []"

fun referred :: "table_constraint \<Rightarrow> (string \<times> string list) list" where
  "referred (ForeignKey _ _ table cols _) = [(table, cols)]"
| "referred _ = []"

fun enum_name :: "sql_type \<Rightarrow> string list" where
  "enum_name (EnumType t) = [t]"
| "enum_name _ = []"

definition table_relations :: "string \<times> table_def \<Rightarrow> string list" where
  "table_relations nt = fst nt # concat (map key_name (tb_constraints (snd nt))) @ map ix_name (tb_indexes (snd nt))"

definition relation_names :: "catalogue \<Rightarrow> string list" where
  "relation_names c = concat (map table_relations (ct_tables c))"

definition enums_used :: "table_def \<Rightarrow> string list" where
  "enums_used t = concat (map (enum_name \<circ> cl_type) (tb_columns t))"

definition subset_of :: "'a list \<Rightarrow> 'a list \<Rightarrow> bool" where
  "subset_of xs ys = list_all (\<lambda>x. List.member ys x) xs"

text \<open>A foreign key refers to columns that are a key of a table that exists.\<close>

fun is_key :: "string list \<Rightarrow> table_constraint \<Rightarrow> bool" where
  "is_key cols (PrimaryKey _ own) = (own = cols)"
| "is_key cols (Unique _ own _) = (own = cols)"
| "is_key cols _ = False"

definition reference_ok :: "catalogue \<Rightarrow> string \<times> string list \<Rightarrow> bool" where
  "reference_ok c r =
     (case map_of (ct_tables c) (fst r) of
        None \<Rightarrow> False
      | Some t \<Rightarrow> list_ex (is_key (snd r)) (tb_constraints t))"

definition new_table :: "column list \<Rightarrow> table_constraint list \<Rightarrow> table_def" where
  "new_table cols cons = \<lparr>tb_columns = cols, tb_constraints = cons, tb_indexes = []\<rparr>"

definition table_fits :: "catalogue \<Rightarrow> table_def \<Rightarrow> bool" where
  "table_fits c t =
     (distinct (column_names t) \<and> distinct (map constraint_name (tb_constraints t)) \<and>
      subset_of (enums_used t) (map fst (ct_types c)) \<and>
      list_all (\<lambda>k. subset_of (own_columns k) (column_names t)) (tb_constraints t) \<and>
      list_all (reference_ok c) (concat (map referred (tb_constraints t))))"

definition refers_to :: "string \<Rightarrow> string \<times> table_def \<Rightarrow> bool" where
  "refers_to table nt = (fst nt \<noteq> table \<and> List.member (map fst (concat (map referred (tb_constraints (snd nt))))) table)"

text \<open>
  \<open>CreateType\<close> and \<open>DropType\<close> are called with \<^verbatim>\<open>checkfirst\<close>, \<open>CreateFunction\<close> is \<^verbatim>\<open>CREATE OR REPLACE\<close>, the drops of functions and triggers say \<^verbatim>\<open>IF EXISTS\<close>.
\<close>

fun run_ddl :: "ddl \<Rightarrow> catalogue \<Rightarrow> ddl_error + catalogue" where
  "run_ddl (CreateType n labels) c =
     Inr (if List.member (map fst (ct_types c)) n then c else c\<lparr>ct_types := ct_types c @ [(n, labels)]\<rparr>)"
| "run_ddl (DropType n) c =
     (if list_ex (\<lambda>nt. List.member (enums_used (snd nt)) n) (ct_tables c) then Inl (DependentObjects n)
      else Inr (c\<lparr>ct_types := filter (\<lambda>t. fst t \<noteq> n) (ct_types c)\<rparr>))"
| "run_ddl (CreateTable n cols cons) c =
     (let t = new_table cols cons in
      if list_ex (\<lambda>r. List.member (relation_names c) r) (table_relations (n, t)) then Inl (DuplicateObject n)
      else if \<not> table_fits c t then Inl (UndefinedObject n)
      else Inr (c\<lparr>ct_tables := ct_tables c @ [(n, t)]\<rparr>))"
| "run_ddl (DropTable n) c =
     (if \<not> List.member (map fst (ct_tables c)) n then Inl (UndefinedObject n)
      else if list_ex (refers_to n) (ct_tables c) then Inl (DependentObjects n)
      else Inr (c\<lparr>ct_tables := filter (\<lambda>t. fst t \<noteq> n) (ct_tables c),
                  ct_triggers := filter (\<lambda>t. fst t \<noteq> n) (ct_triggers c)\<rparr>))"
| "run_ddl (CreateIndex n table cols uniq cond) c =
     (case map_of (ct_tables c) table of
        None \<Rightarrow> Inl (UndefinedObject table)
      | Some t \<Rightarrow>
          if \<not> subset_of cols (column_names t) then Inl (UndefinedObject n)
          else if List.member (relation_names c) n then Inl (DuplicateObject n)
          else Inr (c\<lparr>ct_tables := AList.update table
            (t\<lparr>tb_indexes := tb_indexes t @ [\<lparr>ix_name = n, ix_columns = cols, ix_unique = uniq, ix_where = cond\<rparr>]\<rparr>) (ct_tables c)\<rparr>))"
| "run_ddl (DropIndex n table) c =
     (case map_of (ct_tables c) table of
        None \<Rightarrow> Inl (UndefinedObject table)
      | Some t \<Rightarrow>
          if \<not> List.member (map ix_name (tb_indexes t)) n then Inl (UndefinedObject n)
          else Inr (c\<lparr>ct_tables := AList.update table (t\<lparr>tb_indexes := filter (\<lambda>i. ix_name i \<noteq> n) (tb_indexes t)\<rparr>) (ct_tables c)\<rparr>))"
| "run_ddl (CreateFunction n) c =
     Inr (if List.member (ct_functions c) n then c else c\<lparr>ct_functions := ct_functions c @ [n]\<rparr>)"
| "run_ddl (DropFunction n) c =
     (if List.member (map (snd \<circ> snd \<circ> snd) (ct_triggers c)) n then Inl (DependentObjects n)
      else Inr (c\<lparr>ct_functions := filter (\<lambda>f. f \<noteq> n) (ct_functions c)\<rparr>))"
| "run_ddl (CreateTrigger n event table f) c =
     (if \<not> List.member (map fst (ct_tables c)) table then Inl (UndefinedObject table)
      else if \<not> List.member (ct_functions c) f then Inl (UndefinedObject f)
      else if List.member (map (\<lambda>t. (fst t, fst (snd t))) (ct_triggers c)) (table, n) then Inl (DuplicateObject n)
      else Inr (c\<lparr>ct_triggers := ct_triggers c @ [(table, n, event, f)]\<rparr>))"
| "run_ddl (DropTrigger n table) c =
     Inr (c\<lparr>ct_triggers := filter (\<lambda>t. (fst t, fst (snd t)) \<noteq> (table, n)) (ct_triggers c)\<rparr>)"

fun run_ddls :: "ddl list \<Rightarrow> catalogue \<Rightarrow> ddl_error + catalogue" where
  "run_ddls [] c = Inr c"
| "run_ddls (d # ds) c = bind_sum (run_ddl d c) (run_ddls ds)"

subsection \<open>Values and checks\<close>

datatype sql_value =
    SqlNull | SqlUuid uuid | SqlText string | SqlNum rat | SqlTime datetime | SqlDate date | SqlJson json

type_synonym sql_row = "string \<Rightarrow> sql_value"

datatype sql_term = Col string | LengthBtrim string | Lit int

datatype sql_op = Above | AtLeast | AtMost

datatype sql_expr =
    Cmp sql_op sql_term sql_term
  | IsNull string
  | IsNotNull string
  | Differs string string
  | NotIn string "string list"
  | Digits string nat nat
  | Or sql_expr sql_expr
  | And sql_expr sql_expr

fun term_value :: "sql_row \<Rightarrow> sql_term \<Rightarrow> sql_value" where
  "term_value r (Col c) = r c"
| "term_value r (Lit n) = SqlNum (of_int n)"
| "term_value r (LengthBtrim c) =
     (case r c of SqlText s \<Rightarrow> SqlNum (of_nat (length (btrim s))) | _ \<Rightarrow> SqlNull)"

text \<open>Comparisons; \<open>None\<close> is the truth value UNKNOWN.\<close>

fun sql_compare :: "(rat \<Rightarrow> rat \<Rightarrow> bool) \<Rightarrow> sql_value \<Rightarrow> sql_value \<Rightarrow> bool option" where
  "sql_compare f (SqlNum x) (SqlNum y) = Some (f x y)"
| "sql_compare f (SqlTime x) (SqlTime y) = Some (f (of_int x) (of_int y))"
| "sql_compare f _ _ = None"

fun text_test :: "(string \<Rightarrow> bool) \<Rightarrow> sql_value \<Rightarrow> bool option" where
  "text_test f (SqlText s) = Some (f s)"
| "text_test f _ = None"

fun sql_or :: "bool option \<Rightarrow> bool option \<Rightarrow> bool option" where
  "sql_or (Some True) y = Some True"
| "sql_or x (Some True) = Some True"
| "sql_or (Some False) y = y"
| "sql_or x (Some False) = x"
| "sql_or None None = None"

fun sql_and :: "bool option \<Rightarrow> bool option \<Rightarrow> bool option" where
  "sql_and (Some False) y = Some False"
| "sql_and x (Some False) = Some False"
| "sql_and (Some True) y = y"
| "sql_and x (Some True) = x"
| "sql_and None None = None"

fun op_holds :: "sql_op \<Rightarrow> rat \<Rightarrow> rat \<Rightarrow> bool" where
  "op_holds Above x y = (y < x)"
| "op_holds AtLeast x y = (y \<le> x)"
| "op_holds AtMost x y = (x \<le> y)"

fun sql_eval :: "sql_row \<Rightarrow> sql_expr \<Rightarrow> bool option" where
  "sql_eval r (Cmp op a b) = sql_compare (op_holds op) (term_value r a) (term_value r b)"
| "sql_eval r (IsNull c) = Some (r c = SqlNull)"
| "sql_eval r (IsNotNull c) = Some (r c \<noteq> SqlNull)"
| "sql_eval r (Differs c l) = text_test (\<lambda>s. s \<noteq> l) (r c)"
| "sql_eval r (NotIn c ls) = text_test (\<lambda>s. s \<notin> set ls) (r c)"
| "sql_eval r (Digits c lo hi) =
     text_test (\<lambda>s. lo \<le> length s \<and> length s \<le> hi \<and> list_all (\<lambda>d. d \<in> set ''0123456789'') s) (r c)"
| "sql_eval r (Or a b) = sql_or (sql_eval r a) (sql_eval r b)"
| "sql_eval r (And a b) = sql_and (sql_eval r a) (sql_eval r b)"

text \<open>A check is passed unless it is false.\<close>

definition passes :: "sql_row \<Rightarrow> sql_expr \<Rightarrow> bool" where
  "passes r e = (sql_eval r e \<noteq> Some False)"

text \<open>The text of an expression, in the way the sources write it.\<close>

definition quoted :: "string \<Rightarrow> string" where
  "quoted s = CHR 0x27 # s @ [CHR 0x27]"

fun decimal :: "nat \<Rightarrow> string" where
  "decimal n = (if n < 10 then [] else decimal (n div 10)) @ [char_of (48 + n mod 10)]"

declare decimal.simps [simp del]

fun comma_list :: "string list \<Rightarrow> string" where
  "comma_list [] = []"
| "comma_list [s] = s"
| "comma_list (s # ss) = s @ '', '' @ comma_list ss"

fun term_text :: "sql_term \<Rightarrow> string" where
  "term_text (Col c) = c"
| "term_text (LengthBtrim c) = ''length(btrim('' @ c @ ''))''"
| "term_text (Lit n) = decimal (nat n)"

fun op_text :: "sql_op \<Rightarrow> string" where
  "op_text Above = '' > ''"
| "op_text AtLeast = '' >= ''"
| "op_text AtMost = '' <= ''"

fun sql_text :: "sql_expr \<Rightarrow> string" where
  "sql_text (Cmp op a b) = term_text a @ op_text op @ term_text b"
| "sql_text (IsNull c) = c @ '' IS NULL''"
| "sql_text (IsNotNull c) = c @ '' IS NOT NULL''"
| "sql_text (Differs c l) = c @ '' <> '' @ quoted l"
| "sql_text (NotIn c ls) = c @ '' NOT IN ('' @ comma_list (map quoted ls) @ '')''"
| "sql_text (Digits c lo hi) = c @ '' ~ '' @ quoted (''^[0-9]{'' @ decimal lo @ '','' @ decimal hi @ ''}$'')"
| "sql_text (Or a b) = sql_text a @ '' OR '' @ sql_text b"
| "sql_text (And a b) = sql_text a @ '' AND '' @ sql_text b"

definition schema_checks :: "sql_expr list" where
  "schema_checks =
     map (\<lambda>c. Cmp Above (LengthBtrim c) (Lit 0))
       [''name'', ''timezone'', ''canonical_name'', ''unit'', ''source'', ''idempotency_key'', ''blob_name'', ''content_type''] @
     [Or (IsNull ''typical_shelf_life_days'') (Cmp Above (Col ''typical_shelf_life_days'') (Lit 0)),
      Or (IsNull ''gtin'') (Digits ''gtin'' 8 14),
      Or (Cmp AtLeast (Col ''quantity_delta'') (Lit 0)) (Differs ''event_type'' ''purchased''),
      Or (Cmp AtMost (Col ''quantity_delta'') (Lit 0)) (NotIn ''event_type'' [''consumed'', ''discarded'']),
      Or (IsNull ''date_label_type'') (IsNotNull ''printed_date''),
      And (Cmp AtLeast (Col ''confidence'') (Lit 0)) (Cmp AtMost (Col ''confidence'') (Lit 1)),
      Cmp Above (Col ''event_count'') (Lit 0),
      Cmp Above (Col ''expires_at'') (Col ''requested_at''),
      Or (IsNull ''confirmed_at'') (Cmp AtLeast (Col ''confirmed_at'') (Col ''requested_at''))]"

definition check_meaning :: "string \<Rightarrow> sql_expr option" where
  "check_meaning sql = find (\<lambda>e. sql_text e = sql) schema_checks"

lemma check_meaning_text: "check_meaning sql = Some e \<Longrightarrow> sql_text e = sql"
  by (auto simp: check_meaning_def find_Some_iff)

subsection \<open>What a catalogue says of the rows\<close>

type_synonym sql_rows = "string \<Rightarrow> sql_row list"

definition is_whole :: "rat \<Rightarrow> bool" where
  "is_whole x = (of_int \<lfloor>x\<rfloor> = x)"

fun type_holds :: "(string \<times> string list) list \<Rightarrow> sql_type \<Rightarrow> sql_value \<Rightarrow> bool" where
  "type_holds types UuidType (SqlUuid _) = True"
| "type_holds types (Varchar n) (SqlText s) = (CHR 0x00 \<notin> set s \<and> length s \<le> n)"
| "type_holds types Timestamptz (SqlTime _) = True"
| "type_holds types (Numeric p sc) (SqlNum x) = (is_whole (x * 10 ^ sc) \<and> \<bar>x * 10 ^ sc\<bar> < 10 ^ p)"
| "type_holds types Jsonb (SqlJson j) = json_storable j"
| "type_holds types Integer32 (SqlNum x) = (is_whole x \<and> fits_int32 \<lfloor>x\<rfloor>)"
| "type_holds types Float8 (SqlNum _) = True"
| "type_holds types Date (SqlDate _) = True"
| "type_holds types (EnumType t) (SqlText l) =
     (case map_of types t of None \<Rightarrow> False | Some labels \<Rightarrow> l \<in> set labels)"
| "type_holds types _ _ = False"

definition column_holds :: "(string \<times> string list) list \<Rightarrow> sql_row \<Rightarrow> column \<Rightarrow> bool" where
  "column_holds types r col = (if r (cl_name col) = SqlNull then cl_nullable col else type_holds types (cl_type col) (r (cl_name col)))"

definition unique_on :: "bool \<Rightarrow> string list \<Rightarrow> sql_row list \<Rightarrow> bool" where
  "unique_on nulls_too cols rows =
     distinct (filter (\<lambda>k. nulls_too \<or> SqlNull \<notin> set k) (map (\<lambda>r. map r cols) rows))"

fun constraint_holds :: "sql_rows \<Rightarrow> string \<Rightarrow> table_constraint \<Rightarrow> bool" where
  "constraint_holds rows n (PrimaryKey _ cols) =
     (unique_on False cols (rows n) \<and> list_all (\<lambda>r. SqlNull \<notin> set (map r cols)) (rows n))"
| "constraint_holds rows n (Unique _ cols nulls_not_distinct) = unique_on nulls_not_distinct cols (rows n)"
| "constraint_holds rows n (ForeignKey _ cols table refs _) =
     list_all (\<lambda>r. SqlNull \<in> set (map r cols) \<or> map r cols \<in> set (map (\<lambda>q. map q refs) (rows table))) (rows n)"
| "constraint_holds rows n (Check _ sql) =
     (case check_meaning sql of None \<Rightarrow> False | Some e \<Rightarrow> list_all (\<lambda>r. passes r e) (rows n))"

definition index_holds :: "sql_rows \<Rightarrow> string \<Rightarrow> index_def \<Rightarrow> bool" where
  "index_holds rows n i = (if ix_unique i then ix_where i = None \<and> unique_on False (ix_columns i) (rows n) else True)"

definition table_holds :: "catalogue \<Rightarrow> sql_rows \<Rightarrow> string \<times> table_def \<Rightarrow> bool" where
  "table_holds c rows nt =
     (list_all (\<lambda>r. list_all (column_holds (ct_types c) r) (tb_columns (snd nt))) (rows (fst nt)) \<and>
      list_all (constraint_holds rows (fst nt)) (tb_constraints (snd nt)) \<and>
      list_all (index_holds rows (fst nt)) (tb_indexes (snd nt)))"

definition satisfies :: "catalogue \<Rightarrow> sql_rows \<Rightarrow> bool" where
  "satisfies c rows = list_all (table_holds c rows) (ct_tables c)"

end
