(* ===== verification/Schema_Declared.thy ===== *)
theory Schema_Declared
  imports Sql_Schema
begin

section \<open>The schema, as the models declare it and as the migrations create it\<close>

text \<open>
  The tables are declared twice: by the classes of \<^verbatim>\<open>src/kitchensense/models\<close> on the metadata of \<^verbatim>\<open>db/base.py\<close>, which the service maps its rows with, and
  by the operations of \<^verbatim>\<open>alembic/versions\<close>, which build what is deployed.  Here are both, each as the source writes it: a model's columns
  take their type from the column or from the annotation, are nullable when the annotation is optional, and their keys are named by the
  naming convention; a migration spells everything out, except that a CHECK constraint's name goes through the
  convention too.
\<close>

subsection \<open>Names\<close>

definition NAMING_CONVENTION :: "(string \<times> string) list" where
  "NAMING_CONVENTION =
     [(''ix'', ''ix_%(table_name)s_%(column_0_N_name)s''),
      (''uq'', ''uq_%(table_name)s_%(column_0_N_name)s''),
      (''ck'', ''ck_%(table_name)s_%(constraint_name)s''),
      (''fk'', ''fk_%(table_name)s_%(column_0_name)s_%(referred_table_name)s''),
      (''pk'', ''pk_%(table_name)s'')]"

datatype schema_error = UnknownToken string | NameTooLong string | UnmappedType string | Refused ddl_error

definition contains :: "string \<Rightarrow> string \<Rightarrow> bool" where
  "contains s pat = list_ex (\<lambda>i. take (length pat) (drop i s) = pat) [0..<Suc (length s)]"

definition or_error :: "'e \<Rightarrow> 'a option \<Rightarrow> 'e + 'a" where
  "or_error e x = (case x of None \<Rightarrow> Inl e | Some y \<Rightarrow> Inr y)"

lemma length_dropWhile_drop:
  "length (dropWhile P (drop n s)) \<le> length s"
  by (metis diff_le_self le_trans length_drop length_dropWhile_le)

text \<open>
  Python's \<^verbatim>\<open>template % mapping\<close>, for the conversion \<^verbatim>\<open>%(key)s\<close>; a key that is not there raises \<^verbatim>\<open>KeyError\<close>, another conversion \<^verbatim>\<open>ValueError\<close>.
\<close>

function percent_format :: "(string \<Rightarrow> string option) \<Rightarrow> string \<Rightarrow> string option" where
  "percent_format env [] = Some []"
| "percent_format env (c # s) =
     (if c \<noteq> CHR ''%'' then map_option (Cons c) (percent_format env s)
      else if take 1 s = ''%'' then map_option (Cons c) (percent_format env (drop 1 s))
      else if take 1 s = ''('' then
        (let key = takeWhile (\<lambda>x. x \<noteq> CHR '')'') (drop 1 s);
             rest = drop 1 (dropWhile (\<lambda>x. x \<noteq> CHR '')'') (drop 1 s))
         in if take 1 rest \<noteq> ''s'' then None
            else case env key of
                   None \<Rightarrow> None
                 | Some v \<Rightarrow> map_option (append v) (percent_format env (drop 1 rest)))
      else None)"
  by pat_completeness auto
termination
  by (relation "measure (length \<circ> snd)") (auto simp: less_Suc_eq_le intro: le_trans [OF diff_le_self length_dropWhile_drop])

text \<open>
  SQLAlchemy leaves a given name alone unless the template mentions it; a name longer than 63 characters it refuses or cuts off, which is an
  error here.
\<close>

definition conventional_name ::
  "string \<Rightarrow> string \<Rightarrow> string option \<Rightarrow> string list \<Rightarrow> string \<Rightarrow> schema_error + string" where
  "conventional_name kind table given cols ref =
     bind_sum
       (case map_of NAMING_CONVENTION kind of
          None \<Rightarrow> Inl (UnknownToken kind)
        | Some template \<Rightarrow>
            (case given of
               Some name \<Rightarrow>
                 if \<not> contains template ''%(constraint_name)s'' then Inr name
                 else or_error (UnknownToken template)
                   (percent_format (map_of [(''table_name'', table), (''constraint_name'', name)]) template)
             | None \<Rightarrow>
                 or_error (UnknownToken template)
                   (percent_format (map_of [(''table_name'', table), (''column_0_name'', hd cols),
                      (''column_0_N_name'', foldr (\<lambda>c s. if s = [] then c else c @ ''_'' @ s) cols []),
                      (''referred_table_name'', ref)]) template)))
       (\<lambda>name. if length name \<le> 63 then Inr name else Inl (NameTooLong name))"

subsection \<open>The models\<close>

datatype py_type = PyUuid | PyStr | PyInt | PyFloat | PyDate | PyDatetime | PyDecimal | PyDict | PyEnum

datatype column_arg = ColumnName string | IsPrimary | References string string | ServerDefault string

text \<open>An attribute, its annotation and whether that is optional, the type given to \<^verbatim>\<open>mapped_column\<close>, and its other arguments.\<close>

datatype mapped = Mapped (mp_attribute: string) (mp_annotation: py_type) (mp_optional: bool) (mp_type: "sql_type option") (mp_args: "column_arg list")

datatype table_arg =
    ArgCheck string string
  | ArgUnique string "string list" bool
  | ArgIndex string "string list" bool "string option"

record orm_class =
  om_table :: string
  om_columns :: "mapped list"
  om_args :: "table_arg list"

fun type_annotation_map :: "py_type \<Rightarrow> sql_type option" where
  "type_annotation_map PyDatetime = Some Timestamptz"
| "type_annotation_map PyDecimal = Some (Numeric 14 3)"
| "type_annotation_map PyDict = Some Jsonb"
| "type_annotation_map _ = None"

text \<open>\<^verbatim>\<open>_values\<close>, and the three enumerations bound to the metadata.\<close>

definition enum_values :: "('a \<Rightarrow> string) \<Rightarrow> 'a list \<Rightarrow> string list" where
  "enum_values value members = map value members"

definition EVENT_TYPE_ENUM :: "string \<times> string list" where
  "EVENT_TYPE_ENUM =
     (''inventory_event_type'', enum_values event_type_value [PURCHASED, OPENED, CONSUMED, DISCARDED, CORRECTED, MOVED])"

definition DATE_LABEL_TYPE_ENUM :: "string \<times> string list" where
  "DATE_LABEL_TYPE_ENUM = (''date_label_type'', enum_values date_label_value [USE_BY, BEST_BEFORE])"

definition STORAGE_LOCATION_ENUM :: "string \<times> string list" where
  "STORAGE_LOCATION_ENUM =
     (''storage_location'', enum_values storage_location_value [PANTRY, FRIDGE, FREEZER, COUNTER, OTHER])"

definition Household :: orm_class where
  "Household =
     \<lparr>om_table = ''households'',
      om_columns =
       [Mapped ''id'' PyUuid False (Some UuidType) [IsPrimary, ServerDefault ''gen_random_uuid()''],
        Mapped ''name'' PyStr False (Some (Varchar 200)) [],
        Mapped ''timezone'' PyStr False (Some (Varchar 64)) [],
        Mapped ''created_at'' PyDatetime False None [ServerDefault ''now()'']],
      om_args =
       [ArgCheck ''name_not_blank'' ''length(btrim(name)) > 0'',
        ArgCheck ''timezone_not_blank'' ''length(btrim(timezone)) > 0'']\<rparr>"

definition CanonicalProduct :: orm_class where
  "CanonicalProduct =
     \<lparr>om_table = ''canonical_products'',
      om_columns =
       [Mapped ''id'' PyUuid False (Some UuidType) [IsPrimary, ServerDefault ''gen_random_uuid()''],
        Mapped ''canonical_name'' PyStr False (Some (Varchar 200)) [],
        Mapped ''brand'' PyStr True (Some (Varchar 120)) [],
        Mapped ''category'' PyStr True (Some (Varchar 80)) [],
        Mapped ''default_unit'' PyStr False (Some (Varchar 24)) [],
        Mapped ''typical_shelf_life_days'' PyInt True (Some Integer32) [],
        Mapped ''gtin'' PyStr True (Some (Varchar 14)) [],
        Mapped ''attributes'' PyDict False None [ServerDefault (quoted ''{}'')],
        Mapped ''created_at'' PyDatetime False None [ServerDefault ''now()'']],
      om_args =
       [ArgCheck ''canonical_name_not_blank'' ''length(btrim(canonical_name)) > 0'',
        ArgCheck ''shelf_life_positive'' ''typical_shelf_life_days IS NULL OR typical_shelf_life_days > 0'',
        ArgCheck ''gtin_numeric'' (''gtin IS NULL OR gtin ~ '' @ quoted ''^[0-9]{8,14}$''),
        ArgIndex ''uq_canonical_products_gtin'' [''gtin''] True None,
        ArgIndex ''ix_canonical_products_category'' [''category''] False None]\<rparr>"

definition InventoryEventRow :: orm_class where
  "InventoryEventRow =
     \<lparr>om_table = ''inventory_events'',
      om_columns =
       [Mapped ''id'' PyUuid False (Some UuidType) [IsPrimary, ServerDefault ''gen_random_uuid()''],
        Mapped ''household_id'' PyUuid False (Some UuidType) [References ''households.id'' ''RESTRICT''],
        Mapped ''canonical_product_id'' PyUuid False (Some UuidType) [References ''canonical_products.id'' ''RESTRICT''],
        Mapped ''event_type'' PyEnum False (Some (EnumType ''inventory_event_type'')) [],
        Mapped ''quantity_delta'' PyDecimal False None [],
        Mapped ''unit'' PyStr False (Some (Varchar 24)) [],
        Mapped ''storage_location'' PyEnum False (Some (EnumType ''storage_location'')) [],
        Mapped ''printed_date'' PyDate True (Some Date) [],
        Mapped ''date_label_type'' PyEnum True (Some (EnumType ''date_label_type'')) [],
        Mapped ''occurred_at'' PyDatetime False None [],
        Mapped ''recorded_at'' PyDatetime False None [ServerDefault ''now()''],
        Mapped ''source'' PyStr False (Some (Varchar 64)) [],
        Mapped ''confidence'' PyFloat False (Some Float8) [ServerDefault ''1.0''],
        Mapped ''idempotency_key'' PyStr False (Some (Varchar 200)) [],
        Mapped ''event_metadata'' PyDict False None [ColumnName ''metadata'', ServerDefault (quoted ''{}'')]],
      om_args =
       [ArgCheck ''purchased_delta_not_negative'' (''quantity_delta >= 0 OR event_type <> '' @ quoted ''purchased''),
        ArgCheck ''removal_delta_not_positive'' (''quantity_delta <= 0 OR event_type NOT IN ('' @ quoted ''consumed'' @ '', '' @
            quoted ''discarded'' @ '')''),
        ArgCheck ''label_type_needs_printed_date'' ''date_label_type IS NULL OR printed_date IS NOT NULL'',
        ArgCheck ''confidence_is_a_probability'' ''confidence >= 0 AND confidence <= 1'',
        ArgCheck ''unit_not_blank'' ''length(btrim(unit)) > 0'',
        ArgCheck ''source_not_blank'' ''length(btrim(source)) > 0'',
        ArgCheck ''idempotency_key_not_blank'' ''length(btrim(idempotency_key)) > 0'',
        ArgIndex ''uq_inventory_events_idempotency_key'' [''idempotency_key''] True None,
        ArgIndex ''ix_inventory_events_household_id_recorded_at_occurred_at''
            [''household_id'', ''recorded_at'', ''occurred_at''] False None,
        ArgIndex ''ix_inventory_events_household_id_occurred_at_recorded_at''
            [''household_id'', ''occurred_at'', ''recorded_at''] False None,
        ArgIndex ''ix_inventory_events_household_product_occurred_at''
            [''household_id'', ''canonical_product_id'', ''occurred_at''] False None]\<rparr>"

definition InventorySnapshotRow :: orm_class where
  "InventorySnapshotRow =
     \<lparr>om_table = ''inventory_snapshot'',
      om_columns =
       [Mapped ''id'' PyUuid False (Some UuidType) [IsPrimary, ServerDefault ''gen_random_uuid()''],
        Mapped ''household_id'' PyUuid False (Some UuidType) [References ''households.id'' ''CASCADE''],
        Mapped ''canonical_product_id'' PyUuid False (Some UuidType) [References ''canonical_products.id'' ''RESTRICT''],
        Mapped ''storage_location'' PyEnum False (Some (EnumType ''storage_location'')) [],
        Mapped ''unit'' PyStr False (Some (Varchar 24)) [],
        Mapped ''printed_date'' PyDate True (Some Date) [],
        Mapped ''date_label_type'' PyEnum True (Some (EnumType ''date_label_type'')) [],
        Mapped ''quantity'' PyDecimal False None [],
        Mapped ''purchased_quantity'' PyDecimal False None [],
        Mapped ''consumed_quantity'' PyDecimal False None [],
        Mapped ''discarded_quantity'' PyDecimal False None [],
        Mapped ''event_count'' PyInt False (Some Integer32) [],
        Mapped ''first_occurred_at'' PyDatetime False None [],
        Mapped ''last_occurred_at'' PyDatetime False None [],
        Mapped ''last_recorded_at'' PyDatetime False None [],
        Mapped ''opened_at'' PyDatetime True None [],
        Mapped ''as_of'' PyDatetime False None [],
        Mapped ''computed_at'' PyDatetime False None [ServerDefault ''now()'']],
      om_args =
       [ArgUnique ''uq_inventory_snapshot_lot''
           [''household_id'', ''canonical_product_id'', ''storage_location'', ''unit'', ''printed_date'', ''date_label_type''] True,
        ArgCheck ''event_count_positive'' ''event_count > 0'',
        ArgCheck ''label_type_needs_printed_date'' ''date_label_type IS NULL OR printed_date IS NOT NULL'',
        ArgIndex ''ix_inventory_snapshot_household_id_as_of'' [''household_id'', ''as_of''] False None,
        ArgIndex ''ix_inventory_snapshot_household_id_printed_date''
            [''household_id'', ''printed_date''] False (Some ''quantity > 0'')]\<rparr>"

definition ReceiptUploadRow :: orm_class where
  "ReceiptUploadRow =
     \<lparr>om_table = ''receipt_uploads'',
      om_columns =
       [Mapped ''id'' PyUuid False (Some UuidType) [IsPrimary, ServerDefault ''gen_random_uuid()''],
        Mapped ''household_id'' PyUuid False (Some UuidType) [References ''households.id'' ''RESTRICT''],
        Mapped ''blob_name'' PyStr False (Some (Varchar 400)) [],
        Mapped ''content_type'' PyStr False (Some (Varchar 128)) [],
        Mapped ''requested_at'' PyDatetime False None [],
        Mapped ''expires_at'' PyDatetime False None [],
        Mapped ''confirmed_at'' PyDatetime True None []],
      om_args =
       [ArgUnique ''uq_receipt_uploads_blob_name'' [''blob_name''] False,
        ArgCheck ''blob_name_not_blank'' ''length(btrim(blob_name)) > 0'',
        ArgCheck ''content_type_not_blank'' ''length(btrim(content_type)) > 0'',
        ArgCheck ''expiry_after_request'' ''expires_at > requested_at'',
        ArgCheck ''confirmation_after_request'' ''confirmed_at IS NULL OR confirmed_at >= requested_at'',
        ArgIndex ''ix_receipt_uploads_household_id_requested_at'' [''household_id'', ''requested_at''] False None,
        ArgIndex ''ix_receipt_uploads_unconfirmed'' [''household_id'', ''expires_at''] False (Some ''confirmed_at IS NULL'')]\<rparr>"

definition orm_classes :: "orm_class list" where
  "orm_classes = [CanonicalProduct, Household, InventoryEventRow, InventorySnapshotRow, ReceiptUploadRow]"

subsection \<open>What the models declare\<close>

definition arg_of :: "(column_arg \<Rightarrow> 'a list) \<Rightarrow> mapped \<Rightarrow> 'a option" where
  "arg_of f m = (case concat (map f (mp_args m)) of [] \<Rightarrow> None | x # _ \<Rightarrow> Some x)"

definition mapped_name :: "mapped \<Rightarrow> string" where
  "mapped_name m =
     (case arg_of (\<lambda>a. case a of ColumnName n \<Rightarrow> [n] | _ \<Rightarrow> []) m of None \<Rightarrow> mp_attribute m | Some n \<Rightarrow> n)"

definition is_primary :: "mapped \<Rightarrow> bool" where
  "is_primary m = List.member (mp_args m) IsPrimary"

definition mapped_column :: "mapped \<Rightarrow> schema_error + column" where
  "mapped_column m =
     (case (case mp_type m of None \<Rightarrow> type_annotation_map (mp_annotation m) | t \<Rightarrow> t) of
        None \<Rightarrow> Inl (UnmappedType (mp_attribute m))
      | Some ty \<Rightarrow>
          Inr \<lparr>cl_name = mapped_name m, cl_type = ty, cl_nullable = (mp_optional m \<and> \<not> is_primary m),
               cl_default = arg_of (\<lambda>a. case a of ServerDefault d \<Rightarrow> [d] | _ \<Rightarrow> []) m\<rparr>)"

text \<open>A foreign key's target is written \<^verbatim>\<open>table.column\<close>.\<close>

definition foreign_key :: "string \<Rightarrow> mapped \<Rightarrow> (schema_error + table_constraint) list" where
  "foreign_key table m =
     (case arg_of (\<lambda>a. case a of References target ondelete \<Rightarrow> [(target, ondelete)] | _ \<Rightarrow> []) m of
        None \<Rightarrow> []
      | Some (target, ondelete) \<Rightarrow>
          (let ref = takeWhile (\<lambda>c. c \<noteq> CHR ''.'') target;
               col = drop 1 (dropWhile (\<lambda>c. c \<noteq> CHR ''.'') target)
           in [map_sum id (\<lambda>n. ForeignKey n [mapped_name m] ref [col] ondelete)
                (conventional_name ''fk'' table None [mapped_name m] ref)]))"

fun arg_constraint :: "string \<Rightarrow> table_arg \<Rightarrow> (schema_error + table_constraint) list" where
  "arg_constraint table (ArgCheck name sql) =
     [map_sum id (\<lambda>n. Check n sql) (conventional_name ''ck'' table (Some name) [] [])]"
| "arg_constraint table (ArgUnique name cols nulls) =
     [map_sum id (\<lambda>n. Unique n cols nulls) (conventional_name ''uq'' table (Some name) cols [])]"
| "arg_constraint table (ArgIndex _ _ _ _) = []"

fun arg_index :: "string \<Rightarrow> table_arg \<Rightarrow> (schema_error + index_def) list" where
  "arg_index table (ArgIndex name cols uniq cond) =
     [map_sum id (\<lambda>n. \<lparr>ix_name = n, ix_columns = cols, ix_unique = uniq, ix_where = cond\<rparr>)
        (conventional_name ''ix'' table (Some name) cols [])]"
| "arg_index table _ = []"

fun all_or_error :: "('e + 'a) list \<Rightarrow> 'e + 'a list" where
  "all_or_error [] = Inr []"
| "all_or_error (x # xs) = bind_sum x (\<lambda>y. map_sum id (Cons y) (all_or_error xs))"

definition declared_table :: "orm_class \<Rightarrow> schema_error + string \<times> table_def" where
  "declared_table om =
     bind_sum (all_or_error (map mapped_column (om_columns om))) (\<lambda>cols.
     bind_sum (all_or_error
         (map_sum id (\<lambda>n. PrimaryKey n (map mapped_name (filter is_primary (om_columns om))))
            (conventional_name ''pk'' (om_table om) None [] []) #
          concat (map (foreign_key (om_table om)) (om_columns om)) @
          concat (map (arg_constraint (om_table om)) (om_args om)))) (\<lambda>cons.
     bind_sum (all_or_error (concat (map (arg_index (om_table om)) (om_args om)))) (\<lambda>ixs.
     Inr (om_table om, \<lparr>tb_columns = cols, tb_constraints = cons, tb_indexes = ixs\<rparr>))))"

definition metadata_tables :: "schema_error + (string \<times> table_def) list" where
  "metadata_tables = all_or_error (map declared_table orm_classes)"

definition metadata_types :: "(string \<times> string list) list" where
  "metadata_types = [EVENT_TYPE_ENUM, DATE_LABEL_TYPE_ENUM, STORAGE_LOCATION_ENUM]"

subsection \<open>The migrations\<close>

datatype migration_op = Op ddl | CreateTableOp string "column list" "table_constraint list"

definition sa_column :: "string \<Rightarrow> sql_type \<Rightarrow> bool \<Rightarrow> string option \<Rightarrow> column" where
  "sa_column name ty nullable server_default =
     \<lparr>cl_name = name, cl_type = ty, cl_nullable = nullable, cl_default = server_default\<rparr>"

text \<open>Alembic builds its tables on the metadata of the target, whose convention names their checks.\<close>

fun op_constraint :: "string \<Rightarrow> table_constraint \<Rightarrow> schema_error + table_constraint" where
  "op_constraint table (Check name sql) =
     map_sum id (\<lambda>n. Check n sql) (conventional_name ''ck'' table (Some name) [] [])"
| "op_constraint table k = Inr k"

fun run_op :: "migration_op \<Rightarrow> catalogue \<Rightarrow> schema_error + catalogue" where
  "run_op (Op d) c = map_sum Refused id (run_ddl d c)"
| "run_op (CreateTableOp n cols cons) c =
     bind_sum (all_or_error (map (op_constraint n) cons)) (\<lambda>cons. map_sum Refused id (run_ddl (CreateTable n cols cons) c))"

fun run_ops :: "migration_op list \<Rightarrow> catalogue \<Rightarrow> schema_error + catalogue" where
  "run_ops [] c = Inr c"
| "run_ops (d # ds) c = bind_sum (run_op d c) (run_ops ds)"

definition create_types :: "migration_op list" where
  "create_types =
     [Op (CreateType ''inventory_event_type'' [''purchased'', ''opened'', ''consumed'', ''discarded'', ''corrected'', ''moved'']),
      Op (CreateType ''date_label_type'' [''use_by'', ''best_before'']),
      Op (CreateType ''storage_location'' [''pantry'', ''fridge'', ''freezer'', ''counter'', ''other''])]"

definition create_households :: "migration_op list" where
  "create_households =
     [CreateTableOp ''households''
        [sa_column ''id'' UuidType False (Some ''gen_random_uuid()''),
         sa_column ''name'' (Varchar 200) False None,
         sa_column ''timezone'' (Varchar 64) False None,
         sa_column ''created_at'' Timestamptz False (Some ''now()'')]
        [PrimaryKey ''pk_households'' [''id''],
         Check ''name_not_blank'' ''length(btrim(name)) > 0'',
         Check ''timezone_not_blank'' ''length(btrim(timezone)) > 0'']]"

definition create_canonical_products :: "migration_op list" where
  "create_canonical_products =
     [CreateTableOp ''canonical_products''
        [sa_column ''id'' UuidType False (Some ''gen_random_uuid()''),
         sa_column ''canonical_name'' (Varchar 200) False None,
         sa_column ''brand'' (Varchar 120) True None,
         sa_column ''category'' (Varchar 80) True None,
         sa_column ''default_unit'' (Varchar 24) False None,
         sa_column ''typical_shelf_life_days'' Integer32 True None,
         sa_column ''gtin'' (Varchar 14) True None,
         sa_column ''attributes'' Jsonb False (Some (quoted ''{}'')),
         sa_column ''created_at'' Timestamptz False (Some ''now()'')]
        [PrimaryKey ''pk_canonical_products'' [''id''],
         Check ''canonical_name_not_blank'' ''length(btrim(canonical_name)) > 0'',
         Check ''shelf_life_positive'' ''typical_shelf_life_days IS NULL OR typical_shelf_life_days > 0'',
         Check ''gtin_numeric'' (''gtin IS NULL OR gtin ~ '' @ quoted ''^[0-9]{8,14}$'')],
      Op (CreateIndex ''uq_canonical_products_gtin'' ''canonical_products'' [''gtin''] True None),
      Op (CreateIndex ''ix_canonical_products_category'' ''canonical_products'' [''category''] False None)]"

definition create_inventory_events :: "migration_op list" where
  "create_inventory_events =
     [CreateTableOp ''inventory_events''
        [sa_column ''id'' UuidType False (Some ''gen_random_uuid()''),
         sa_column ''household_id'' UuidType False None,
         sa_column ''canonical_product_id'' UuidType False None,
         sa_column ''event_type'' (EnumType ''inventory_event_type'') False None,
         sa_column ''quantity_delta'' (Numeric 14 3) False None,
         sa_column ''unit'' (Varchar 24) False None,
         sa_column ''storage_location'' (EnumType ''storage_location'') False None,
         sa_column ''printed_date'' Date True None,
         sa_column ''date_label_type'' (EnumType ''date_label_type'') True None,
         sa_column ''occurred_at'' Timestamptz False None,
         sa_column ''recorded_at'' Timestamptz False (Some ''now()''),
         sa_column ''source'' (Varchar 64) False None,
         sa_column ''confidence'' Float8 False (Some ''1.0''),
         sa_column ''idempotency_key'' (Varchar 200) False None,
         sa_column ''metadata'' Jsonb False (Some (quoted ''{}''))]
        [PrimaryKey ''pk_inventory_events'' [''id''],
         ForeignKey ''fk_inventory_events_household_id_households'' [''household_id''] ''households'' [''id''] ''RESTRICT'',
         ForeignKey ''fk_inventory_events_canonical_product_id_canonical_products''
             [''canonical_product_id''] ''canonical_products'' [''id''] ''RESTRICT'',
         Check ''purchased_delta_not_negative'' (''quantity_delta >= 0 OR event_type <> '' @ quoted ''purchased''),
         Check ''removal_delta_not_positive'' (''quantity_delta <= 0 OR event_type NOT IN ('' @ quoted ''consumed'' @ '', '' @
             quoted ''discarded'' @ '')''),
         Check ''label_type_needs_printed_date'' ''date_label_type IS NULL OR printed_date IS NOT NULL'',
         Check ''confidence_is_a_probability'' ''confidence >= 0 AND confidence <= 1'',
         Check ''unit_not_blank'' ''length(btrim(unit)) > 0'',
         Check ''source_not_blank'' ''length(btrim(source)) > 0'',
         Check ''idempotency_key_not_blank'' ''length(btrim(idempotency_key)) > 0''],
      Op (CreateIndex ''uq_inventory_events_idempotency_key'' ''inventory_events'' [''idempotency_key''] True None),
      Op (CreateIndex ''ix_inventory_events_household_id_recorded_at_occurred_at'' ''inventory_events''
          [''household_id'', ''recorded_at'', ''occurred_at''] False None),
      Op (CreateIndex ''ix_inventory_events_household_id_occurred_at_recorded_at'' ''inventory_events''
          [''household_id'', ''occurred_at'', ''recorded_at''] False None),
      Op (CreateIndex ''ix_inventory_events_household_product_occurred_at'' ''inventory_events''
          [''household_id'', ''canonical_product_id'', ''occurred_at''] False None),
      Op (CreateFunction ''kitchensense_reject_mutation''),
      Op (CreateTrigger ''inventory_events_no_update'' ''UPDATE'' ''inventory_events'' ''kitchensense_reject_mutation''),
      Op (CreateTrigger ''inventory_events_no_delete'' ''DELETE'' ''inventory_events'' ''kitchensense_reject_mutation''),
      Op (CreateTrigger ''inventory_events_no_truncate'' ''TRUNCATE'' ''inventory_events'' ''kitchensense_reject_mutation'')]"

definition create_inventory_snapshot :: "migration_op list" where
  "create_inventory_snapshot =
     [CreateTableOp ''inventory_snapshot''
        [sa_column ''id'' UuidType False (Some ''gen_random_uuid()''),
         sa_column ''household_id'' UuidType False None,
         sa_column ''canonical_product_id'' UuidType False None,
         sa_column ''storage_location'' (EnumType ''storage_location'') False None,
         sa_column ''unit'' (Varchar 24) False None,
         sa_column ''printed_date'' Date True None,
         sa_column ''date_label_type'' (EnumType ''date_label_type'') True None,
         sa_column ''quantity'' (Numeric 14 3) False None,
         sa_column ''purchased_quantity'' (Numeric 14 3) False None,
         sa_column ''consumed_quantity'' (Numeric 14 3) False None,
         sa_column ''discarded_quantity'' (Numeric 14 3) False None,
         sa_column ''event_count'' Integer32 False None,
         sa_column ''first_occurred_at'' Timestamptz False None,
         sa_column ''last_occurred_at'' Timestamptz False None,
         sa_column ''last_recorded_at'' Timestamptz False None,
         sa_column ''opened_at'' Timestamptz True None,
         sa_column ''as_of'' Timestamptz False None,
         sa_column ''computed_at'' Timestamptz False (Some ''now()'')]
        [PrimaryKey ''pk_inventory_snapshot'' [''id''],
         ForeignKey ''fk_inventory_snapshot_household_id_households'' [''household_id''] ''households'' [''id''] ''CASCADE'',
         ForeignKey ''fk_inventory_snapshot_canonical_product_id_canonical_products''
             [''canonical_product_id''] ''canonical_products'' [''id''] ''RESTRICT'',
         Unique ''uq_inventory_snapshot_lot''
             [''household_id'', ''canonical_product_id'', ''storage_location'', ''unit'', ''printed_date'', ''date_label_type''] True,
         Check ''event_count_positive'' ''event_count > 0'',
         Check ''label_type_needs_printed_date'' ''date_label_type IS NULL OR printed_date IS NOT NULL''],
      Op (CreateIndex ''ix_inventory_snapshot_household_id_as_of'' ''inventory_snapshot'' [''household_id'', ''as_of''] False None),
      Op (CreateIndex ''ix_inventory_snapshot_household_id_printed_date'' ''inventory_snapshot''
          [''household_id'', ''printed_date''] False (Some ''quantity > 0''))]"

definition upgrade_0001_ops :: "migration_op list" where
  "upgrade_0001_ops =
     create_types @ create_households @ create_canonical_products @ create_inventory_events @ create_inventory_snapshot"

definition downgrade_0001_ops :: "migration_op list" where
  "downgrade_0001_ops =
     [Op (DropIndex ''ix_inventory_snapshot_household_id_printed_date'' ''inventory_snapshot''),
      Op (DropIndex ''ix_inventory_snapshot_household_id_as_of'' ''inventory_snapshot''),
      Op (DropTable ''inventory_snapshot''),
      Op (DropTrigger ''inventory_events_no_truncate'' ''inventory_events''),
      Op (DropTrigger ''inventory_events_no_delete'' ''inventory_events''),
      Op (DropTrigger ''inventory_events_no_update'' ''inventory_events''),
      Op (DropFunction ''kitchensense_reject_mutation''),
      Op (DropIndex ''ix_inventory_events_household_product_occurred_at'' ''inventory_events''),
      Op (DropIndex ''ix_inventory_events_household_id_occurred_at_recorded_at'' ''inventory_events''),
      Op (DropIndex ''ix_inventory_events_household_id_recorded_at_occurred_at'' ''inventory_events''),
      Op (DropIndex ''uq_inventory_events_idempotency_key'' ''inventory_events''),
      Op (DropTable ''inventory_events''),
      Op (DropIndex ''ix_canonical_products_category'' ''canonical_products''),
      Op (DropIndex ''uq_canonical_products_gtin'' ''canonical_products''),
      Op (DropTable ''canonical_products''),
      Op (DropTable ''households''),
      Op (DropType ''storage_location''),
      Op (DropType ''date_label_type''),
      Op (DropType ''inventory_event_type'')]"

definition upgrade_0004_ops :: "migration_op list" where
  "upgrade_0004_ops =
     [CreateTableOp ''receipt_uploads''
        [sa_column ''id'' UuidType False (Some ''gen_random_uuid()''),
         sa_column ''household_id'' UuidType False None,
         sa_column ''blob_name'' (Varchar 400) False None,
         sa_column ''content_type'' (Varchar 128) False None,
         sa_column ''requested_at'' Timestamptz False None,
         sa_column ''expires_at'' Timestamptz False None,
         sa_column ''confirmed_at'' Timestamptz True None]
        [PrimaryKey ''pk_receipt_uploads'' [''id''],
         ForeignKey ''fk_receipt_uploads_household_id_households'' [''household_id''] ''households'' [''id''] ''RESTRICT'',
         Unique ''uq_receipt_uploads_blob_name'' [''blob_name''] False,
         Check ''blob_name_not_blank'' ''length(btrim(blob_name)) > 0'',
         Check ''content_type_not_blank'' ''length(btrim(content_type)) > 0'',
         Check ''expiry_after_request'' ''expires_at > requested_at'',
         Check ''confirmation_after_request'' ''confirmed_at IS NULL OR confirmed_at >= requested_at''],
      Op (CreateIndex ''ix_receipt_uploads_household_id_requested_at'' ''receipt_uploads''
          [''household_id'', ''requested_at''] False None),
      Op (CreateIndex ''ix_receipt_uploads_unconfirmed'' ''receipt_uploads''
          [''household_id'', ''expires_at''] False (Some ''confirmed_at IS NULL''))]"

definition downgrade_0004_ops :: "migration_op list" where
  "downgrade_0004_ops =
     [Op (DropIndex ''ix_receipt_uploads_unconfirmed'' ''receipt_uploads''),
      Op (DropIndex ''ix_receipt_uploads_household_id_requested_at'' ''receipt_uploads''),
      Op (DropTable ''receipt_uploads'')]"

text \<open>The revisions by their ids; the second and the third change rows only.\<close>

record revision =
  rv_revision :: string
  rv_down_revision :: "string option"
  rv_upgrade :: "migration_op list"
  rv_downgrade :: "migration_op list"

definition revisions :: "revision list" where
  "revisions =
     [\<lparr>rv_revision = ''0001_kitchen_record'', rv_down_revision = None, rv_upgrade = upgrade_0001_ops, rv_downgrade = downgrade_0001_ops\<rparr>,
      \<lparr>rv_revision = ''0002_placeholder_household'', rv_down_revision = Some ''0001_kitchen_record'', rv_upgrade = [], rv_downgrade = []\<rparr>,
      \<lparr>rv_revision = ''0003_drop_placeholder'', rv_down_revision = Some ''0002_placeholder_household'', rv_upgrade = [], rv_downgrade = []\<rparr>,
      \<lparr>rv_revision = ''0004_receipt_uploads'', rv_down_revision = Some ''0003_drop_placeholder'', rv_upgrade = upgrade_0004_ops,
       rv_downgrade = downgrade_0004_ops\<rparr>]"

text \<open>Following \<^verbatim>\<open>down_revision\<close> from the empty database up; no more steps than there are revisions.\<close>

fun lineage :: "nat \<Rightarrow> string option \<Rightarrow> revision list" where
  "lineage 0 at = []"
| "lineage (Suc n) at =
     (case filter (\<lambda>r. rv_down_revision r = at) revisions of
        [r] \<Rightarrow> r # lineage n (Some (rv_revision r))
      | _ \<Rightarrow> [])"

definition migration_history :: "revision list" where
  "migration_history = lineage (length revisions) None"

fun catalogue_after :: "nat \<Rightarrow> schema_error + catalogue" where
  "catalogue_after 0 = Inr empty_catalogue"
| "catalogue_after (Suc n) = bind_sum (catalogue_after n) (run_ops (rv_upgrade (migration_history ! n)))"

definition head_catalogue :: catalogue where
  "head_catalogue = projr (catalogue_after 4)"

subsection \<open>Agreement\<close>

definition same_elements :: "'a list \<Rightarrow> 'a list \<Rightarrow> bool" where
  "same_elements xs ys = (distinct xs \<and> distinct ys \<and> subset_of xs ys \<and> subset_of ys xs)"

definition same_table :: "table_def \<Rightarrow> table_def \<Rightarrow> bool" where
  "same_table t u =
     (tb_columns t = tb_columns u \<and> same_elements (tb_constraints t) (tb_constraints u) \<and>
      same_elements (tb_indexes t) (tb_indexes u))"

definition agrees :: "(string \<times> table_def) list \<Rightarrow> (string \<times> string list) list \<Rightarrow> catalogue \<Rightarrow> bool" where
  "agrees tables types c =
     (types = ct_types c \<and> same_elements (map fst tables) (map fst (ct_tables c)) \<and>
      list_all (\<lambda>(n, t). case map_of (ct_tables c) n of None \<Rightarrow> False | Some u \<Rightarrow> same_table t u) tables)"

subsection \<open>Names, evaluated\<close>

lemma ck_template:
  "percent_format (map_of [(''table_name'', t), (''constraint_name'', n)]) ''ck_%(table_name)s_%(constraint_name)s'' =
   Some (''ck_'' @ t @ ''_'' @ n)"
  by simp

lemma ck_mentions: "contains ''ck_%(table_name)s_%(constraint_name)s'' ''%(constraint_name)s''"
  by code_simp

lemma ck_name [simp]:
  "conventional_name ''ck'' t (Some n) cols ref =
   (if length t + length n \<le> 59 then Inr (''ck_'' @ t @ ''_'' @ n) else Inl (NameTooLong (''ck_'' @ t @ ''_'' @ n)))"
  by (simp add: conventional_name_def NAMING_CONVENTION_def ck_template ck_mentions or_error_def bind_sum_def)

lemma uq_silent: "\<not> contains ''uq_%(table_name)s_%(column_0_N_name)s'' ''%(constraint_name)s''"
  by code_simp

lemma ix_silent: "\<not> contains ''ix_%(table_name)s_%(column_0_N_name)s'' ''%(constraint_name)s''"
  by code_simp

lemma given_name [simp]:
  "conventional_name ''uq'' t (Some n) cols ref = (if length n \<le> 63 then Inr n else Inl (NameTooLong n))"
  "conventional_name ''ix'' t (Some n) cols ref = (if length n \<le> 63 then Inr n else Inl (NameTooLong n))"
  by (simp_all add: conventional_name_def NAMING_CONVENTION_def uq_silent ix_silent bind_sum_def)

lemma pk_name [simp]:
  "conventional_name ''pk'' t None cols ref = (if length t \<le> 60 then Inr (''pk_'' @ t) else Inl (NameTooLong (''pk_'' @ t)))"
  by (simp add: conventional_name_def NAMING_CONVENTION_def or_error_def bind_sum_def)

lemma fk_name [simp]:
  "conventional_name ''fk'' t None (col # cols) ref =
   (if length t + length col + length ref \<le> 58 then Inr (''fk_'' @ t @ ''_'' @ col @ ''_'' @ ref)
    else Inl (NameTooLong (''fk_'' @ t @ ''_'' @ col @ ''_'' @ ref)))"
  by (simp add: conventional_name_def NAMING_CONVENTION_def or_error_def bind_sum_def)

end
