(* ===== verification/Schema_Agreement.thy ===== *)
theory Schema_Agreement
  imports Schema_Declared
begin
section \<open>The models and the migrations declare the same schema\<close>

text \<open>
  A migration creates a table with the operations \<open>table_ops\<close> derives from its model, and drops it with \<open>drop_table_ops\<close>; on any catalogue the table
  \<open>fits_in\<close>, the first adds exactly the declared table and the second takes it away again.  So the catalogue at the head
  is the declared tables in the order the foreign keys need, with the triggers of the event log, and each downgrade leads back to the
  catalogue before.
\<close>

subsection \<open>The declared tables\<close>

definition declared :: "orm_class \<Rightarrow> string \<times> table_def" where
  "declared om = projr (declared_table om)"

lemmas declare_simps = declared_table_def mapped_column_def mapped_name_def is_primary_def arg_of_def foreign_key_def bind_sum_def
  Let_def

lemma declared_Household: "declared_table Household = Inr (declared Household)"
  by (simp add: declared_def declare_simps Household_def)

lemma declared_CanonicalProduct: "declared_table CanonicalProduct = Inr (declared CanonicalProduct)"
  by (simp add: declared_def declare_simps CanonicalProduct_def)

lemma declared_InventoryEventRow: "declared_table InventoryEventRow = Inr (declared InventoryEventRow)"
  by (simp add: declared_def declare_simps InventoryEventRow_def)

lemma declared_InventorySnapshotRow: "declared_table InventorySnapshotRow = Inr (declared InventorySnapshotRow)"
  by (simp add: declared_def declare_simps InventorySnapshotRow_def)

lemma declared_ReceiptUploadRow: "declared_table ReceiptUploadRow = Inr (declared ReceiptUploadRow)"
  by (simp add: declared_def declare_simps ReceiptUploadRow_def)

subsection \<open>A table and its indexes\<close>

definition index_op :: "string \<Rightarrow> index_def \<Rightarrow> migration_op" where
  "index_op table i = Op (CreateIndex (ix_name i) table (ix_columns i) (ix_unique i) (ix_where i))"

definition drop_index_op :: "string \<Rightarrow> index_def \<Rightarrow> migration_op" where
  "drop_index_op table i = Op (DropIndex (ix_name i) table)"

definition add_table :: "string \<times> table_def \<Rightarrow> catalogue \<Rightarrow> catalogue" where
  "add_table nt c = c\<lparr>ct_tables := ct_tables c @ [nt]\<rparr>"

definition fits_in :: "catalogue \<Rightarrow> string \<times> table_def \<Rightarrow> bool" where
  "fits_in c nt =
     (table_fits c (snd nt) \<and> distinct (table_relations nt) \<and>
      list_all (\<lambda>r. r \<notin> set (relation_names c)) (table_relations nt) \<and>
      list_all (\<lambda>i. subset_of (ix_columns i) (column_names (snd nt))) (tb_indexes (snd nt)))"

lemma index_surjective: "\<lparr>ix_name = ix_name i, ix_columns = ix_columns i, ix_unique = ix_unique i, ix_where = ix_where i\<rparr> = i"
  by simp

lemma run_ops_append: "run_ops (xs @ ys) c = bind_sum (run_ops xs c) (run_ops ys)"
  by (induction xs arbitrary: c) (auto simp: bind_sum_def split: sum.splits)

lemma lookup_added: "n \<notin> fst ` set (ct_tables c) \<Longrightarrow> map_of (ct_tables (add_table (n, t) c)) n = Some t"
  by (simp add: add_table_def map_add_dom_app_simps dom_map_of_conv_image_fst)

lemma update_last: "n \<notin> fst ` set xs \<Longrightarrow> AList.update n u (xs @ [(n, t)]) = xs @ [(n, u)]"
  by (induction xs) auto

lemma update_added:
  "n \<notin> fst ` set (ct_tables c) \<Longrightarrow>
   (add_table (n, t) c)\<lparr>ct_tables := AList.update n u (ct_tables (add_table (n, t) c))\<rparr> = add_table (n, u) c"
  by (simp add: add_table_def update_last)

lemma table_name_is_relation: "n \<in> fst ` set (ct_tables c) \<Longrightarrow> n \<in> set (relation_names c)"
  by (force simp: relation_names_def table_relations_def)

lemma fits_in_new: "fits_in c (n, t) \<Longrightarrow> n \<notin> fst ` set (ct_tables c)"
  using table_name_is_relation [of n c] by (auto simp: fits_in_def table_relations_def)

lemma relation_names_add [simp]: "relation_names (add_table nt c) = relation_names c @ table_relations nt"
  by (simp add: relation_names_def add_table_def)

lemma table_fits_indexes [simp]: "table_fits c (t\<lparr>tb_indexes := ixs\<rparr>) = table_fits c t"
  by (simp add: table_fits_def column_names_def enums_used_def)

lemma run_index_ops:
  "n \<notin> fst ` set (ct_tables c) \<Longrightarrow> list_all (\<lambda>i. subset_of (ix_columns i) (column_names t)) ixs \<Longrightarrow>
   distinct (map ix_name ixs) \<Longrightarrow>
   list_all (\<lambda>i. ix_name i \<notin> set (relation_names (add_table (n, t) c))) ixs \<Longrightarrow>
   run_ops (map (index_op n) ixs) (add_table (n, t) c) = Inr (add_table (n, t\<lparr>tb_indexes := tb_indexes t @ ixs\<rparr>) c)"
proof (induction ixs arbitrary: t)
  case Nil
  then show ?case by simp
next
  case (Cons i ixs)
  let ?t = "t\<lparr>tb_indexes := tb_indexes t @ [i]\<rparr>"
  have "run_ops (map (index_op n) ixs) (add_table (n, ?t) c) = Inr (add_table (n, ?t\<lparr>tb_indexes := tb_indexes ?t @ ixs\<rparr>) c)"
    using Cons.prems by (intro Cons.IH) (auto simp: column_names_def list_all_iff table_relations_def image_iff)
  moreover have "run_op (index_op n i) (add_table (n, t) c) = Inr (add_table (n, ?t) c)"
    using Cons.prems
    by (simp add: index_op_def lookup_added update_added index_surjective)
  ultimately show ?case
    by (simp add: bind_sum_def)
qed

lemma create_table_runs:
  assumes "all_or_error (map (op_constraint n) cons) = Inr (tb_constraints t)" and "fits_in c (n, t)"
  shows "run_ops (CreateTableOp n (tb_columns t) cons # map (index_op n) (tb_indexes t)) c = Inr (add_table (n, t) c)"
proof -
  let ?t = "new_table (tb_columns t) (tb_constraints t)"
  have t: "?t = t\<lparr>tb_indexes := []\<rparr>"
    by (simp add: new_table_def)
  have "table_fits c ?t"
    using assms by (simp add: t fits_in_def)
  moreover have "\<not> list_ex (\<lambda>r. r \<in> set (relation_names c)) (table_relations (n, ?t))"
    using assms by (auto simp: t fits_in_def list_ex_iff list_all_iff table_relations_def)
  ultimately have created: "run_op (CreateTableOp n (tb_columns t) cons) c = Inr (add_table (n, ?t) c)"
    using assms by (simp add: bind_sum_def Let_def add_table_def list_ex_iff)
  have "n \<notin> fst ` set (ct_tables c)"
    using assms(2) by (rule fits_in_new)
  moreover have "list_all (\<lambda>i. ix_name i \<notin> set (relation_names (add_table (n, ?t) c))) (tb_indexes t)"
    using assms(2) by (fastforce simp: t fits_in_def list_all_iff table_relations_def disjoint_iff)
  ultimately have "run_ops (map (index_op n) (tb_indexes t)) (add_table (n, ?t) c) = Inr (add_table (n, ?t\<lparr>tb_indexes := tb_indexes t\<rparr>) c)"
    using run_index_ops [of n c ?t "tb_indexes t"] assms(2)
    by (simp add: t fits_in_def table_relations_def column_names_def)
  with created show ?thesis
    by (simp add: bind_sum_def t)
qed

lemma drop_index_ops:
  "n \<notin> fst ` set (ct_tables c) \<Longrightarrow> distinct (map ix_name ixs) \<Longrightarrow>
   run_ops (map (drop_index_op n) (rev ixs)) (add_table (n, t\<lparr>tb_indexes := ixs\<rparr>) c) = Inr (add_table (n, t\<lparr>tb_indexes := []\<rparr>) c)"
proof (induction ixs rule: rev_induct)
  case Nil
  then show ?case by simp
next
  case (snoc i ixs)
  have others: "filter (\<lambda>j. ix_name j \<noteq> ix_name i) ixs = ixs"
    using snoc.prems by (auto simp: filter_id_conv image_iff)
  have "run_op (drop_index_op n i) (add_table (n, t\<lparr>tb_indexes := ixs @ [i]\<rparr>) c) = Inr (add_table (n, t\<lparr>tb_indexes := ixs\<rparr>) c)"
    using snoc.prems others by (simp add: drop_index_op_def lookup_added update_added)
  with snoc show ?case
    by (simp add: bind_sum_def)
qed

definition unreferenced :: "string \<Rightarrow> catalogue \<Rightarrow> bool" where
  "unreferenced n c = (list_all (\<lambda>t. \<not> refers_to n t) (ct_tables c) \<and> list_all (\<lambda>t. fst t \<noteq> n) (ct_triggers c))"

lemma drop_table_runs:
  assumes "fits_in c (n, t)" and "unreferenced n c"
  shows "run_ops (map (drop_index_op n) (rev (tb_indexes t)) @ [Op (DropTable n)]) (add_table (n, t) c) = Inr c"
proof -
  have new: "n \<notin> fst ` set (ct_tables c)"
    using assms(1) by (rule fits_in_new)
  then have "run_ops (map (drop_index_op n) (rev (tb_indexes t))) (add_table (n, t) c) = Inr (add_table (n, t\<lparr>tb_indexes := []\<rparr>) c)"
    using drop_index_ops [of n c "tb_indexes t" t] assms by (simp add: fits_in_def table_relations_def)
  moreover have "filter (\<lambda>t. fst t \<noteq> n) (ct_tables c) = ct_tables c" "filter (\<lambda>t. fst t \<noteq> n) (ct_triggers c) = ct_triggers c"
    using new assms by (auto simp: filter_id_conv unreferenced_def list_all_iff)
  then have "run_op (Op (DropTable n)) (add_table (n, t\<lparr>tb_indexes := []\<rparr>) c) = Inr c"
    using new assms by (auto simp: add_table_def unreferenced_def list_ex_iff list_all_iff refers_to_def)
  ultimately show ?thesis
    by (simp add: run_ops_append bind_sum_def)
qed

subsection \<open>The catalogue, table by table\<close>

definition kitchen_catalogue :: "orm_class list \<Rightarrow> string list \<Rightarrow> (string \<times> string \<times> string \<times> string) list \<Rightarrow> catalogue" where
  "kitchen_catalogue oms fs trs =
     \<lparr>ct_types = metadata_types, ct_tables = map declared oms, ct_functions = fs, ct_triggers = trs\<rparr>"

lemmas metadata_simps = metadata_types_def EVENT_TYPE_ENUM_def DATE_LABEL_TYPE_ENUM_def STORAGE_LOCATION_ENUM_def enum_values_def

lemma add_declared: "add_table (declared om) (kitchen_catalogue oms fs trs) = kitchen_catalogue (oms @ [om]) fs trs"
  by (simp add: add_table_def kitchen_catalogue_def)

lemma run_create_types: "run_ops create_types empty_catalogue = Inr (kitchen_catalogue [] [] [])"
  by (simp add: create_types_def empty_catalogue_def kitchen_catalogue_def metadata_simps bind_sum_def)

fun written_constraint :: "string \<Rightarrow> table_arg \<Rightarrow> table_constraint list" where
  "written_constraint table (ArgCheck name sql) = [Check name sql]"
| "written_constraint table arg = map projr (arg_constraint table arg)"

definition written_constraints :: "orm_class \<Rightarrow> table_constraint list" where
  "written_constraints om =
     PrimaryKey (''pk_'' @ om_table om) (map mapped_name (filter is_primary (om_columns om))) #
     map projr (concat (map (foreign_key (om_table om)) (om_columns om))) @
     concat (map (written_constraint (om_table om)) (om_args om))"

definition table_ops :: "orm_class \<Rightarrow> migration_op list" where
  "table_ops om =
     CreateTableOp (om_table om) (tb_columns (snd (declared om))) (written_constraints om) #
     map (index_op (om_table om)) (tb_indexes (snd (declared om)))"

definition drop_table_ops :: "orm_class \<Rightarrow> migration_op list" where
  "drop_table_ops om = map (drop_index_op (om_table om)) (rev (tb_indexes (snd (declared om)))) @ [Op (DropTable (om_table om))]"

definition well_named :: "orm_class \<Rightarrow> bool" where
  "well_named om =
     (fst (declared om) = om_table om \<and>
      all_or_error (map (op_constraint (om_table om)) (written_constraints om)) = Inr (tb_constraints (snd (declared om))))"

lemma run_table_ops:
  assumes "well_named om" and "fits_in (kitchen_catalogue oms fs trs) (declared om)"
  shows "run_ops (table_ops om) (kitchen_catalogue oms fs trs) = Inr (kitchen_catalogue (oms @ [om]) fs trs)"
  using assms create_table_runs [of "om_table om" "written_constraints om" "snd (declared om)" "kitchen_catalogue oms fs trs"]
  by (simp add: table_ops_def well_named_def flip: add_declared) (metis surjective_pairing)

lemma run_drop_table_ops:
  assumes "well_named om" and "fits_in (kitchen_catalogue oms fs trs) (declared om)"
    and "unreferenced (om_table om) (kitchen_catalogue oms fs trs)"
  shows "run_ops (drop_table_ops om) (kitchen_catalogue (oms @ [om]) fs trs) = Inr (kitchen_catalogue oms fs trs)"
  using assms drop_table_runs [of "kitchen_catalogue oms fs trs" "om_table om" "snd (declared om)"]
  by (simp add: drop_table_ops_def well_named_def flip: add_declared) (metis surjective_pairing)

lemmas written_simps = well_named_def written_constraints_def declared_def declare_simps

lemma well_named_Household: "well_named Household"
  by (simp add: written_simps Household_def)

lemma well_named_CanonicalProduct: "well_named CanonicalProduct"
  by (simp add: written_simps CanonicalProduct_def)

lemma well_named_InventoryEventRow: "well_named InventoryEventRow"
  by (simp add: written_simps InventoryEventRow_def)

lemma well_named_InventorySnapshotRow: "well_named InventorySnapshotRow"
  by (simp add: written_simps InventorySnapshotRow_def)

lemma well_named_ReceiptUploadRow: "well_named ReceiptUploadRow"
  by (simp add: written_simps ReceiptUploadRow_def)

lemmas op_simps = table_ops_def written_constraints_def declared_def declare_simps sa_column_def index_op_def

lemma create_households_is_declared: "create_households = table_ops Household"
  by (simp add: op_simps create_households_def Household_def)

lemma create_canonical_products_is_declared: "create_canonical_products = table_ops CanonicalProduct"
  by (simp add: op_simps create_canonical_products_def CanonicalProduct_def)

definition reject_mutation_ops :: "migration_op list" where
  "reject_mutation_ops =
     [Op (CreateFunction ''kitchensense_reject_mutation''),
      Op (CreateTrigger ''inventory_events_no_update'' ''UPDATE'' ''inventory_events'' ''kitchensense_reject_mutation''),
      Op (CreateTrigger ''inventory_events_no_delete'' ''DELETE'' ''inventory_events'' ''kitchensense_reject_mutation''),
      Op (CreateTrigger ''inventory_events_no_truncate'' ''TRUNCATE'' ''inventory_events'' ''kitchensense_reject_mutation'')]"

lemma create_inventory_events_is_declared: "create_inventory_events = table_ops InventoryEventRow @ reject_mutation_ops"
  by (simp add: op_simps create_inventory_events_def InventoryEventRow_def reject_mutation_ops_def)

lemma create_inventory_snapshot_is_declared: "create_inventory_snapshot = table_ops InventorySnapshotRow"
  by (simp add: op_simps create_inventory_snapshot_def InventorySnapshotRow_def)

lemma upgrade_0004_is_declared: "upgrade_0004_ops = table_ops ReceiptUploadRow"
  by (simp add: op_simps upgrade_0004_ops_def ReceiptUploadRow_def)

subsection \<open>The upgrades\<close>

lemmas fits_simps = fits_in_def kitchen_catalogue_def relation_names_def table_relations_def table_fits_def column_names_def
  enums_used_def subset_of_def reference_ok_def metadata_simps declared_def declare_simps

lemma fits_Household: "fits_in (kitchen_catalogue [] fs trs) (declared Household)"
  by (simp add: fits_simps Household_def)

lemma fits_CanonicalProduct: "fits_in (kitchen_catalogue [Household] fs trs) (declared CanonicalProduct)"
  by (simp add: fits_simps Household_def CanonicalProduct_def)

lemma fits_InventoryEventRow: "fits_in (kitchen_catalogue [Household, CanonicalProduct] fs trs) (declared InventoryEventRow)"
  by (simp add: fits_simps Household_def CanonicalProduct_def InventoryEventRow_def)


lemma fits_InventorySnapshotRow:
  "fits_in (kitchen_catalogue [Household, CanonicalProduct, InventoryEventRow] fs trs) (declared InventorySnapshotRow)"
  by (simp add: fits_simps Household_def CanonicalProduct_def InventoryEventRow_def InventorySnapshotRow_def)

lemma fits_ReceiptUploadRow:
  "fits_in (kitchen_catalogue [Household, CanonicalProduct, InventoryEventRow, InventorySnapshotRow] fs trs) (declared ReceiptUploadRow)"
  by (simp add: fits_simps Household_def CanonicalProduct_def InventoryEventRow_def InventorySnapshotRow_def ReceiptUploadRow_def)

definition reject_mutation_triggers :: "(string \<times> string \<times> string \<times> string) list" where
  "reject_mutation_triggers =
     [(''inventory_events'', ''inventory_events_no_update'', ''UPDATE'', ''kitchensense_reject_mutation''),
      (''inventory_events'', ''inventory_events_no_delete'', ''DELETE'', ''kitchensense_reject_mutation''),
      (''inventory_events'', ''inventory_events_no_truncate'', ''TRUNCATE'', ''kitchensense_reject_mutation'')]"

lemma declared_name: "well_named om \<Longrightarrow> fst (declared om) = om_table om"
  by (simp add: well_named_def)

lemma run_reject_mutation:
  "run_ops reject_mutation_ops (kitchen_catalogue [Household, CanonicalProduct, InventoryEventRow] [] []) =
   Inr (kitchen_catalogue [Household, CanonicalProduct, InventoryEventRow] [''kitchensense_reject_mutation''] reject_mutation_triggers)"
  using declared_name [OF well_named_InventoryEventRow]
  by (simp add: reject_mutation_ops_def reject_mutation_triggers_def kitchen_catalogue_def bind_sum_def InventoryEventRow_def)

definition catalogue_0001 :: catalogue where
  "catalogue_0001 =
     kitchen_catalogue [Household, CanonicalProduct, InventoryEventRow, InventorySnapshotRow] [''kitchensense_reject_mutation'']
       reject_mutation_triggers"

definition catalogue_0004 :: catalogue where
  "catalogue_0004 =
     kitchen_catalogue [Household, CanonicalProduct, InventoryEventRow, InventorySnapshotRow, ReceiptUploadRow]
       [''kitchensense_reject_mutation''] reject_mutation_triggers"

lemma run_upgrade_0001: "run_ops upgrade_0001_ops empty_catalogue = Inr catalogue_0001"
  using run_table_ops [OF well_named_Household fits_Household] run_table_ops [OF well_named_CanonicalProduct fits_CanonicalProduct]
    run_table_ops [OF well_named_InventoryEventRow fits_InventoryEventRow]
    run_table_ops [OF well_named_InventorySnapshotRow fits_InventorySnapshotRow]
  by (simp add: upgrade_0001_ops_def run_ops_append run_create_types create_households_is_declared
      create_canonical_products_is_declared create_inventory_events_is_declared create_inventory_snapshot_is_declared run_reject_mutation
      catalogue_0001_def bind_sum_def)

lemma run_upgrade_0004: "run_ops upgrade_0004_ops catalogue_0001 = Inr catalogue_0004"
  using run_table_ops [OF well_named_ReceiptUploadRow fits_ReceiptUploadRow]
  by (simp add: upgrade_0004_is_declared catalogue_0001_def catalogue_0004_def)

lemma history: "migration_history = revisions"
  by (simp add: migration_history_def revisions_def numeral_eq_Suc)

lemma catalogue_afters:
  "catalogue_after 1 = Inr catalogue_0001" "catalogue_after 2 = Inr catalogue_0001" "catalogue_after 3 = Inr catalogue_0001"
  "catalogue_after 4 = Inr catalogue_0004"
  by (simp_all add: history revisions_def numeral_eq_Suc bind_sum_def run_upgrade_0001 run_upgrade_0004)

lemma head_catalogue_0004: "head_catalogue = catalogue_0004"
  by (simp add: head_catalogue_def catalogue_afters)

subsection \<open>Downgrades\<close>

lemma drop_receipt_uploads: "downgrade_0004_ops = drop_table_ops ReceiptUploadRow"
  by (simp add: downgrade_0004_ops_def drop_table_ops_def drop_index_op_def declared_def declare_simps ReceiptUploadRow_def)

definition keep_mutation_ops :: "migration_op list" where
  "keep_mutation_ops =
     [Op (DropTrigger ''inventory_events_no_truncate'' ''inventory_events''),
      Op (DropTrigger ''inventory_events_no_delete'' ''inventory_events''),
      Op (DropTrigger ''inventory_events_no_update'' ''inventory_events''),
      Op (DropFunction ''kitchensense_reject_mutation'')]"

definition drop_types :: "migration_op list" where
  "drop_types = [Op (DropType ''storage_location''), Op (DropType ''date_label_type''), Op (DropType ''inventory_event_type'')]"

lemma downgrade_0001_parts:
  "downgrade_0001_ops =
   drop_table_ops InventorySnapshotRow @ keep_mutation_ops @ drop_table_ops InventoryEventRow @ drop_table_ops CanonicalProduct @
   drop_table_ops Household @ drop_types"
  by (simp add: downgrade_0001_ops_def drop_table_ops_def drop_index_op_def keep_mutation_ops_def drop_types_def declared_def declare_simps
      Household_def CanonicalProduct_def InventoryEventRow_def InventorySnapshotRow_def)

lemmas unreferenced_simps = unreferenced_def kitchen_catalogue_def refers_to_def declared_def declare_simps

lemma unreferenced_ReceiptUploadRow:
  "unreferenced (om_table ReceiptUploadRow)
     (kitchen_catalogue [Household, CanonicalProduct, InventoryEventRow, InventorySnapshotRow] fs reject_mutation_triggers)"
  by (simp add: unreferenced_simps Household_def CanonicalProduct_def InventoryEventRow_def InventorySnapshotRow_def ReceiptUploadRow_def
      reject_mutation_triggers_def)

lemma unreferenced_InventorySnapshotRow:
  "unreferenced (om_table InventorySnapshotRow)
     (kitchen_catalogue [Household, CanonicalProduct, InventoryEventRow] fs reject_mutation_triggers)"
  by (simp add: unreferenced_simps Household_def CanonicalProduct_def InventoryEventRow_def InventorySnapshotRow_def
      reject_mutation_triggers_def)

lemma unreferenced_InventoryEventRow: "unreferenced (om_table InventoryEventRow) (kitchen_catalogue [Household, CanonicalProduct] fs [])"
  by (simp add: unreferenced_simps Household_def CanonicalProduct_def InventoryEventRow_def)

lemma unreferenced_CanonicalProduct: "unreferenced (om_table CanonicalProduct) (kitchen_catalogue [Household] fs [])"
  by (simp add: unreferenced_simps Household_def CanonicalProduct_def)

lemma unreferenced_Household: "unreferenced (om_table Household) (kitchen_catalogue [] fs [])"
  by (simp add: unreferenced_simps Household_def)

lemma run_keep_mutation:
  "run_ops keep_mutation_ops (kitchen_catalogue oms [''kitchensense_reject_mutation''] reject_mutation_triggers) =
   Inr (kitchen_catalogue oms [] [])"
  by (simp add: keep_mutation_ops_def reject_mutation_triggers_def kitchen_catalogue_def bind_sum_def)

lemma run_drop_types: "run_ops drop_types (kitchen_catalogue [] [] []) = Inr empty_catalogue"
  by (simp add: drop_types_def kitchen_catalogue_def metadata_simps empty_catalogue_def bind_sum_def)

lemma run_downgrade_0004: "run_ops downgrade_0004_ops catalogue_0004 = Inr catalogue_0001"
  using run_drop_table_ops [OF well_named_ReceiptUploadRow fits_ReceiptUploadRow unreferenced_ReceiptUploadRow]
  by (simp add: drop_receipt_uploads catalogue_0001_def catalogue_0004_def)

lemma run_downgrade_0001: "run_ops downgrade_0001_ops catalogue_0001 = Inr empty_catalogue"
  using run_drop_table_ops [OF well_named_InventorySnapshotRow fits_InventorySnapshotRow unreferenced_InventorySnapshotRow]
    run_drop_table_ops [OF well_named_InventoryEventRow fits_InventoryEventRow unreferenced_InventoryEventRow]
    run_drop_table_ops [OF well_named_CanonicalProduct fits_CanonicalProduct unreferenced_CanonicalProduct]
    run_drop_table_ops [OF well_named_Household fits_Household unreferenced_Household]
  by (simp add: downgrade_0001_parts run_ops_append run_keep_mutation run_drop_types catalogue_0001_def bind_sum_def)

lemma same_table_refl: "fits_in c nt \<Longrightarrow> same_table (snd nt) (snd nt)"
  by (auto simp: fits_in_def same_table_def same_elements_def subset_of_def list_all_iff table_fits_def table_relations_def distinct_map)

lemma metadata_declared: "metadata_tables = Inr (map declared orm_classes)"
  by (simp add: metadata_tables_def orm_classes_def declared_Household declared_CanonicalProduct declared_InventoryEventRow
      declared_InventorySnapshotRow declared_ReceiptUploadRow bind_sum_def)

lemmas declared_names = well_named_Household [THEN declared_name] well_named_CanonicalProduct [THEN declared_name]
  well_named_InventoryEventRow [THEN declared_name] well_named_InventorySnapshotRow [THEN declared_name]
  well_named_ReceiptUploadRow [THEN declared_name]

lemma om_tables:
  "om_table Household = ''households''" "om_table CanonicalProduct = ''canonical_products''"
  "om_table InventoryEventRow = ''inventory_events''" "om_table InventorySnapshotRow = ''inventory_snapshot''"
  "om_table ReceiptUploadRow = ''receipt_uploads''"
  by (simp_all add: Household_def CanonicalProduct_def InventoryEventRow_def InventorySnapshotRow_def ReceiptUploadRow_def)

lemma declared_tables_found:
  "map_of (ct_tables catalogue_0004) ''households'' = Some (snd (declared Household))"
  "map_of (ct_tables catalogue_0004) ''canonical_products'' = Some (snd (declared CanonicalProduct))"
  "map_of (ct_tables catalogue_0004) ''inventory_events'' = Some (snd (declared InventoryEventRow))"
  "map_of (ct_tables catalogue_0004) ''inventory_snapshot'' = Some (snd (declared InventorySnapshotRow))"
  "map_of (ct_tables catalogue_0004) ''receipt_uploads'' = Some (snd (declared ReceiptUploadRow))"
  by (simp_all add: catalogue_0004_def kitchen_catalogue_def declared_names om_tables)

subsection \<open>Names\<close>

text \<open>Postgres keeps 63 characters of a name, and one name space for the tables and indexes of a schema.\<close>

definition identifiers :: "catalogue \<Rightarrow> string list" where
  "identifiers c =
     map fst (ct_types c) @ relation_names c @
     concat (map (\<lambda>nt. column_names (snd nt) @ map constraint_name (tb_constraints (snd nt))) (ct_tables c)) @
     ct_functions c @ map (fst \<circ> snd) (ct_triggers c)"

lemma fits_in_names: "fits_in c nt \<Longrightarrow> distinct (relation_names c) \<Longrightarrow> distinct (relation_names (add_table nt c))"
  by (auto simp: fits_in_def list_all_iff)

lemma distinct_relation_names: "distinct (relation_names catalogue_0004)"
proof -
  have "distinct (relation_names (kitchen_catalogue [] fs trs))" for fs trs
    by (simp add: relation_names_def kitchen_catalogue_def)
  from this [THEN fits_in_names [OF fits_Household], unfolded add_declared append.simps,
      THEN fits_in_names [OF fits_CanonicalProduct], unfolded add_declared append.simps,
      THEN fits_in_names [OF fits_InventoryEventRow], unfolded add_declared append.simps,
      THEN fits_in_names [OF fits_InventorySnapshotRow], unfolded add_declared append.simps,
      THEN fits_in_names [OF fits_ReceiptUploadRow], unfolded add_declared append.simps]
  show ?thesis
    by (simp add: catalogue_0004_def)
qed

subsection \<open>Properties\<close>

text \<open>
  C26: the schema the migrations build is the one the models declare.  Run from the empty database, the four revisions succeed, and what they leave
  has the metadata's enumerated types, and for each model its table with the same columns, constraints and indexes: types, widths,
  nullability, server defaults, key columns, ON DELETE actions, check texts and the names the convention gives.
\<close>

theorem models_and_migrations_agree:
  "case (metadata_tables, catalogue_after (length migration_history)) of
     (Inr tables, Inr c) \<Rightarrow> agrees tables metadata_types c
   | _ \<Rightarrow> False"
proof -
  have "agrees (map declared orm_classes) metadata_types catalogue_0004"
    using fits_Household [THEN same_table_refl] fits_CanonicalProduct [THEN same_table_refl]
      fits_InventoryEventRow [THEN same_table_refl] fits_InventorySnapshotRow [THEN same_table_refl]
      fits_ReceiptUploadRow [THEN same_table_refl]
    by (simp add: agrees_def orm_classes_def split_beta declared_names om_tables declared_tables_found)
      (simp add: catalogue_0004_def kitchen_catalogue_def same_elements_def subset_of_def declared_names om_tables)
  then show ?thesis
    using catalogue_afters(4) by (simp add: metadata_declared history revisions_def numeral_eq_Suc)
qed

text \<open>
  C27: each revision's downgrade undoes its upgrade.  From the catalogue a revision leaves, its downgrade runs without being refused by an object that
  depends on what it drops, and leaves the catalogue its upgrade started from; the first one leaves nothing behind.
\<close>

theorem downgrades_restore_the_schema:
  "list_all (\<lambda>n. bind_sum (catalogue_after (Suc n)) (run_ops (rv_downgrade (migration_history ! n))) = catalogue_after n)
     [0..<length migration_history]"
  using catalogue_afters run_downgrade_0001 run_downgrade_0004
  by (simp add: history revisions_def numeral_eq_Suc bind_sum_def upt_rec del: catalogue_after.simps(2))

text \<open>
  No name of the schema is cut off or taken twice.  Every type, table, column, constraint, index, function and trigger at the head has at
  most 63 characters, and no two tables, keys or indexes share a name.
\<close>

theorem names_fit_postgres:
  "list_all (\<lambda>n. length n \<le> 63) (identifiers head_catalogue) \<and> distinct (relation_names head_catalogue)"
proof
  show "list_all (\<lambda>n. length n \<le> 63) (identifiers head_catalogue)"
    unfolding head_catalogue_0004
    by (simp add: catalogue_0004_def reject_mutation_triggers_def identifiers_def fits_simps Household_def CanonicalProduct_def
        InventoryEventRow_def InventorySnapshotRow_def ReceiptUploadRow_def)
  show "distinct (relation_names head_catalogue)"
    by (simp add: head_catalogue_0004 distinct_relation_names)
qed

end
