(* ===== verification/Schema_Meaning.thy ===== *)
theory Schema_Meaning
  imports Schema_Agreement
begin

section \<open>What the declared schema says of the rows\<close>

text \<open>
  The tables of \<open>Kitchen_Tables\<close> are lists of records with their invariant written out by hand.  Here each record is the row the database
  holds, a value for each column, and the catalogue at the head of the migrations is read on those rows: what the declared types
  and widths, NOT NULL, keys, foreign keys and checks say of them is the invariant, table by table.
\<close>

subsection \<open>Rows as the database holds them\<close>

definition sql_row_of :: "(string \<times> sql_value) list \<Rightarrow> sql_row" where
  "sql_row_of vs c = (case map_of vs c of None \<Rightarrow> SqlNull | Some v \<Rightarrow> v)"

definition nullable :: "('a \<Rightarrow> sql_value) \<Rightarrow> 'a option \<Rightarrow> sql_value" where
  "nullable f x = (case x of None \<Rightarrow> SqlNull | Some v \<Rightarrow> f v)"

text \<open>A quantity is counted in thousandths.\<close>

definition numeric :: "quantity \<Rightarrow> sql_value" where
  "numeric q = SqlNum (of_int q / 1000)"

definition whole :: "int \<Rightarrow> sql_value" where
  "whole n = SqlNum (of_int n)"

definition household_sql :: "household_row \<Rightarrow> sql_row" where
  "household_sql r = sql_row_of
     [(''id'', SqlUuid (hr_id r)), (''name'', SqlText (hr_name r)), (''timezone'', SqlText (hr_timezone r)),
      (''created_at'', SqlTime (hr_created_at r))]"

definition product_sql :: "product_row \<Rightarrow> sql_row" where
  "product_sql r = sql_row_of
     [(''id'', SqlUuid (pr_id r)), (''canonical_name'', SqlText (pr_canonical_name r)), (''brand'', nullable SqlText (pr_brand r)),
      (''category'', nullable SqlText (pr_category r)), (''default_unit'', SqlText (pr_default_unit r)),
      (''typical_shelf_life_days'', nullable whole (pr_typical_shelf_life_days r)), (''gtin'', nullable SqlText (pr_gtin r)),
      (''attributes'', SqlJson (JObject (pr_attributes r))), (''created_at'', SqlTime (pr_created_at r))]"

definition event_sql :: "event_row \<Rightarrow> sql_row" where
  "event_sql r = sql_row_of
     [(''id'', SqlUuid (er_id r)), (''household_id'', SqlUuid (er_household_id r)),
      (''canonical_product_id'', SqlUuid (er_canonical_product_id r)), (''event_type'', SqlText (event_type_value (er_event_type r))),
      (''quantity_delta'', numeric (er_quantity_delta r)), (''unit'', SqlText (er_unit r)),
      (''storage_location'', SqlText (storage_location_value (er_storage_location r))),
      (''printed_date'', nullable SqlDate (er_printed_date r)),
      (''date_label_type'', nullable (SqlText \<circ> date_label_value) (er_date_label_type r)),
      (''occurred_at'', SqlTime (er_occurred_at r)), (''recorded_at'', SqlTime (er_recorded_at r)), (''source'', SqlText (er_source r)),
      (''confidence'', SqlNum (er_confidence r)), (''idempotency_key'', SqlText (er_idempotency_key r)),
      (''metadata'', SqlJson (JObject (er_event_metadata r)))]"

definition snapshot_sql :: "snapshot_row \<Rightarrow> sql_row" where
  "snapshot_sql r = sql_row_of
     [(''id'', SqlUuid (sr_id r)), (''household_id'', SqlUuid (sr_household_id r)),
      (''canonical_product_id'', SqlUuid (sr_canonical_product_id r)),
      (''storage_location'', SqlText (storage_location_value (sr_storage_location r))), (''unit'', SqlText (sr_unit r)),
      (''printed_date'', nullable SqlDate (sr_printed_date r)),
      (''date_label_type'', nullable (SqlText \<circ> date_label_value) (sr_date_label_type r)),
      (''quantity'', numeric (sr_quantity r)), (''purchased_quantity'', numeric (sr_purchased_quantity r)),
      (''consumed_quantity'', numeric (sr_consumed_quantity r)), (''discarded_quantity'', numeric (sr_discarded_quantity r)),
      (''event_count'', whole (sr_event_count r)), (''first_occurred_at'', SqlTime (sr_first_occurred_at r)),
      (''last_occurred_at'', SqlTime (sr_last_occurred_at r)), (''last_recorded_at'', SqlTime (sr_last_recorded_at r)),
      (''opened_at'', nullable SqlTime (sr_opened_at r)), (''as_of'', SqlTime (sr_as_of r)), (''computed_at'', SqlTime (sr_computed_at r))]"

definition upload_sql :: "upload_row \<Rightarrow> sql_row" where
  "upload_sql r = sql_row_of
     [(''id'', SqlUuid (ur_id r)), (''household_id'', SqlUuid (ur_household_id r)), (''blob_name'', SqlText (ur_blob_name r)),
      (''content_type'', SqlText (ur_content_type r)), (''requested_at'', SqlTime (ur_requested_at r)),
      (''expires_at'', SqlTime (ur_expires_at r)), (''confirmed_at'', nullable SqlTime (ur_confirmed_at r))]"

definition sql_rows_of :: "kitchen_db \<Rightarrow> sql_rows" where
  "sql_rows_of db table =
     (if table = ''households'' then map household_sql (db_households db)
      else if table = ''canonical_products'' then map product_sql (db_products db)
      else if table = ''inventory_events'' then map event_sql (db_events db)
      else if table = ''inventory_snapshot'' then map snapshot_sql (db_snapshots db)
      else if table = ''receipt_uploads'' then map upload_sql (db_uploads db)
      else [])"

subsection \<open>Columns\<close>

lemma nullable_simps [simp]:
  "nullable f None = SqlNull" "nullable f (Some v) = f v"
  by (simp_all add: nullable_def)

lemma numeric_neq_null [simp]: "numeric q \<noteq> SqlNull" "whole n \<noteq> SqlNull"
  by (simp_all add: numeric_def whole_def)

lemma is_whole_of_int [simp]: "is_whole (of_int n)"
  by (simp add: is_whole_def)

lemma numeric_fits [simp]: "type_holds types (Numeric 14 3) (numeric q) = fits_numeric_14_3 q"
proof -
  have "\<bar>of_int q :: rat\<bar> < 10 ^ 14 \<longleftrightarrow> \<bar>q\<bar> < 10 ^ 14"
    by (metis of_int_abs of_int_less_iff of_int_numeral of_int_power)
  then show ?thesis
    by (simp add: numeric_def fits_numeric_14_3_def)
qed

lemma whole_fits [simp]: "type_holds types Integer32 (whole n) = fits_int32 n"
  by (simp add: whole_def)

lemma varchar_fits: "varchar n s = Inr s \<longleftrightarrow> CHR 0x00 \<notin> set s \<and> length s \<le> n"
  by (auto simp: varchar_def)

lemma varchar_opt_fits: "varchar_opt n s = Inr s \<longleftrightarrow> pred_option (\<lambda>s. CHR 0x00 \<notin> set s \<and> length s \<le> n) s"
  by (cases s) (auto simp: varchar_opt_def bind_sum_Inr_iff varchar_fits)

lemma store_household_fits:
  "store_household r = Inr r \<longleftrightarrow> varchar 200 (hr_name r) = Inr (hr_name r) \<and> varchar 64 (hr_timezone r) = Inr (hr_timezone r)"
  by (cases r) (auto simp: store_household_def bind_sum_Inr_iff)

lemma store_product_fits:
  "store_product r = Inr r \<longleftrightarrow>
   varchar 200 (pr_canonical_name r) = Inr (pr_canonical_name r) \<and> varchar_opt 120 (pr_brand r) = Inr (pr_brand r) \<and>
   varchar_opt 80 (pr_category r) = Inr (pr_category r) \<and> varchar 24 (pr_default_unit r) = Inr (pr_default_unit r) \<and>
   varchar_opt 14 (pr_gtin r) = Inr (pr_gtin r) \<and> pred_option fits_int32 (pr_typical_shelf_life_days r) \<and>
   json_storable (JObject (pr_attributes r))"
  by (cases r) (auto simp: store_product_def bind_sum_Inr_iff simp del: json_storable.simps)

lemma store_event_fits:
  "store_event r = Inr r \<longleftrightarrow>
   fits_numeric_14_3 (er_quantity_delta r) \<and> json_storable (JObject (er_event_metadata r)) \<and> varchar 24 (er_unit r) = Inr (er_unit r) \<and>
   varchar 64 (er_source r) = Inr (er_source r) \<and> varchar 200 (er_idempotency_key r) = Inr (er_idempotency_key r)"
  by (cases r) (auto simp: store_event_def bind_sum_Inr_iff simp del: json_storable.simps)

lemma store_snapshot_row_fits:
  "store_snapshot_row r = Inr r \<longleftrightarrow>
   fits_numeric_14_3 (sr_quantity r) \<and> fits_numeric_14_3 (sr_purchased_quantity r) \<and> fits_numeric_14_3 (sr_consumed_quantity r) \<and>
   fits_numeric_14_3 (sr_discarded_quantity r) \<and> fits_int32 (sr_event_count r) \<and> varchar 24 (sr_unit r) = Inr (sr_unit r)"
  by (cases r) (auto simp: store_snapshot_row_def bind_sum_Inr_iff)

lemma store_upload_fits:
  "store_upload r = Inr r \<longleftrightarrow>
   varchar 400 (ur_blob_name r) = Inr (ur_blob_name r) \<and> varchar 128 (ur_content_type r) = Inr (ur_content_type r)"
  by (cases r) (auto simp: store_upload_def bind_sum_Inr_iff)

lemma enum_labels [simp]:
  "map_of metadata_types ''inventory_event_type'' = Some (snd EVENT_TYPE_ENUM)"
  "map_of metadata_types ''date_label_type'' = Some (snd DATE_LABEL_TYPE_ENUM)"
  "map_of metadata_types ''storage_location'' = Some (snd STORAGE_LOCATION_ENUM)"
  by (simp_all add: metadata_simps)

lemma enum_value_is_label [simp]:
  "event_type_value e \<in> set (snd EVENT_TYPE_ENUM)"
  "date_label_value d \<in> set (snd DATE_LABEL_TYPE_ENUM)"
  "storage_location_value l \<in> set (snd STORAGE_LOCATION_ENUM)"
  by (cases e; simp add: metadata_simps) (cases d, simp_all add: metadata_simps, cases l, simp_all add: metadata_simps)

definition value_holds :: "bool \<Rightarrow> sql_type \<Rightarrow> sql_value \<Rightarrow> bool" where
  "value_holds null_ok ty v = (if v = SqlNull then null_ok else type_holds metadata_types ty v)"

lemma column_value: "column_holds metadata_types r c = value_holds (cl_nullable c) (cl_type c) (r (cl_name c))"
  by (simp add: column_holds_def value_holds_def)

lemma value_holds_known [simp]:
  "value_holds b ty (SqlUuid u) = type_holds metadata_types ty (SqlUuid u)"
  "value_holds b ty (SqlText s) = type_holds metadata_types ty (SqlText s)"
  "value_holds b ty (SqlNum x) = type_holds metadata_types ty (SqlNum x)"
  "value_holds b ty (SqlTime t) = type_holds metadata_types ty (SqlTime t)"
  "value_holds b ty (SqlDate d) = type_holds metadata_types ty (SqlDate d)"
  "value_holds b ty (SqlJson j) = type_holds metadata_types ty (SqlJson j)"
  "value_holds b ty (numeric q) = type_holds metadata_types ty (numeric q)"
  "value_holds b ty (whole n) = type_holds metadata_types ty (whole n)"
  by (simp_all add: value_holds_def)

lemma value_holds_nullable [simp]: "value_holds True ty (nullable f x) = pred_option (\<lambda>v. value_holds True ty (f v)) x"
  by (cases x) (auto simp: value_holds_def)

lemma pred_option_True [simp]: "pred_option (\<lambda>v. True) x"
  by (cases x) auto

lemmas columns_simps = column_value sql_row_of_def varchar_fits varchar_opt_fits declared_def declare_simps

lemma household_columns:
  "list_all (column_holds metadata_types (household_sql r)) (tb_columns (snd (declared Household))) \<longleftrightarrow> store_household r = Inr r"
  by (simp add: store_household_fits household_sql_def Household_def columns_simps)

lemma product_columns:
  "list_all (column_holds metadata_types (product_sql r)) (tb_columns (snd (declared CanonicalProduct))) \<longleftrightarrow> store_product r = Inr r"
  by (simp add: store_product_fits product_sql_def CanonicalProduct_def columns_simps del: json_storable.simps) blast

lemma event_columns:
  "list_all (column_holds metadata_types (event_sql r)) (tb_columns (snd (declared InventoryEventRow))) \<longleftrightarrow> store_event r = Inr r"
  by (simp add: store_event_fits event_sql_def InventoryEventRow_def columns_simps
      del: json_storable.simps) blast

lemma snapshot_columns:
  "list_all (column_holds metadata_types (snapshot_sql r)) (tb_columns (snd (declared InventorySnapshotRow))) \<longleftrightarrow>
   store_snapshot_row r = Inr r"
  by (simp add: store_snapshot_row_fits snapshot_sql_def InventorySnapshotRow_def columns_simps) blast

lemma upload_columns:
  "list_all (column_holds metadata_types (upload_sql r)) (tb_columns (snd (declared ReceiptUploadRow))) \<longleftrightarrow> store_upload r = Inr r"
  by (simp add: store_upload_fits upload_sql_def ReceiptUploadRow_def columns_simps)

subsection \<open>Checks\<close>

lemma check_meanings:
  "check_meaning ''length(btrim(name)) > 0'' = Some (Cmp Above (LengthBtrim ''name'') (Lit 0))"
  "check_meaning ''length(btrim(timezone)) > 0'' = Some (Cmp Above (LengthBtrim ''timezone'') (Lit 0))"
  "check_meaning ''length(btrim(canonical_name)) > 0'' = Some (Cmp Above (LengthBtrim ''canonical_name'') (Lit 0))"
  "check_meaning ''length(btrim(unit)) > 0'' = Some (Cmp Above (LengthBtrim ''unit'') (Lit 0))"
  "check_meaning ''length(btrim(source)) > 0'' = Some (Cmp Above (LengthBtrim ''source'') (Lit 0))"
  "check_meaning ''length(btrim(idempotency_key)) > 0'' = Some (Cmp Above (LengthBtrim ''idempotency_key'') (Lit 0))"
  "check_meaning ''length(btrim(blob_name)) > 0'' = Some (Cmp Above (LengthBtrim ''blob_name'') (Lit 0))"
  "check_meaning ''length(btrim(content_type)) > 0'' = Some (Cmp Above (LengthBtrim ''content_type'') (Lit 0))"
  "check_meaning ''typical_shelf_life_days IS NULL OR typical_shelf_life_days > 0'' =
     Some (Or (IsNull ''typical_shelf_life_days'') (Cmp Above (Col ''typical_shelf_life_days'') (Lit 0)))"
  "check_meaning (''gtin IS NULL OR gtin ~ '' @ quoted ''^[0-9]{8,14}$'') = Some (Or (IsNull ''gtin'') (Digits ''gtin'' 8 14))"
  "check_meaning (''quantity_delta >= 0 OR event_type <> '' @ quoted ''purchased'') =
     Some (Or (Cmp AtLeast (Col ''quantity_delta'') (Lit 0)) (Differs ''event_type'' ''purchased''))"
  "check_meaning (''quantity_delta <= 0 OR event_type NOT IN ('' @ quoted ''consumed'' @ '', '' @ quoted ''discarded'' @ '')'') =
     Some (Or (Cmp AtMost (Col ''quantity_delta'') (Lit 0)) (NotIn ''event_type'' [''consumed'', ''discarded'']))"
  "check_meaning ''date_label_type IS NULL OR printed_date IS NOT NULL'' =
     Some (Or (IsNull ''date_label_type'') (IsNotNull ''printed_date''))"
  "check_meaning ''confidence >= 0 AND confidence <= 1'' =
     Some (And (Cmp AtLeast (Col ''confidence'') (Lit 0)) (Cmp AtMost (Col ''confidence'') (Lit 1)))"
  "check_meaning ''event_count > 0'' = Some (Cmp Above (Col ''event_count'') (Lit 0))"
  "check_meaning ''expires_at > requested_at'' = Some (Cmp Above (Col ''expires_at'') (Col ''requested_at''))"
  "check_meaning ''confirmed_at IS NULL OR confirmed_at >= requested_at'' =
     Some (Or (IsNull ''confirmed_at'') (Cmp AtLeast (Col ''confirmed_at'') (Col ''requested_at'')))"
  by (simp_all add: check_meaning_def schema_checks_def quoted_def decimal.simps char_of_def bit_0)

lemma sql_or_known [simp]: "sql_or (Some a) (Some b) = Some (a \<or> b)"
  by (cases a; cases b) simp_all

lemma sql_and_known [simp]: "sql_and (Some a) (Some b) = Some (a \<and> b)"
  by (cases a; cases b) simp_all

lemma blank_check: "r c = SqlText s \<Longrightarrow> passes r (Cmp Above (LengthBtrim c) (Lit 0)) \<longleftrightarrow> not_blank s"
  by (simp add: passes_def not_blank_def)

lemma label_check:
  "r ''date_label_type'' = nullable (SqlText \<circ> date_label_value) l \<Longrightarrow> r ''printed_date'' = nullable SqlDate p \<Longrightarrow>
   passes r (Or (IsNull ''date_label_type'') (IsNotNull ''printed_date'')) \<longleftrightarrow> label_needs_date l p"
  by (cases l; cases p) (simp_all add: passes_def label_needs_date_def)

lemma positive_check: "r c = whole n \<Longrightarrow> passes r (Cmp Above (Col c) (Lit 0)) \<longleftrightarrow> n > 0"
  by (simp add: passes_def whole_def)

lemma optional_positive_check:
  "r c = nullable whole n \<Longrightarrow> passes r (Or (IsNull c) (Cmp Above (Col c) (Lit 0))) \<longleftrightarrow> pred_option (\<lambda>n. n > 0) n"
  by (cases n) (auto simp: passes_def whole_def)

lemma gtin_check: "r c = nullable SqlText s \<Longrightarrow> passes r (Or (IsNull c) (Digits c 8 14)) \<longleftrightarrow> pred_option is_gtin s"
  by (cases s) (auto simp: passes_def is_gtin_def)

lemma confidence_check:
  "r c = SqlNum x \<Longrightarrow> passes r (And (Cmp AtLeast (Col c) (Lit 0)) (Cmp AtMost (Col c) (Lit 1))) \<longleftrightarrow> 0 \<le> x \<and> x \<le> 1"
  by (cases "0 \<le> x"; cases "x \<le> 1") (simp_all add: passes_def)

lemma purchased_check:
  "r ''quantity_delta'' = numeric q \<Longrightarrow> r ''event_type'' = SqlText (event_type_value e) \<Longrightarrow>
   passes r (Or (Cmp AtLeast (Col ''quantity_delta'') (Lit 0)) (Differs ''event_type'' ''purchased'')) \<longleftrightarrow> q \<ge> 0 \<or> e \<noteq> PURCHASED"
  by (cases "q \<ge> 0"; cases e) (simp_all add: passes_def numeric_def)

lemma removal_check:
  "r ''quantity_delta'' = numeric q \<Longrightarrow> r ''event_type'' = SqlText (event_type_value e) \<Longrightarrow>
   passes r (Or (Cmp AtMost (Col ''quantity_delta'') (Lit 0)) (NotIn ''event_type'' [''consumed'', ''discarded''])) \<longleftrightarrow>
   q \<le> 0 \<or> e \<notin> {CONSUMED, DISCARDED}"
  by (cases "q \<le> 0"; cases e) (simp_all add: passes_def numeric_def divide_le_0_iff)

lemma expiry_check:
  "r a = SqlTime x \<Longrightarrow> r b = SqlTime y \<Longrightarrow> passes r (Cmp Above (Col a) (Col b)) \<longleftrightarrow> x > y"
  by (simp add: passes_def)

lemma confirmation_check:
  "r a = nullable SqlTime x \<Longrightarrow> r b = SqlTime y \<Longrightarrow>
   passes r (Or (IsNull a) (Cmp AtLeast (Col a) (Col b))) \<longleftrightarrow> pred_option (\<lambda>x. x \<ge> y) x"
  by (cases x) (auto simp: passes_def)

subsection \<open>Keys\<close>

lemma distinct_map_iff: "(\<And>x y. f x = f y \<longleftrightarrow> g x = g y) \<Longrightarrow> distinct (map f xs) \<longleftrightarrow> distinct (map g xs)"
  by (auto simp: distinct_map inj_on_def)

lemma unique_on_key:
  assumes "\<And>r. b \<or> SqlNull \<notin> set (map (f r) cols)" and "\<And>x y. map (f x) cols = map (f y) cols \<longleftrightarrow> k x = k y"
  shows "unique_on b cols (map f rows) \<longleftrightarrow> distinct (map k rows)"
proof -
  have "filter (\<lambda>k. b \<or> SqlNull \<notin> set k) (map (\<lambda>r. map (f r) cols) rows) = map (\<lambda>r. map (f r) cols) rows"
    using assms(1) by (auto simp: filter_id_conv)
  then show ?thesis
    using distinct_map_iff [of "\<lambda>r. map (f r) cols" k rows, OF assms(2)] by (simp add: unique_on_def comp_def)
qed

lemmas row_simps = household_sql_def product_sql_def event_sql_def snapshot_sql_def upload_sql_def sql_row_of_def

lemma event_type_value_inject [simp]: "event_type_value e = event_type_value e' \<longleftrightarrow> e = e'"
  by (cases e; cases e'; simp)

lemma date_label_text_inject [simp]: "date_label_value d = date_label_value d' \<longleftrightarrow> d = d'"
  by (cases d; cases d'; simp)

lemma storage_location_text_inject [simp]: "storage_location_value l = storage_location_value l' \<longleftrightarrow> l = l'"
  by (cases l; cases l'; simp)

lemma nullable_inject:
  "(\<And>a b. f a = f b \<longleftrightarrow> a = b) \<Longrightarrow> (\<And>a. f a \<noteq> SqlNull) \<Longrightarrow> nullable f x = nullable f y \<longleftrightarrow> x = y"
  by (cases x; cases y) (auto simp: eq_commute [of SqlNull])

lemma nullable_injects [simp]:
  "nullable SqlText s = nullable SqlText s' \<longleftrightarrow> s = s'"
  "nullable SqlDate d = nullable SqlDate d' \<longleftrightarrow> d = d'"
  "nullable (SqlText \<circ> date_label_value) l = nullable (SqlText \<circ> date_label_value) l' \<longleftrightarrow> l = l'"
  by (simp_all add: nullable_inject)

lemma id_keys [simp]:
  "unique_on False [''id''] (map household_sql hs) \<longleftrightarrow> distinct (map hr_id hs)"
  "unique_on False [''id''] (map product_sql ps) \<longleftrightarrow> distinct (map pr_id ps)"
  "unique_on False [''id''] (map event_sql es) \<longleftrightarrow> distinct (map er_id es)"
  "unique_on False [''id''] (map snapshot_sql ss) \<longleftrightarrow> distinct (map sr_id ss)"
  "unique_on False [''id''] (map upload_sql us) \<longleftrightarrow> distinct (map ur_id us)"
  by (rule unique_on_key; simp add: row_simps)+

lemma other_keys [simp]:
  "unique_on False [''idempotency_key''] (map event_sql es) \<longleftrightarrow> distinct (map er_idempotency_key es)"
  "unique_on False [''blob_name''] (map upload_sql us) \<longleftrightarrow> distinct (map ur_blob_name us)"
  "unique_on True [''household_id'', ''canonical_product_id'', ''storage_location'', ''unit'', ''printed_date'', ''date_label_type'']
     (map snapshot_sql ss) \<longleftrightarrow> distinct (map (\<lambda>r. (sr_household_id r, snapshot_row_key r)) ss)"
  by (rule unique_on_key; simp add: row_simps snapshot_row_key_def)+

lemma gtin_key [simp]:
  "unique_on False [''gtin''] (map product_sql ps) \<longleftrightarrow> distinct (filter (\<lambda>g. g \<noteq> None) (map pr_gtin ps))"
proof -
  let ?key = "\<lambda>g. [nullable SqlText g]"
  have "map (\<lambda>r. map r [''gtin'']) (map product_sql ps) = map ?key (map pr_gtin ps)"
    by (simp add: row_simps)
  moreover have "filter (\<lambda>k. False \<or> SqlNull \<notin> set k) (map ?key gs) = map ?key (filter (\<lambda>g. g \<noteq> None) gs)" for gs
    by (induction gs) (auto simp: nullable_def split: option.splits)
  moreover have "distinct (map ?key gs) \<longleftrightarrow> distinct gs" for gs
    by (simp add: distinct_map inj_on_def)
  ultimately show ?thesis
    by (simp only: unique_on_def)
qed

subsection \<open>Tables\<close>

text \<open>The constraints and indexes of the declared tables, in their order.\<close>

lemma rows_of [simp]:
  "sql_rows_of db ''households'' = map household_sql (db_households db)"
  "sql_rows_of db ''canonical_products'' = map product_sql (db_products db)"
  "sql_rows_of db ''inventory_events'' = map event_sql (db_events db)"
  "sql_rows_of db ''inventory_snapshot'' = map snapshot_sql (db_snapshots db)"
  "sql_rows_of db ''receipt_uploads'' = map upload_sql (db_uploads db)"
  by (simp_all add: sql_rows_of_def)

lemma household_reference: "[SqlUuid h] \<in> (\<lambda>q. [household_sql q ''id'']) ` set hs \<longleftrightarrow> h \<in> hr_id ` set hs"
  by (auto simp: row_simps)

lemma product_reference: "[SqlUuid p] \<in> (\<lambda>q. [product_sql q ''id'']) ` set ps \<longleftrightarrow> p \<in> pr_id ` set ps"
  by (auto simp: row_simps)

lemmas written_meanings = check_meanings [unfolded quoted_def append.simps]

lemmas constraint_simps = declared_def declare_simps quoted_def written_meanings list_all_iff row_simps refs_defs

lemma household_constraints:
  "list_all (constraint_holds (sql_rows_of db) ''households'') (tb_constraints (snd (declared Household))) \<longleftrightarrow>
   distinct (map hr_id (db_households db)) \<and> list_all household_checks (db_households db)"
  by (auto simp: constraint_simps Household_def household_checks_def blank_check)

lemma product_constraints:
  "list_all (constraint_holds (sql_rows_of db) ''canonical_products'') (tb_constraints (snd (declared CanonicalProduct))) \<longleftrightarrow>
   distinct (map pr_id (db_products db)) \<and> list_all product_checks (db_products db)"
  by (auto simp: constraint_simps CanonicalProduct_def product_checks_def blank_check optional_positive_check gtin_check)

lemma event_constraints:
  "list_all (constraint_holds (sql_rows_of db) ''inventory_events'') (tb_constraints (snd (declared InventoryEventRow))) \<longleftrightarrow>
   distinct (map er_id (db_events db)) \<and> list_all event_checks (db_events db) \<and> list_all (event_refs db) (db_events db)"
  by (simp add: constraint_simps InventoryEventRow_def event_checks_def blank_check purchased_check removal_check confidence_check
      label_check image_iff) blast

lemma snapshot_constraints:
  "list_all (constraint_holds (sql_rows_of db) ''inventory_snapshot'') (tb_constraints (snd (declared InventorySnapshotRow))) \<longleftrightarrow>
   distinct (map sr_id (db_snapshots db)) \<and>
   distinct (map (\<lambda>r. (sr_household_id r, snapshot_row_key r)) (db_snapshots db)) \<and>
   list_all snapshot_checks (db_snapshots db) \<and> list_all (snapshot_refs db) (db_snapshots db)"
  by (simp add: constraint_simps InventorySnapshotRow_def snapshot_checks_def positive_check label_check image_iff) blast

lemma upload_constraints:
  "list_all (constraint_holds (sql_rows_of db) ''receipt_uploads'') (tb_constraints (snd (declared ReceiptUploadRow))) \<longleftrightarrow>
   distinct (map ur_id (db_uploads db)) \<and> distinct (map ur_blob_name (db_uploads db)) \<and>
   list_all upload_checks (db_uploads db) \<and> list_all (upload_refs db) (db_uploads db)"
  by (simp add: constraint_simps ReceiptUploadRow_def upload_checks_def blank_check expiry_check confirmation_check image_iff) blast

lemmas index_simps = index_holds_def declared_def declare_simps

lemma table_indexes:
  "list_all (index_holds (sql_rows_of db) ''households'') (tb_indexes (snd (declared Household)))"
  "list_all (index_holds (sql_rows_of db) ''canonical_products'') (tb_indexes (snd (declared CanonicalProduct))) \<longleftrightarrow>
     distinct (filter (\<lambda>g. g \<noteq> None) (map pr_gtin (db_products db)))"
  "list_all (index_holds (sql_rows_of db) ''inventory_events'') (tb_indexes (snd (declared InventoryEventRow))) \<longleftrightarrow>
     distinct (map er_idempotency_key (db_events db))"
  "list_all (index_holds (sql_rows_of db) ''inventory_snapshot'') (tb_indexes (snd (declared InventorySnapshotRow)))"
  "list_all (index_holds (sql_rows_of db) ''receipt_uploads'') (tb_indexes (snd (declared ReceiptUploadRow)))"
  by (simp_all add: index_simps Household_def CanonicalProduct_def InventoryEventRow_def InventorySnapshotRow_def ReceiptUploadRow_def)

subsection \<open>Properties\<close>

text \<open>
  C25: the invariant the statements keep is the schema as declared.  The rows of a database satisfy every column, constraint and index of the catalogue the
  migrations leave, each check read from its text in three-valued logic, exactly when \<open>db_ok\<close> holds.
\<close>

theorem declared_schema_is_the_invariant:
  "satisfies head_catalogue (sql_rows_of db) \<longleftrightarrow> db_ok db"
proof -
  have types: "ct_types catalogue_0004 = metadata_types"
    by (simp add: catalogue_0004_def kitchen_catalogue_def)
  have conj: "list_all (\<lambda>x. P x \<and> Q x) xs \<longleftrightarrow> list_all P xs \<and> list_all Q xs" for P Q and xs :: "'a list"
    by (auto simp: list_all_iff)
  note meaning = table_holds_def types declared_names om_tables table_indexes conj list.pred_map comp_def
  have "table_holds catalogue_0004 (sql_rows_of db) (declared Household) \<longleftrightarrow> households_ok db"
    by (auto simp: meaning household_columns household_constraints households_ok_def)
  moreover have "table_holds catalogue_0004 (sql_rows_of db) (declared CanonicalProduct) \<longleftrightarrow> products_ok db"
    by (auto simp: meaning product_columns product_constraints products_ok_def)
  moreover have "table_holds catalogue_0004 (sql_rows_of db) (declared InventoryEventRow) \<longleftrightarrow> events_ok db"
    by (auto simp: meaning event_columns event_constraints events_ok_def)
  moreover have "table_holds catalogue_0004 (sql_rows_of db) (declared InventorySnapshotRow) \<longleftrightarrow> snapshots_ok db"
    by (auto simp: meaning snapshot_columns snapshot_constraints snapshots_ok_def)
  moreover have "table_holds catalogue_0004 (sql_rows_of db) (declared ReceiptUploadRow) \<longleftrightarrow> uploads_ok db"
    by (auto simp: meaning upload_columns upload_constraints uploads_ok_def)
  moreover have "ct_tables catalogue_0004 =
      map declared [Household, CanonicalProduct, InventoryEventRow, InventorySnapshotRow, ReceiptUploadRow]"
    by (simp add: catalogue_0004_def kitchen_catalogue_def)
  ultimately show ?thesis
    by (simp add: satisfies_def head_catalogue_0004 db_ok_def)
qed

end
