(* ===== verification/Repo_Events.thy ===== *)
theory Repo_Events
  imports Kitchen_Tables
begin

section \<open>The event repository\<close>

text \<open>
  The model of \<^verbatim>\<open>InventoryEventRepository\<close> in \<^verbatim>\<open>src/kitchensense/repositories/inventory.py\<close>.
  A method is a function of the database its session sees, with the household as an argument; a
  method that writes also returns the database.  A SELECT is the list of rows it selects, in the
  order of \<open>ordered\<close> where the method asks for one.  What the server supplies for a new row, an id and
  the transaction's \<^verbatim>\<open>now()\<close>, are arguments.

  The locale \<open>event_log\<close> is what the snapshot repository relies on: what is known at an instant, what
  became known between two, and that the second is exactly the difference.  \<open>event_reads\<close> is the
  tenancy contract of the reads.
\<close>

datatype repo_error =
    DbError db_error
  | FoldError fold_error
  | IdempotencyKeyConflictError
  | MultipleResultsFound
  | IndexError

definition run_db :: "db_error + 'a \<Rightarrow> repo_error + 'a" where
  "run_db m = (case m of Inl e \<Rightarrow> Inl (DbError e) | Inr x \<Rightarrow> Inr x)"

fun one_or_none :: "'a list \<Rightarrow> repo_error + 'a option" where
  "one_or_none [] = Inr None"
| "one_or_none [x] = Inr (Some x)"
| "one_or_none xs = Inl MultipleResultsFound"

subsection \<open>Scoping and order\<close>

definition scoped_events :: "kitchen_db \<Rightarrow> uuid \<Rightarrow> event_row list" where
  "scoped_events db household_id = filter (\<lambda>r. er_household_id r = household_id) (db_events db)"

definition event_order :: "event_row \<Rightarrow> datetime \<times> datetime \<times> uuid" where
  "event_order r = (er_recorded_at r, er_occurred_at r, er_id r)"

definition ordered_events :: "event_row list \<Rightarrow> event_row list" where
  "ordered_events rows = sort_key event_order rows"

definition fetch_events :: "event_row list \<Rightarrow> inventory_event list" where
  "fetch_events rows = map event_to_domain (ordered_events rows)"

subsection \<open>Writes\<close>

record event_values =
  va_household_id :: uuid
  va_canonical_product_id :: uuid
  va_event_type :: event_type
  va_quantity_delta :: quantity
  va_unit :: string
  va_storage_location :: storage_location
  va_printed_date :: "date option"
  va_date_label_type :: "date_label_type option"
  va_occurred_at :: datetime
  va_source :: string
  va_confidence :: rat
  va_idempotency_key :: string
  va_event_metadata :: metadata
  va_recorded_at :: "datetime option"

definition to_values :: "uuid \<Rightarrow> new_inventory_event \<Rightarrow> event_values" where
  "to_values household_id event =
     \<lparr>va_household_id = household_id,
      va_canonical_product_id = ne_canonical_product_id event,
      va_event_type = ne_event_type event,
      va_quantity_delta = ne_quantity_delta event,
      va_unit = normalize_unit (ne_unit event),
      va_storage_location = ne_storage_location event,
      va_printed_date = ne_printed_date event,
      va_date_label_type = ne_date_label_type event,
      va_occurred_at = ne_occurred_at event,
      va_source = ne_source event,
      va_confidence = ne_confidence event,
      va_idempotency_key = ne_idempotency_key event,
      va_event_metadata = ne_metadata event,
      va_recorded_at = ne_recorded_at event\<rparr>"

text \<open>The row an INSERT of these values makes, with the server's defaults for \<^verbatim>\<open>id\<close> and \<^verbatim>\<open>recorded_at\<close>.\<close>

definition row_of_values :: "uuid \<Rightarrow> datetime \<Rightarrow> event_values \<Rightarrow> event_row" where
  "row_of_values new_id now v =
     \<lparr>er_id = new_id,
      er_household_id = va_household_id v,
      er_canonical_product_id = va_canonical_product_id v,
      er_event_type = va_event_type v,
      er_quantity_delta = va_quantity_delta v,
      er_unit = va_unit v,
      er_storage_location = va_storage_location v,
      er_printed_date = va_printed_date v,
      er_date_label_type = va_date_label_type v,
      er_occurred_at = va_occurred_at v,
      er_recorded_at = (case va_recorded_at v of Some t \<Rightarrow> t | None \<Rightarrow> now),
      er_source = va_source v,
      er_confidence = va_confidence v,
      er_idempotency_key = va_idempotency_key v,
      er_event_metadata = va_event_metadata v\<rparr>"

definition to_row :: "uuid \<Rightarrow> datetime \<Rightarrow> uuid \<Rightarrow> new_inventory_event \<Rightarrow> event_row" where
  "to_row new_id now household_id event = row_of_values new_id now (to_values household_id event)"

text \<open>The flush of a batch; \<open>new_id i\<close> is the id the server generates for its \<open>i\<close>-th row.\<close>

fun flush_events :: "event_row list \<Rightarrow> kitchen_db \<Rightarrow> repo_error + event_row list \<times> kitchen_db" where
  "flush_events [] db = Inr ([], db)"
| "flush_events (r # rs) db =
     bind_sum (run_db (insert_event r db)) (\<lambda>(r', db').
     bind_sum (flush_events rs db') (\<lambda>(rs', db''). Inr (r' # rs', db'')))"

definition append_many ::
  "(nat \<Rightarrow> uuid) \<Rightarrow> datetime \<Rightarrow> uuid \<Rightarrow> new_inventory_event list \<Rightarrow> kitchen_db
     \<Rightarrow> repo_error + inventory_event list \<times> kitchen_db" where
  "append_many new_id now household_id events db =
     (if events = [] then Inr ([], db)
      else bind_sum
        (flush_events (map (\<lambda>(i, e). to_row (new_id i) now household_id e) (enumerate 0 events)) db)
        (\<lambda>(rows, db'). Inr (map event_to_domain rows, db')))"

definition append_one ::
  "(nat \<Rightarrow> uuid) \<Rightarrow> datetime \<Rightarrow> uuid \<Rightarrow> new_inventory_event \<Rightarrow> kitchen_db
     \<Rightarrow> repo_error + inventory_event \<times> kitchen_db" where
  "append_one new_id now household_id event db =
     bind_sum (append_many new_id now household_id [event] db)
       (\<lambda>(appended, db'). case appended of [] \<Rightarrow> Inl IndexError | e # _ \<Rightarrow> Inr (e, db'))"

definition get_by_idempotency_key :: "kitchen_db \<Rightarrow> uuid \<Rightarrow> string \<Rightarrow> repo_error + inventory_event option" where
  "get_by_idempotency_key db household_id key =
     bind_sum (one_or_none (filter (\<lambda>r. er_idempotency_key r = key) (scoped_events db household_id)))
       (\<lambda>row. Inr (map_option event_to_domain row))"

definition append_if_new ::
  "uuid \<Rightarrow> datetime \<Rightarrow> uuid \<Rightarrow> new_inventory_event \<Rightarrow> kitchen_db
     \<Rightarrow> repo_error + (inventory_event \<times> bool) \<times> kitchen_db" where
  "append_if_new new_id now household_id event db =
     bind_sum (run_db (insert_event_if_new (row_of_values new_id now (to_values household_id event)) db))
       (\<lambda>(row, db').
          case row of
            Some r \<Rightarrow> Inr ((event_to_domain r, True), db')
          | None \<Rightarrow>
              bind_sum (get_by_idempotency_key db' household_id (ne_idempotency_key event))
                (\<lambda>existing. case existing of
                    None \<Rightarrow> Inl IdempotencyKeyConflictError
                  | Some e \<Rightarrow> Inr ((e, False), db')))"

subsection \<open>Reads\<close>

definition row_known :: "datetime \<Rightarrow> event_row \<Rightarrow> bool" where
  "row_known as_of r = (er_occurred_at r \<le> as_of \<and> er_recorded_at r \<le> as_of)"

definition events_known_as_of :: "kitchen_db \<Rightarrow> uuid \<Rightarrow> datetime \<Rightarrow> uuid option \<Rightarrow> inventory_event list" where
  "events_known_as_of db household_id as_of canonical_product_id =
     (let statement = filter (row_known as_of) (scoped_events db household_id)
      in fetch_events
           (case canonical_product_id of
              None \<Rightarrow> statement
            | Some p \<Rightarrow> filter (\<lambda>r. er_canonical_product_id r = p) statement))"

definition events_known_between :: "kitchen_db \<Rightarrow> uuid \<Rightarrow> datetime \<Rightarrow> datetime \<Rightarrow> inventory_event list" where
  "events_known_between db household_id after as_of =
     fetch_events
       (filter (\<lambda>r. er_occurred_at r \<le> as_of \<and> er_recorded_at r \<le> as_of \<and>
                    (er_occurred_at r > after \<or> er_recorded_at r > after))
          (scoped_events db household_id))"

definition get_event :: "kitchen_db \<Rightarrow> uuid \<Rightarrow> uuid \<Rightarrow> repo_error + inventory_event option" where
  "get_event db household_id event_id =
     bind_sum (one_or_none (filter (\<lambda>r. er_id r = event_id) (scoped_events db household_id)))
       (\<lambda>row. Inr (map_option event_to_domain row))"

definition count_known_as_of :: "kitchen_db \<Rightarrow> uuid \<Rightarrow> datetime \<Rightarrow> int" where
  "count_known_as_of db household_id as_of =
     int (length (filter (row_known as_of) (scoped_events db household_id)))"

definition latest_recorded_at :: "kitchen_db \<Rightarrow> uuid \<Rightarrow> datetime \<Rightarrow> datetime option" where
  "latest_recorded_at db household_id as_of =
     (case map er_recorded_at (filter (row_known as_of) (scoped_events db household_id)) of
        [] \<Rightarrow> None
      | t # ts \<Rightarrow> Some (fold max ts t))"

definition products_known_as_of :: "kitchen_db \<Rightarrow> uuid \<Rightarrow> datetime \<Rightarrow> uuid list" where
  "products_known_as_of db household_id as_of =
     remdups (map er_canonical_product_id (filter (row_known as_of) (scoped_events db household_id)))"

subsection \<open>Rows and domain events\<close>

lemma event_to_domain_sel [simp]:
  "ev_id (event_to_domain r) = er_id r" "ev_household_id (event_to_domain r) = er_household_id r"
  "ev_canonical_product_id (event_to_domain r) = er_canonical_product_id r"
  "ev_occurred_at (event_to_domain r) = er_occurred_at r" "ev_recorded_at (event_to_domain r) = er_recorded_at r"
  "ev_idempotency_key (event_to_domain r) = er_idempotency_key r"
  "ev_quantity_delta (event_to_domain r) = er_quantity_delta r"
  "ev_unit (event_to_domain r) = er_unit r"
  by (simp_all add: event_to_domain_def)

lemma event_to_domain_inject [simp]: "event_to_domain r = event_to_domain r' \<longleftrightarrow> r = r'"
  by (auto simp: event_to_domain_def intro!: event_row.equality)

lemma mset_fetch_events: "mset (fetch_events rows) = image_mset event_to_domain (mset rows)"
  by (simp add: fetch_events_def ordered_events_def)

lemma set_fetch_events [simp]: "set (fetch_events rows) = event_to_domain ` set rows"
  by (simp add: fetch_events_def ordered_events_def)

lemma row_known_to: "known_to h t (event_to_domain r) \<longleftrightarrow> er_household_id r = h \<and> row_known t r"
  by (auto simp: known_to_def row_known_def)

lemma between_rows:
  "events_known_between db h a t =
     fetch_events (filter (\<lambda>r. row_known t r \<and> \<not> row_known a r) (scoped_events db h))"
  by (auto simp: events_known_between_def row_known_def intro!: arg_cong[where f = fetch_events] filter_cong)

lemma known_rows: "events_known_as_of db h t None = fetch_events (filter (row_known t) (scoped_events db h))"
  by (simp add: events_known_as_of_def)

lemma set_known:
  "set (events_known_as_of db h t p) =
     {e \<in> event_to_domain ` set (db_events db). known_to h t e \<and> pred_option (\<lambda>p. ev_canonical_product_id e = p) p}"
  by (auto simp: events_known_as_of_def scoped_events_def row_known_to Let_def split: option.split)

subsection \<open>The log as an interface\<close>

locale event_log =
  fixes known :: "'db \<Rightarrow> uuid \<Rightarrow> datetime \<Rightarrow> inventory_event list"
    and between :: "'db \<Rightarrow> uuid \<Rightarrow> datetime \<Rightarrow> datetime \<Rightarrow> inventory_event list"
  assumes known_sound: "e \<in> set (known db h t) \<Longrightarrow> known_to h t e"
    and known_grows: "t \<le> t' \<Longrightarrow> mset (known db h t') = mset (known db h t) + mset (between db h t t')"
begin

lemma fold_known_total: "fold_events (known db h t) h t = Inr (projr (fold_events (known db h t) h t))"
proof -
  have "list_all (known_to h t) (known db h t)"
    using known_sound by (simp add: list_all_iff)
  then obtain s where "fold_events (known db h t) h t = Inr s"
    using fold_events_Inr_iff by blast
  then show ?thesis by simp
qed

text \<open>Catching up from what was known at \<open>t\<close> with what became known since is a full replay.\<close>

lemma catch_up:
  assumes "t \<le> t'"
  shows "apply_events (projr (fold_events (known db h t) h t)) (between db h t t') t'
    = fold_events (known db h t') h t'"
proof -
  have "apply_events (projr (fold_events (known db h t) h t)) (between db h t t') t'
      = fold_events (known db h t @ between db h t t') h t'"
    by (rule apply_events_resume[OF fold_known_total assms])
  also have "\<dots> = fold_events (known db h t') h t'"
  proof -
    have "mset (known db h t') = mset (known db h t @ between db h t t')"
      using known_grows[OF assms] by simp
    then show ?thesis
      using fold_events_perm[OF _ fold_known_total] fold_known_total by metis
  qed
  finally show ?thesis .
qed

end

interpretation log: event_log "\<lambda>db h t. events_known_as_of db h t None" events_known_between
proof unfold_locales
  fix db h t e
  assume "e \<in> set (events_known_as_of db h t None)"
  then show "known_to h t e"
    by (simp add: set_known)
next
  fix db h and t t' :: datetime
  assume "t \<le> t'"
  then have "row_known t' r" if "row_known t r" for r
    using that by (auto simp: row_known_def)
  then have "filter_mset (row_known t') (mset (scoped_events db h)) =
      filter_mset (row_known t) (mset (scoped_events db h)) +
      filter_mset (\<lambda>r. row_known t' r \<and> \<not> row_known t r) (mset (scoped_events db h))"
    by (intro multiset_eqI) auto
  then show "mset (events_known_as_of db h t' None) =
      mset (events_known_as_of db h t None) + mset (events_known_between db h t t')"
    by (simp add: known_rows between_rows mset_fetch_events flip: image_mset_union mset_filter)
qed

subsection \<open>Order and tenancy\<close>

lemma sort_events_unique:
  assumes "mset rows = mset rows'" and "distinct (map er_id rows)"
  shows "ordered_events rows = ordered_events rows'"
  unfolding ordered_events_def
proof (rule sort_key_mset_cong[OF assms(1)])
  have "inj_on er_id (set rows')"
    using assms by (metis distinct_map mset_eq_setD)
  then show "inj_on event_order (set rows')"
    by (auto simp: inj_on_def event_order_def)
qed

lemma scoped_events_ids: "db_ok db \<Longrightarrow> distinct (map er_id (scoped_events db h))"
  by (auto simp: db_ok_def events_ok_def scoped_events_def distinct_map_filter)

lemma scoped_events_keys: "db_ok db \<Longrightarrow> distinct (map er_idempotency_key (scoped_events db h))"
  by (auto simp: db_ok_def events_ok_def scoped_events_def distinct_map_filter)

lemma filter_by_key:
  assumes "distinct (map f xs)"
  shows "filter (\<lambda>x. f x = k) xs = (case find (\<lambda>x. f x = k) xs of None \<Rightarrow> [] | Some x \<Rightarrow> [x])"
  using assms
proof (induction xs)
  case (Cons x xs)
  have "filter (\<lambda>y. f y = k) xs = []" if "f x = k"
    using Cons.prems that by (auto simp: filter_empty_conv image_iff)
  then show ?case
    using Cons by (cases "f x = k") simp_all
qed simp

lemma one_or_none_by_key:
  assumes "distinct (map f xs)"
  shows "one_or_none (filter (\<lambda>x. f x = k) xs) = Inr (find (\<lambda>x. f x = k) xs)"
  using assms by (auto simp: filter_by_key split: option.split)

lemma get_event_find:
  assumes "db_ok db"
  shows "get_event db h i = Inr (map_option event_to_domain (find (\<lambda>r. er_id r = i) (scoped_events db h)))"
  by (simp add: get_event_def one_or_none_by_key[OF scoped_events_ids[OF assms]])

lemma get_by_key_find:
  assumes "db_ok db"
  shows "get_by_idempotency_key db h k =
    Inr (map_option event_to_domain (find (\<lambda>r. er_idempotency_key r = k) (scoped_events db h)))"
  by (simp add: get_by_idempotency_key_def one_or_none_by_key[OF scoped_events_keys[OF assms]])

subsection \<open>What the writes do\<close>

lemma run_db_Inr [simp]: "run_db m = Inr x \<longleftrightarrow> m = Inr x"
  by (cases m) (simp_all add: run_db_def)

lemma run_db_simps [simp]: "run_db (Inr x) = Inr x" "run_db (Inl e) = Inl (DbError e)"
  by (simp_all add: run_db_def)

lemma store_event_same:
  assumes "store_event r = Inr r'"
  shows "er_id r' = er_id r" "er_household_id r' = er_household_id r" "er_recorded_at r' = er_recorded_at r"
    "er_occurred_at r' = er_occurred_at r" "er_canonical_product_id r' = er_canonical_product_id r"
    "er_quantity_delta r' = er_quantity_delta r"
  using assms by (auto simp: store_event_def bind_sum_Inr_iff split: if_splits)

lemma row_of_values_sel [simp]:
  "er_id (row_of_values i now v) = i" "er_household_id (row_of_values i now v) = va_household_id v"
  "er_idempotency_key (row_of_values i now v) = va_idempotency_key v"
  "er_occurred_at (row_of_values i now v) = va_occurred_at v"
  by (simp_all add: row_of_values_def)

lemma to_values_sel [simp]:
  "va_household_id (to_values h e) = h" "va_idempotency_key (to_values h e) = ne_idempotency_key e"
  "va_occurred_at (to_values h e) = ne_occurred_at e" "va_recorded_at (to_values h e) = ne_recorded_at e"
  by (simp_all add: to_values_def)

lemma flush_events_appends:
  assumes "flush_events rs db = Inr (rs', db')"
  shows "db' = db\<lparr>db_events := db_events db @ rs'\<rparr>"
    and "list_all2 (\<lambda>r r'. store_event r = Inr r') rs rs'"
    and "db_step\<^sup>*\<^sup>* db db'"
  using assms
proof (induction rs arbitrary: db rs')
  case (Cons r rs)
  {
    case 1
    then show ?case
      by (auto simp: bind_sum_Inr_iff insert_event_Inr dest!: Cons.IH(1))
  next
    case 2
    then show ?case
      using Cons.IH(2) by (auto simp: bind_sum_Inr_iff insert_event_Inr)
  next
    case 3
    then obtain r1 db1 rs1 where ins: "insert_event r db = Inr (r1, db1)"
      and rest: "flush_events rs db1 = Inr (rs1, db')"
      by (auto simp: bind_sum_Inr_iff)
    have "db_step db db1"
      using ins by (intro db_step.intros[of "InsertEvent r"]) simp
    then show ?case
      using Cons.IH(3)[OF rest] by (rule converse_rtranclp_into_rtranclp)
  }
qed simp_all

lemma append_if_new_cases:
  assumes "append_if_new i now h e db = Inr ((event, created), db')"
  obtains r where "created" "insert_event_if_new (row_of_values i now (to_values h e)) db = Inr (Some r, db')"
      "event = event_to_domain r"
  | "\<not> created" "insert_event_if_new (row_of_values i now (to_values h e)) db = Inr (None, db)" "db' = db"
      "get_by_idempotency_key db h (ne_idempotency_key e) = Inr (Some event)"
proof -
  obtain row db1 where ins: "insert_event_if_new (row_of_values i now (to_values h e)) db = Inr (row, db1)"
    and cont: "(case row of Some r \<Rightarrow> Inr ((event_to_domain r, True), db1)
      | None \<Rightarrow> bind_sum (get_by_idempotency_key db1 h (ne_idempotency_key e))
          (\<lambda>existing. case existing of None \<Rightarrow> Inl IdempotencyKeyConflictError | Some e \<Rightarrow> Inr ((e, False), db1)))
      = Inr ((event, created), db')"
    using assms by (auto simp: append_if_new_def bind_sum_Inr_iff split: prod.splits)
  show thesis
  proof (cases row)
    case None
    then have "db1 = db"
      using ins by (auto simp: insert_event_if_new_Inr split: if_splits)
    with None ins cont that(2) show thesis
      by (auto simp: bind_sum_Inr_iff split: option.splits)
  next
    case (Some r)
    with ins cont that(1) show thesis by simp
  qed
qed

lemma append_if_new_step:
  assumes "append_if_new i now h e db = Inr (res, db')"
  shows "db_step db db'"
proof -
  obtain event created where res: "res = (event, created)" by (cases res)
  show ?thesis
    using assms unfolding res
    by (cases rule: append_if_new_cases)
      (auto intro!: db_step.intros[of "InsertEventIfNew (row_of_values i now (to_values h e))"])
qed

subsection \<open>Tenancy as an interface\<close>

text \<open>
  A read is scoped to a table's owner column when it cannot tell apart two databases that agree on the
  owner's rows.
\<close>

locale tenant_read =
  fixes rows :: "kitchen_db \<Rightarrow> 'r list" and owner :: "'r \<Rightarrow> uuid" and read :: "kitchen_db \<Rightarrow> uuid \<Rightarrow> 'a"
  assumes scoped: "filter (\<lambda>r. owner r = h) (rows db) = filter (\<lambda>r. owner r = h) (rows db') \<Longrightarrow>
    read db h = read db' h"
begin

lemma append_invisible:
  assumes "rows db' = rows db @ new" and "list_all (\<lambda>r. owner r \<noteq> h) new"
  shows "read db' h = read db h"
proof (rule scoped)
  have "filter (\<lambda>r. owner r = h) new = []"
    using assms(2) by (auto simp: list_all_iff filter_empty_conv)
  then show "filter (\<lambda>r. owner r = h) (rows db') = filter (\<lambda>r. owner r = h) (rows db)"
    by (simp add: assms(1))
qed

lemma map_invisible:
  assumes "rows db' = map f (rows db)" and "\<And>r. owner (f r) = owner r"
    and "\<And>r. r \<in> set (rows db) \<Longrightarrow> owner r = h \<Longrightarrow> f r = r"
  shows "read db' h = read db h"
proof (rule scoped)
  have "map f (filter (\<lambda>r. owner r = h) (rows db)) = filter (\<lambda>r. owner r = h) (rows db)"
    using assms(3) by (intro map_idI) auto
  then show "filter (\<lambda>r. owner r = h) (rows db') = filter (\<lambda>r. owner r = h) (rows db)"
    by (simp add: assms(1,2) filter_map comp_def)
qed

end

definition event_reads ::
  "kitchen_db \<Rightarrow> uuid \<Rightarrow>
     (datetime \<Rightarrow> uuid option \<Rightarrow> inventory_event list) \<times> (datetime \<Rightarrow> datetime \<Rightarrow> inventory_event list) \<times>
     (uuid \<Rightarrow> repo_error + inventory_event option) \<times> (string \<Rightarrow> repo_error + inventory_event option) \<times>
     (datetime \<Rightarrow> int) \<times> (datetime \<Rightarrow> datetime option) \<times> (datetime \<Rightarrow> uuid list)" where
  "event_reads db h =
     (events_known_as_of db h, events_known_between db h, get_event db h, get_by_idempotency_key db h,
      count_known_as_of db h, latest_recorded_at db h, products_known_as_of db h)"

lemmas event_read_defs = events_known_as_of_def events_known_between_def get_event_def
  get_by_idempotency_key_def count_known_as_of_def latest_recorded_at_def products_known_as_of_def

interpretation events: tenant_read db_events er_household_id event_reads
  by unfold_locales (simp add: event_reads_def event_read_defs scoped_events_def fun_eq_iff)

lemma find_SomeD: "find P xs = Some x \<Longrightarrow> x \<in> set xs \<and> P x"
  by (induction xs) (auto split: if_splits)

lemma find_unique: "distinct (map f xs) \<Longrightarrow> x \<in> set xs \<Longrightarrow> find (\<lambda>y. f y = f x) xs = Some x"
  by (induction xs) (auto simp: image_iff)

lemma find_scoped:
  "find P (scoped_events db h) = Some r \<Longrightarrow> r \<in> set (db_events db) \<and> er_household_id r = h \<and> P r"
  by (auto simp: scoped_events_def dest: find_SomeD)

lemma append_if_new_owner:
  assumes "db_ok db" and "append_if_new i now h e db = Inr ((event, created), db')"
  shows "ev_household_id event = h"
  using assms(2)
proof (cases rule: append_if_new_cases)
  case (1 r)
  then show ?thesis
    by (auto simp: insert_event_if_new_Inr store_event_same split: if_splits)
next
  case 2
  then show ?thesis
    by (auto simp: get_by_key_find[OF assms(1)] dest: find_scoped)
qed

lemma store_event_key: "store_event r = Inr r' \<Longrightarrow> length (er_idempotency_key r) \<le> 200 \<Longrightarrow>
    er_idempotency_key r' = er_idempotency_key r"
  by (auto simp: store_event_def bind_sum_Inr_iff varchar_def split: if_splits)

text \<open>Whether the values of an event fit their columns and constraints does not depend on its id or stamp.\<close>

lemma store_row_of_values:
  "store_event (row_of_values i now v) = Inr r \<Longrightarrow>
     store_event (row_of_values i' now' v) =
       Inr (r\<lparr>er_id := i', er_recorded_at := er_recorded_at (row_of_values i' now' v)\<rparr>)"
  by (auto simp: store_event_def bind_sum_Inr_iff row_of_values_def split: if_splits)

lemma event_checks_stamp [simp]: "event_checks (r\<lparr>er_id := i, er_recorded_at := t\<rparr>) = event_checks r"
  by (simp add: event_checks_def)

lemma append_if_new_again:
  assumes ok: "db_ok db" and fits: "length (ne_idempotency_key e) \<le> 200"
    and first: "append_if_new i now h e db = Inr ((event, created), db')"
  shows "append_if_new i' now' h e db' = Inr ((event, False), db')"
proof -
  have ok': "db_ok db'"
    using db_steps_ok[OF r_into_rtranclp[of db_step] ok] append_if_new_step[OF first] by blast
  obtain r where r: "store_event (row_of_values i now (to_values h e)) = Inr r" "event_checks r"
    using first by (cases rule: append_if_new_cases) (auto simp: insert_event_if_new_Inr split: if_splits)
  have key: "er_idempotency_key r = ne_idempotency_key e"
    using store_event_key[OF r(1)] fits by simp
  have "get_by_idempotency_key db' h (ne_idempotency_key e) = Inr (Some event)"
    using first
  proof (cases rule: append_if_new_cases)
    case (1 q)
    then have q: "q = r" "r \<in> set (scoped_events db' h)"
      using r by (auto simp: insert_event_if_new_Inr scoped_events_def store_event_same split: if_splits)
    have "find (\<lambda>q. er_idempotency_key q = er_idempotency_key r) (scoped_events db' h) = Some r"
      by (rule find_unique[OF scoped_events_keys[OF ok'] q(2)])
    then show ?thesis
      using 1 q key by (simp add: get_by_key_find[OF ok'])
  qed simp
  moreover from this have "insert_event_if_new (row_of_values i' now' (to_values h e)) db' = Inr (None, db')"
    using store_row_of_values[OF r(1), of i' now'] r(2) key
    by (force simp: insert_event_if_new_Inr get_by_key_find[OF ok'] dest!: find_scoped intro!: rev_image_eqI)
  ultimately show ?thesis
    by (simp add: append_if_new_def)
qed

lemma fetch_events_sorted: "sorted (map (\<lambda>e. (ev_recorded_at e, ev_occurred_at e, ev_id e)) (fetch_events rows))"
proof -
  have "sorted (map event_order (ordered_events rows))"
    by (simp add: ordered_events_def)
  then show ?thesis
    by (simp add: fetch_events_def event_order_def[abs_def] comp_def)
qed

lemma distinct_fetch_events: "distinct (map er_id rows) \<Longrightarrow> distinct (map ev_id (fetch_events rows))"
  by (simp add: fetch_events_def ordered_events_def comp_def distinct_map)

lemma fold_max_Max: "fold max ts t = Max (insert t (set ts))" for t :: "'a :: linorder"
  by (metis Max.set_eq_fold list.set(2))

lemma store_event_fixed: "store_event r = Inr r \<Longrightarrow> varchar 200 (er_idempotency_key r) = Inr (er_idempotency_key r)"
  by (cases r) (auto simp: store_event_def bind_sum_Inr_iff split: if_splits)

text \<open>Appended rows that either clock stamps after an instant do not change what was known at it.\<close>

lemma known_as_of_later_rows:
  assumes "db_events db' = db_events db @ new" and "list_all (\<lambda>r. er_recorded_at r > t \<or> er_occurred_at r > t) new"
  shows "events_known_as_of db' h t p = events_known_as_of db h t p"
proof -
  have "filter (row_known t) (filter (\<lambda>r. er_household_id r = h) new) = []"
    using assms(2) by (auto simp: filter_empty_conv row_known_def list_all_iff)
  then have "filter (row_known t) (scoped_events db' h) = filter (row_known t) (scoped_events db h)"
    by (simp add: scoped_events_def assms(1))
  then show ?thesis
    by (simp add: events_known_as_of_def)
qed

subsection \<open>Examples\<close>

definition example_new :: new_inventory_event where
  "example_new =
     \<lparr>ne_canonical_product_id = 3, ne_event_type = PURCHASED, ne_quantity_delta = 2000, ne_unit = '' L'',
      ne_storage_location = FRIDGE, ne_occurred_at = 10, ne_source = ''user_manual'', ne_idempotency_key = ''till-1'',
      ne_printed_date = None, ne_date_label_type = None, ne_confidence = 1, ne_recorded_at = None,
      ne_metadata = fmempty\<rparr>"

definition example_log :: kitchen_db where
  "example_log = example_db\<lparr>db_events := [example_row]\<rparr>"

lemma example_log_ok [simp]: "db_ok example_log"
  using db_steps_ok[OF r_into_rtranclp[of db_step, OF example_row_step] example_db_ok]
  by (simp add: example_log_def)

lemma example_append: "append_if_new 1 12 example_household example_new example_db
    = Inr ((event_to_domain example_row, True), example_log)"
  by code_simp

subsection \<open>Properties\<close>

text \<open>
  The incremental window.  \<open>events_known_between\<close> returns exactly the set difference of what is known
  at its two ends, each event once, whichever clock brought an event into the window -- also one
  recorded long ago whose \<^verbatim>\<open>occurred_at\<close> only now has passed.
\<close>

theorem known_between_is_difference:
  assumes "db_ok db"
  shows "set (events_known_between db h after t) =
      set (events_known_as_of db h t None) - set (events_known_as_of db h after None) \<and>
    distinct (map ev_id (events_known_between db h after t))"
proof
  show "set (events_known_between db h after t) =
      set (events_known_as_of db h t None) - set (events_known_as_of db h after None)"
    by (auto simp: known_rows between_rows)
  show "distinct (map ev_id (events_known_between db h after t))"
    unfolding between_rows
    using scoped_events_ids[OF assms, of h] by (intro distinct_fetch_events) (simp add: distinct_map_filter)
qed

theorem known_between_is_difference_witness:
  "map ev_id (events_known_between example_log example_household 11 12) = [1] \<and>
   set (events_known_between example_log example_household 11 12) =
     set (events_known_as_of example_log example_household 12 None) -
     set (events_known_as_of example_log example_household 11 None)"
proof
  show "map ev_id (events_known_between example_log example_household 11 12) = [1]"
    by code_simp
qed (use known_between_is_difference[OF example_log_ok, of example_household 11 12] in blast)

text \<open>
  Replays are reproducible.  Two databases holding the same events, in whatever physical order, answer
  \<open>events_known_as_of\<close> with the same list; it is sorted by system time, then kitchen time, then id; and it
  contains exactly the household's events that both clocks had reached, of the product asked for.
\<close>

theorem known_as_of_is_canonical:
  assumes "db_ok db" and "mset (db_events db) = mset (db_events db')"
  shows "events_known_as_of db h t p = events_known_as_of db' h t p \<and>
    sorted (map (\<lambda>e. (ev_recorded_at e, ev_occurred_at e, ev_id e)) (events_known_as_of db h t p)) \<and>
    set (events_known_as_of db h t p) =
      {e \<in> event_to_domain ` set (db_events db). known_to h t e \<and> pred_option (\<lambda>p. ev_canonical_product_id e = p) p}"
proof (intro conjI)
  let ?rows = "\<lambda>db. case p of None \<Rightarrow> filter (row_known t) (scoped_events db h)
      | Some p \<Rightarrow> filter (\<lambda>r. er_canonical_product_id r = p) (filter (row_known t) (scoped_events db h))"
  have eq: "events_known_as_of db h t p = fetch_events (?rows db)" for db
    by (simp add: events_known_as_of_def Let_def)
  have "mset (?rows db) = mset (?rows db')"
    using assms(2) by (auto simp: scoped_events_def split: option.split)
  moreover have "distinct (map er_id (?rows db))"
    using scoped_events_ids[OF assms(1), of h] by (auto simp: distinct_map_filter split: option.split)
  ultimately show "events_known_as_of db h t p = events_known_as_of db' h t p"
    unfolding eq fetch_events_def by (simp add: sort_events_unique)
  show "sorted (map (\<lambda>e. (ev_recorded_at e, ev_occurred_at e, ev_id e)) (events_known_as_of db h t p))"
    unfolding eq by (rule fetch_events_sorted)
qed (rule set_known)

definition example_row2 :: event_row where
  "example_row2 = example_row\<lparr>er_id := 2, er_idempotency_key := ''till-2'', er_recorded_at := 11\<rparr>"

lemma example_log2_ok [simp]: "db_ok (example_db\<lparr>db_events := [example_row, example_row2]\<rparr>)"
  by (simp add: example_db_defs example_row2_def db_ok_def tables_ok_defs store_household_def store_product_def
      store_event_def varchar_def varchar_opt_def household_checks_def product_checks_def event_checks_def
      not_blank_def btrim_def refs_defs label_needs_date_def fits_numeric_14_3_def)

theorem known_as_of_is_canonical_witness:
  "map ev_id (events_known_as_of (example_db\<lparr>db_events := [example_row, example_row2]\<rparr>) example_household 12 None) = [2, 1] \<and>
   events_known_as_of (example_db\<lparr>db_events := [example_row, example_row2]\<rparr>) example_household 12 None =
   events_known_as_of (example_db\<lparr>db_events := [example_row2, example_row]\<rparr>) example_household 12 None"
proof
  show "map ev_id (events_known_as_of (example_db\<lparr>db_events := [example_row, example_row2]\<rparr>) example_household 12 None) = [2, 1]"
    by code_simp
qed (use known_as_of_is_canonical[OF example_log2_ok, of "example_db\<lparr>db_events := [example_row2, example_row]\<rparr>"
      example_household 12 None] in simp)

text \<open>
  Tenancy of every read.  No read of the repository for a household depends on another household's
  rows: after any further rows of other households, all seven reads answer as before; and no read
  ever returns another household's event.
\<close>

theorem event_reads_are_scoped:
  assumes "db_events db' = db_events db @ new" and "list_all (\<lambda>r. er_household_id r \<noteq> h) new"
  shows "event_reads db' h = event_reads db h \<and>
    (\<forall>e. e \<in> set (events_known_as_of db h t p) \<longrightarrow> ev_household_id e = h) \<and>
    (\<forall>e i. get_event db h i = Inr (Some e) \<longrightarrow> ev_household_id e = h) \<and>
    (\<forall>e k. get_by_idempotency_key db h k = Inr (Some e) \<longrightarrow> ev_household_id e = h)"
proof (intro conjI)
  show "event_reads db' h = event_reads db h"
    by (rule events.append_invisible[OF assms])
  have one: "x \<in> set xs" if "one_or_none xs = Inr (Some x)" for x :: event_row and xs
    using that by (induction xs rule: one_or_none.induct) simp_all
  show "\<forall>e i. get_event db h i = Inr (Some e) \<longrightarrow> ev_household_id e = h"
    "\<forall>e k. get_by_idempotency_key db h k = Inr (Some e) \<longrightarrow> ev_household_id e = h"
    by (auto simp: get_event_def get_by_idempotency_key_def bind_sum_Inr_iff scoped_events_def dest!: one)
qed (simp add: set_known known_to_def)

theorem event_reads_are_scoped_witness:
  "list_all (\<lambda>r. er_household_id r \<noteq> 8) [example_row] \<and>
   event_reads example_log 8 = event_reads example_db 8"
  using event_reads_are_scoped[of example_log example_db "[example_row]" 8]
  by (simp add: example_log_def example_db_defs)

text \<open>
  The past does not change.  Whatever statements run later, as long as the events they append are
  stamped after \<open>t\<close> by either clock, the household's knowledge as of \<open>t\<close> is the same list of events.
\<close>

theorem past_is_immutable:
  assumes "db_step\<^sup>*\<^sup>* db db'"
    and "list_all (\<lambda>r. er_recorded_at r > t \<or> er_occurred_at r > t) (drop (length (db_events db)) (db_events db'))"
  shows "events_known_as_of db' h t p = events_known_as_of db h t p"
proof -
  obtain new where new: "db_events db' = db_events db @ new"
    using db_steps_log[OF assms(1)] by blast
  then show ?thesis
    using known_as_of_later_rows[OF new] assms(2) by simp
qed

theorem past_is_immutable_witness:
  "events_known_as_of example_log example_household 11 None = events_known_as_of example_db example_household 11 None"
proof (rule past_is_immutable)
  show "db_step\<^sup>*\<^sup>* example_db example_log"
    using example_row_step by (simp add: example_log_def)
  show "list_all (\<lambda>r. er_recorded_at r > 11 \<or> er_occurred_at r > 11)
      (drop (length (db_events example_db)) (db_events example_log))"
    by (simp add: example_log_def example_db_defs)
qed

text \<open>
  Retries are safe.  Once \<open>append_if_new\<close> has answered for an event, the same call at any later time and
  with any server-generated id answers with the same event, marked not new, and changes nothing.
\<close>

theorem append_if_new_idempotent:
  assumes "db_ok db" and "length (ne_idempotency_key e) \<le> 200"
    and "append_if_new i now h e db = Inr ((event, created), db')"
  shows "append_if_new i' now' h e db' = Inr ((event, False), db')"
  by (rule append_if_new_again[OF assms])

theorem append_if_new_idempotent_witness:
  "append_if_new 2 15 example_household example_new example_log
    = Inr ((event_to_domain example_row, False), example_log)"
  by (rule append_if_new_idempotent[OF example_db_ok _ example_append]) (simp add: example_new_def)

text \<open>
  What \<open>append_if_new\<close> may answer.  An answered event always belongs to the asking household.  A
  new one is the one row by which the log has grown, stamped with the caller's \<^verbatim>\<open>recorded_at\<close> or the
  server's clock; otherwise the database is unchanged.
\<close>

theorem append_if_new_effect:
  assumes "db_ok db" and "append_if_new i now h e db = Inr ((event, created), db')"
  shows "ev_household_id event = h \<and>
    (if created
     then \<exists>r. db' = db\<lparr>db_events := db_events db @ [r]\<rparr> \<and> event = event_to_domain r \<and> er_id r = i \<and>
       er_recorded_at r = (case ne_recorded_at e of Some t \<Rightarrow> t | None \<Rightarrow> now)
     else db' = db \<and> event \<in> event_to_domain ` set (db_events db))"
proof (rule conjI[OF append_if_new_owner[OF assms]], cases rule: append_if_new_cases[OF assms(2)])
  case (1 r)
  then show "if created
     then \<exists>r. db' = db\<lparr>db_events := db_events db @ [r]\<rparr> \<and> event = event_to_domain r \<and> er_id r = i \<and>
       er_recorded_at r = (case ne_recorded_at e of Some t \<Rightarrow> t | None \<Rightarrow> now)
     else db' = db \<and> event \<in> event_to_domain ` set (db_events db)"
    by (auto simp: insert_event_if_new_Inr row_of_values_def dest: store_event_same split: if_splits)
next
  case 2
  then show "if created
     then \<exists>r. db' = db\<lparr>db_events := db_events db @ [r]\<rparr> \<and> event = event_to_domain r \<and> er_id r = i \<and>
       er_recorded_at r = (case ne_recorded_at e of Some t \<Rightarrow> t | None \<Rightarrow> now)
     else db' = db \<and> event \<in> event_to_domain ` set (db_events db)"
    by (auto simp: get_by_key_find[OF assms(1)] dest: find_scoped)
qed

theorem append_if_new_effect_witness:
  "ev_household_id (event_to_domain example_row) = example_household \<and>
   (\<exists>r. example_log = example_db\<lparr>db_events := db_events example_db @ [r]\<rparr> \<and> er_recorded_at r = 12)"
  using append_if_new_effect[OF example_db_ok example_append] by (auto simp: example_new_def)

text \<open>
  No leak across households.  When the idempotency key is already in another household's log, the call
  raises \<open>IdempotencyKeyConflictError\<close> for every event that passes the table's own checks, and so
  neither appends nor returns anything.
\<close>

theorem append_if_new_conflict:
  assumes "db_ok db" and "other \<in> set (db_events db)" and "er_household_id other \<noteq> h"
    and "er_idempotency_key other = ne_idempotency_key e"
    and "store_event (row_of_values i now (to_values h e)) = Inr r" and "event_checks r"
  shows "append_if_new i now h e db = Inl IdempotencyKeyConflictError"
proof -
  let ?k = "ne_idempotency_key e"
  have "varchar 200 ?k = Inr ?k"
    using assms(1,2,4) store_event_fixed[of other] by (simp add: db_ok_def events_ok_def list_all_iff)
  then have key: "er_idempotency_key r = ?k"
    using assms(5) by (auto simp: store_event_def bind_sum_Inr_iff split: if_splits)
  have unique: "q = other" if "q \<in> set (db_events db)" "er_idempotency_key q = ?k" for q
    using assms(1,2,4) that
    by (auto simp: db_ok_def events_ok_def distinct_map intro: inj_onD[of er_idempotency_key])
  have "insert_event_if_new (row_of_values i now (to_values h e)) db = Inr (None, db)"
    using assms(2,4,5,6) key by (force simp: insert_event_if_new_Inr intro!: rev_image_eqI)
  moreover have "find (\<lambda>r. er_idempotency_key r = ?k) (scoped_events db h) = None"
    using unique assms(3) by (auto simp: find_None_iff scoped_events_def)
  ultimately show ?thesis
    by (simp add: append_if_new_def get_by_key_find[OF assms(1)])
qed

theorem append_if_new_conflict_witness:
  "append_if_new 2 15 8 example_new example_log = Inl IdempotencyKeyConflictError"
proof (rule append_if_new_conflict[OF example_log_ok])
  show "example_row \<in> set (db_events example_log)"
    by (simp add: example_log_def)
  show "store_event (row_of_values 2 15 (to_values 8 example_new)) = Inr (projr (store_event (row_of_values 2 15 (to_values 8 example_new))))"
    by code_simp
  show "event_checks (projr (store_event (row_of_values 2 15 (to_values 8 example_new))))"
    by code_simp
qed (simp_all add: example_db_defs example_new_def)

text \<open>
  A batch is appended whole and in order.  When \<open>append_many\<close> returns, the log has grown by exactly
  the batch, one row per event in the batch's order, all of them the given household's, and the returned
  events are those rows.
\<close>

theorem append_many_is_the_batch:
  assumes "append_many new_id now h events db = Inr (appended, db')"
  shows "\<exists>rows. db' = db\<lparr>db_events := db_events db @ rows\<rparr> \<and> appended = map event_to_domain rows \<and>
    map er_id rows = map new_id [0..<length events] \<and>
    map er_quantity_delta rows = map ne_quantity_delta events \<and>
    list_all (\<lambda>r. er_household_id r = h) rows"
proof (cases "events = []")
  case True
  with assms show ?thesis by (auto simp: append_many_def)
next
  case False
  let ?rows = "map (\<lambda>(i, e). to_row (new_id i) now h e) (enumerate 0 events)"
  obtain rows where fl: "flush_events ?rows db = Inr (rows, db')" and res: "appended = map event_to_domain rows"
    using assms False by (auto simp: append_many_def bind_sum_Inr_iff)
  note stored = flush_events_appends(2)[OF fl]
  have same: "map er_id rows = map er_id ?rows" "map er_quantity_delta rows = map er_quantity_delta ?rows"
      "map er_household_id rows = map er_household_id ?rows"
    using stored by (induction rule: list_all2_induct) (simp_all add: store_event_same)
  have "map er_id rows = map new_id [0..<length events]"
    unfolding same(1) by (rule nth_equalityI) (simp_all add: to_row_def nth_enumerate_eq)
  moreover have "map er_quantity_delta rows = map ne_quantity_delta events"
    unfolding same(2)
    by (rule nth_equalityI) (simp_all add: to_row_def row_of_values_def to_values_def nth_enumerate_eq)
  moreover have "list_all (\<lambda>r. er_household_id r = h) rows"
  proof -
    have "map er_household_id rows = map (\<lambda>_. h) ?rows"
      unfolding same(3) by (simp add: comp_def case_prod_beta to_row_def)
    then have "set (map er_household_id rows) \<subseteq> {h}"
      by auto
    then show ?thesis
      by (auto simp: list_all_iff)
  qed
  ultimately show ?thesis
    using flush_events_appends(1)[OF fl] res by blast
qed

theorem append_many_is_the_batch_witness:
  "\<exists>rows. example_log = example_db\<lparr>db_events := db_events example_db @ rows\<rparr> \<and>
     [event_to_domain example_row] = map event_to_domain rows \<and> map er_quantity_delta rows = [2000]"
proof -
  have "append_many (\<lambda>i. of_nat i + 1) 12 example_household [example_new] example_db
      = Inr ([event_to_domain example_row], example_log)"
    by code_simp
  from append_many_is_the_batch[OF this] show ?thesis
    by (auto simp: example_new_def)
qed

text \<open>
  The summary reads agree with the list read: the count is its length, the watermark its newest
  \<^verbatim>\<open>recorded_at\<close> (none when it is empty), the products its distinct products.
\<close>

theorem summary_reads_agree:
  "count_known_as_of db h t = int (length (events_known_as_of db h t None)) \<and>
   latest_recorded_at db h t =
     (if events_known_as_of db h t None = [] then None
      else Some (Max (ev_recorded_at ` set (events_known_as_of db h t None)))) \<and>
   set (products_known_as_of db h t) = ev_canonical_product_id ` set (events_known_as_of db h t None) \<and>
   distinct (products_known_as_of db h t)"
proof (intro conjI)
  let ?rows = "filter (row_known t) (scoped_events db h)"
  show "count_known_as_of db h t = int (length (events_known_as_of db h t None))"
    by (simp add: count_known_as_of_def known_rows fetch_events_def ordered_events_def)
  have "events_known_as_of db h t None = [] \<longleftrightarrow> ?rows = []"
    unfolding known_rows by (metis length_0_conv length_map length_sort fetch_events_def ordered_events_def)
  moreover have "ev_recorded_at ` set (events_known_as_of db h t None) = set (map er_recorded_at ?rows)"
    by (auto simp: known_rows image_image simp del: set_filter)
  ultimately show "latest_recorded_at db h t =
     (if events_known_as_of db h t None = [] then None
      else Some (Max (ev_recorded_at ` set (events_known_as_of db h t None))))"
    by (auto simp: latest_recorded_at_def fold_max_Max simp del: set_filter split: list.split)
  show "set (products_known_as_of db h t) = ev_canonical_product_id ` set (events_known_as_of db h t None)"
    by (auto simp: products_known_as_of_def known_rows image_image)
qed (simp add: products_known_as_of_def)

end
