(* ===== verification/Repo_Snapshots.thy ===== *)
theory Repo_Snapshots
  imports Repo_Events
begin

section \<open>The snapshot repository\<close>

text \<open>
  The model of \<^verbatim>\<open>InventorySnapshotRepository\<close> in \<^verbatim>\<open>src/kitchensense/repositories/inventory.py\<close>: the
  stored projection, the projection computed from the log, and the two ways to bring the stored one up
  to date, \<open>rebuild\<close> and \<open>advance\<close>.

  The lemmas show the round trip through the table, that computing a projection never fails on what the
  event repository returns, and that \<open>advance\<close> is \<open>rebuild\<close> exactly where the stored projection is what the
  log says it should be (\<open>consistent\<close>).  \<open>projection_step\<close> is the life of the projections as a state
  machine: appends, rebuilds, advances and clears of any household in any order; consistency is an
  invariant of it provided no event lands behind a stored projection, and the last theorem shows
  that this proviso is needed.
\<close>

subsection \<open>Reading\<close>

definition scoped_snapshots :: "kitchen_db \<Rightarrow> uuid \<Rightarrow> snapshot_row list" where
  "scoped_snapshots db household_id = filter (\<lambda>r. sr_household_id r = household_id) (db_snapshots db)"

definition get_snapshot :: "kitchen_db \<Rightarrow> uuid \<Rightarrow> inventory_snapshot option" where
  "get_snapshot db household_id =
     (let rows = scoped_snapshots db household_id in
      case map sr_as_of rows of
        [] \<Rightarrow> None
      | t # ts \<Rightarrow>
          Some \<lparr>sn_household_id = household_id,
                sn_as_of = fold max ts t,
                sn_lots = sort_key lot_order (map snapshot_to_domain rows)\<rparr>)"

definition run_fold :: "fold_error + 'a \<Rightarrow> repo_error + 'a" where
  "run_fold m = (case m of Inl e \<Rightarrow> Inl (FoldError e) | Inr x \<Rightarrow> Inr x)"

definition project_known_as_of :: "kitchen_db \<Rightarrow> uuid \<Rightarrow> datetime \<Rightarrow> repo_error + inventory_snapshot" where
  "project_known_as_of db household_id as_of =
     run_fold (fold_events (events_known_as_of db household_id as_of None) household_id as_of)"

subsection \<open>Writing\<close>

definition snapshot_row_of :: "uuid \<Rightarrow> datetime \<Rightarrow> uuid \<Rightarrow> datetime \<Rightarrow> lot_state \<Rightarrow> snapshot_row" where
  "snapshot_row_of new_id now household_id as_of l =
     \<lparr>sr_id = new_id,
      sr_household_id = household_id,
      sr_canonical_product_id = lk_canonical_product_id (ls_key l),
      sr_storage_location = lk_storage_location (ls_key l),
      sr_unit = lk_unit (ls_key l),
      sr_printed_date = lk_printed_date (ls_key l),
      sr_date_label_type = lk_date_label_type (ls_key l),
      sr_quantity = ls_quantity l,
      sr_purchased_quantity = ls_purchased_quantity l,
      sr_consumed_quantity = ls_consumed_quantity l,
      sr_discarded_quantity = ls_discarded_quantity l,
      sr_event_count = ls_event_count l,
      sr_first_occurred_at = ls_first_occurred_at l,
      sr_last_occurred_at = ls_last_occurred_at l,
      sr_last_recorded_at = ls_last_recorded_at l,
      sr_opened_at = ls_opened_at l,
      sr_as_of = as_of,
      sr_computed_at = now\<rparr>"

fun flush_snapshots :: "snapshot_row list \<Rightarrow> kitchen_db \<Rightarrow> repo_error + kitchen_db" where
  "flush_snapshots [] db = Inr db"
| "flush_snapshots (r # rs) db = bind_sum (run_db (insert_snapshot_row r db)) (flush_snapshots rs)"

definition save ::
  "(nat \<Rightarrow> uuid) \<Rightarrow> datetime \<Rightarrow> uuid \<Rightarrow> inventory_snapshot \<Rightarrow> kitchen_db \<Rightarrow> repo_error + kitchen_db" where
  "save new_id now household_id snapshot db =
     (if sn_household_id snapshot \<noteq> household_id then Inl (FoldError HouseholdMismatchError)
      else let db' = delete_snapshots household_id db in
        if sn_lots snapshot = [] then Inr db'
        else flush_snapshots
          (map (\<lambda>(i, l). snapshot_row_of (new_id i) now household_id (sn_as_of snapshot) l)
             (enumerate 0 (sn_lots snapshot))) db')"

definition rebuild ::
  "(nat \<Rightarrow> uuid) \<Rightarrow> datetime \<Rightarrow> uuid \<Rightarrow> datetime \<Rightarrow> kitchen_db \<Rightarrow> repo_error + inventory_snapshot \<times> kitchen_db" where
  "rebuild new_id now household_id as_of db =
     bind_sum (project_known_as_of db household_id as_of) (\<lambda>snapshot.
     bind_sum (save new_id now household_id snapshot db) (\<lambda>db'.
     Inr (snapshot, db')))"

definition advance ::
  "(nat \<Rightarrow> uuid) \<Rightarrow> datetime \<Rightarrow> uuid \<Rightarrow> datetime \<Rightarrow> kitchen_db \<Rightarrow> repo_error + inventory_snapshot \<times> kitchen_db" where
  "advance new_id now household_id as_of db =
     (case get_snapshot db household_id of
        None \<Rightarrow> rebuild new_id now household_id as_of db
      | Some current \<Rightarrow>
          if as_of < sn_as_of current
          then bind_sum (project_known_as_of db household_id as_of) (\<lambda>snapshot. Inr (snapshot, db))
          else
            let new_events = events_known_between db household_id (sn_as_of current) as_of in
            bind_sum (run_fold (apply_events current new_events as_of)) (\<lambda>snapshot.
            bind_sum (save new_id now household_id snapshot db) (\<lambda>db'.
            Inr (snapshot, db'))))"

definition clear :: "uuid \<Rightarrow> kitchen_db \<Rightarrow> kitchen_db" where
  "clear household_id db = delete_snapshots household_id db"

definition empty :: "uuid \<Rightarrow> datetime \<Rightarrow> inventory_snapshot" where
  "empty household_id as_of = empty_snapshot household_id as_of"

subsection \<open>Through the table and back\<close>

lemma snapshot_row_of_domain [simp]: "snapshot_to_domain (snapshot_row_of i now h t l) = l"
  by (simp add: snapshot_to_domain_def snapshot_row_of_def snapshot_row_key_def)

lemma snapshot_row_of_sel [simp]:
  "sr_id (snapshot_row_of i now h t l) = i" "sr_household_id (snapshot_row_of i now h t l) = h"
  "sr_as_of (snapshot_row_of i now h t l) = t" "snapshot_row_key (snapshot_row_of i now h t l) = ls_key l"
  "sr_unit (snapshot_row_of i now h t l) = lk_unit (ls_key l)"
  by (simp_all add: snapshot_row_of_def snapshot_row_key_def)

lemma store_snapshot_row_short:
  "store_snapshot_row r = Inr r' \<Longrightarrow> length (sr_unit r) \<le> 24 \<Longrightarrow> r' = r"
  by (cases r) (auto simp: store_snapshot_row_def bind_sum_Inr_iff varchar_def split: if_splits)

lemma flush_snapshots_Inr:
  assumes "list_all (\<lambda>r. length (sr_unit r) \<le> 24) rs" and "flush_snapshots rs db = Inr db'"
  shows "db' = db\<lparr>db_snapshots := db_snapshots db @ rs\<rparr>"
  using assms
proof (induction rs arbitrary: db)
  case (Cons r rs)
  then obtain q where q: "store_snapshot_row r = Inr q"
    and rest: "flush_snapshots rs (db\<lparr>db_snapshots := db_snapshots db @ [q]\<rparr>) = Inr db'"
    by (auto simp: bind_sum_Inr_iff insert_snapshot_row_Inr)
  from q have "q = r"
    using Cons.prems(1) by (auto dest: store_snapshot_row_short)
  with Cons.IH[OF _ rest] Cons.prems(1) show ?case
    by simp
qed simp

lemma flush_snapshots_steps: "flush_snapshots rs db = Inr db' \<Longrightarrow> db_step\<^sup>*\<^sup>* db db'"
proof (induction rs arbitrary: db)
  case (Cons r rs)
  then obtain db1 where "insert_snapshot_row r db = Inr db1" and rest: "flush_snapshots rs db1 = Inr db'"
    by (auto simp: bind_sum_Inr_iff)
  then have "db_step db db1"
    by (intro db_step.intros[of "InsertSnapshot r"]) simp
  then show ?case
    using Cons.IH[OF rest] by (rule converse_rtranclp_into_rtranclp)
qed simp

lemma save_steps:
  assumes "save new_id now h s db = Inr db'"
  shows "db_step\<^sup>*\<^sup>* db db'"
proof -
  have "db_step db (delete_snapshots h db)"
    by (rule db_step.intros[of "DeleteSnapshots h"]) simp
  then show ?thesis
    using assms flush_snapshots_steps
    by (auto simp: save_def Let_def intro: converse_rtranclp_into_rtranclp split: if_splits)
qed

lemma save_steps_ok: "db_ok db \<Longrightarrow> save new_id now h s db = Inr db' \<Longrightarrow> db_ok db'"
  using save_steps db_steps_ok by blast

definition units_fit :: "inventory_snapshot \<Rightarrow> bool" where
  "units_fit s = list_all (\<lambda>l. length (lk_unit (ls_key l)) \<le> 24) (sn_lots s)"

definition snapshot_rows :: "(nat \<Rightarrow> uuid) \<Rightarrow> datetime \<Rightarrow> inventory_snapshot \<Rightarrow> snapshot_row list" where
  "snapshot_rows new_id now s =
     map (\<lambda>(i, l). snapshot_row_of (new_id i) now (sn_household_id s) (sn_as_of s) l) (enumerate 0 (sn_lots s))"

lemma snapshot_rows_maps:
  "map snapshot_to_domain (snapshot_rows new_id now s) = sn_lots s"
  "map sr_as_of (snapshot_rows new_id now s) = replicate (length (sn_lots s)) (sn_as_of s)"
  "map sr_household_id (snapshot_rows new_id now s) = replicate (length (sn_lots s)) (sn_household_id s)"
  "map sr_unit (snapshot_rows new_id now s) = map (\<lambda>l. lk_unit (ls_key l)) (sn_lots s)"
  "map sr_id (snapshot_rows new_id now s) = map new_id [0..<length (sn_lots s)]"
  by (rule nth_equalityI; simp add: snapshot_rows_def nth_enumerate_eq)+

lemma units_fit_rows: "units_fit s \<Longrightarrow> list_all (\<lambda>r. length (sr_unit r) \<le> 24) (snapshot_rows new_id now s)"
proof -
  assume "units_fit s"
  then have "list_all (\<lambda>u. length u \<le> 24) (map sr_unit (snapshot_rows new_id now s))"
    unfolding snapshot_rows_maps by (simp add: units_fit_def list.pred_map comp_def)
  then show ?thesis
    by (simp add: list.pred_map comp_def)
qed

lemma length_snapshot_rows [simp]: "length (snapshot_rows new_id now s) = length (sn_lots s)"
  by (simp add: snapshot_rows_def)

lemma save_Inr:
  assumes "units_fit s" and "save new_id now h s db = Inr db'"
  shows "sn_household_id s = h" and "db' = db\<lparr>db_snapshots :=
    filter (\<lambda>r. sr_household_id r \<noteq> h) (db_snapshots db) @ snapshot_rows new_id now s\<rparr>"
proof -
  show h: "sn_household_id s = h"
    using assms(2) by (auto simp: save_def split: if_splits)
  have "flush_snapshots (snapshot_rows new_id now s) (delete_snapshots h db) = Inr db'"
    using assms(2) h by (auto simp: save_def snapshot_rows_def Let_def split: if_splits)
  from flush_snapshots_Inr[OF units_fit_rows[OF assms(1)] this]
  show "db' = db\<lparr>db_snapshots := filter (\<lambda>r. sr_household_id r \<noteq> h) (db_snapshots db) @ snapshot_rows new_id now s\<rparr>"
    by (simp add: delete_snapshots_def)
qed

lemma funpow_max_same [simp]: "(max t ^^ n) t = t" for t :: "'a :: linorder"
  by (induction n) simp_all

lemma filter_owner_replicate:
  "map f xs = replicate (length xs) k \<Longrightarrow> filter (\<lambda>x. f x = h) xs = (if h = k then xs else [])"
  by (induction xs) auto

lemma get_snapshot_rows:
  assumes "scoped_snapshots db h = snapshot_rows new_id now s" and "canonical s" and "sn_household_id s = h"
  shows "get_snapshot db h = (if sn_lots s = [] then None else Some s)"
proof -
  have "sort_key lot_order (sn_lots s) = sn_lots s"
    using assms(2) by (intro sort_key_sorted_id) (simp add: canonical_def sorted_map_lot_order)
  then show ?thesis
    using assms snapshot_rows_maps[of new_id now s]
    by (cases "sn_lots s"; cases s) (simp_all add: get_snapshot_def Let_def)
qed

lemma get_after_save:
  assumes "units_fit s" and "canonical s" and "save new_id now h s db = Inr db'"
  shows "get_snapshot db' h = (if sn_lots s = [] then None else Some s)"
    and "h' \<noteq> h \<Longrightarrow> get_snapshot db' h' = get_snapshot db h'"
    and "db_events db' = db_events db"
proof -
  note S = save_Inr[OF assms(1,3)]
  have own: "filter (\<lambda>r. sr_household_id r = g) (snapshot_rows new_id now s)
      = (if g = h then snapshot_rows new_id now s else [])" for g
    by (rule filter_owner_replicate) (simp add: snapshot_rows_maps(3) S(1))
  have "scoped_snapshots db' h = snapshot_rows new_id now s"
    by (simp add: scoped_snapshots_def S(2) own)
  then show "get_snapshot db' h = (if sn_lots s = [] then None else Some s)"
    by (rule get_snapshot_rows[OF _ assms(2) S(1)])
  show "get_snapshot db' h' = get_snapshot db h'" if "h' \<noteq> h"
  proof -
    have "filter (\<lambda>r. sr_household_id r = h' \<and> sr_household_id r \<noteq> h) (db_snapshots db)
        = filter (\<lambda>r. sr_household_id r = h') (db_snapshots db)"
      using that by (intro filter_cong) auto
    then have "scoped_snapshots db' h' = scoped_snapshots db h'"
      using that by (simp add: scoped_snapshots_def S(2) own conj_commute)
    then show ?thesis
      by (simp add: get_snapshot_def)
  qed
  show "db_events db' = db_events db"
    by (simp add: S(2))
qed

subsection \<open>The projection the log determines\<close>

definition projection :: "kitchen_db \<Rightarrow> uuid \<Rightarrow> datetime \<Rightarrow> inventory_snapshot" where
  "projection db h t = projr (fold_events (events_known_as_of db h t None) h t)"

lemma fold_projection: "fold_events (events_known_as_of db h t None) h t = Inr (projection db h t)"
  unfolding projection_def by (rule log.fold_known_total)

lemma project_total: "project_known_as_of db h t = Inr (projection db h t)"
  by (simp add: project_known_as_of_def fold_projection run_fold_def)

lemmas projection_lots = fold_events_lots[OF fold_projection]
lemmas projection_inv = fold_events_inv[OF fold_projection]

lemma projection_log_cong: "db_events db' = db_events db \<Longrightarrow> projection db' h t = projection db h t"
  by (simp add: projection_def events_known_as_of_def scoped_events_def)

lemma length_normalize_unit: "length (normalize_unit u) \<le> length u"
  using length_strip[of u] by (simp add: normalize_unit_def lower_def)

lemma lot_key_from_log:
  assumes "l \<in> set (sn_lots (projection db h t))"
  obtains r where "r \<in> set (db_events db)" and "er_household_id r = h"
    and "ls_key l = for_event (event_to_domain r)"
proof -
  have "ls_key l \<in> for_event ` set (events_known_as_of db h t None)"
    using assms lot_keys_spec[OF fold_events_spec[OF fold_projection]] by fastforce
  then show thesis
    using that by (auto simp: set_known known_to_def)
qed

lemma stored_event_unit: "store_event r = Inr r \<Longrightarrow> length (er_unit r) \<le> 24 \<and> varchar 24 (er_unit r) = Inr (er_unit r)"
  by (cases r) (auto simp: store_event_def varchar_def bind_sum_Inr_iff split: if_splits)

lemma projection_units_fit:
  assumes "db_ok db"
  shows "units_fit (projection db h t)"
  unfolding units_fit_def list_all_iff
proof
  fix l assume "l \<in> set (sn_lots (projection db h t))"
  then obtain r where r: "r \<in> set (db_events db)" "ls_key l = for_event (event_to_domain r)"
    by (rule lot_key_from_log)
  have "length (er_unit r) \<le> 24"
    using assms r(1) stored_event_unit by (auto simp: db_ok_def events_ok_def list_all_iff)
  then show "length (lk_unit (ls_key l)) \<le> 24"
    using length_normalize_unit[of "er_unit r"] by (simp add: r(2) for_event_def)
qed

subsection \<open>The stored projection as an interface\<close>

text \<open>
  What catching up relies on: the log, and a store that returns what was put into it -- nothing, when the
  snapshot had no lots -- without disturbing other households or the log.
\<close>

locale snapshot_store = event_log known between
  for known :: "'db \<Rightarrow> uuid \<Rightarrow> datetime \<Rightarrow> inventory_event list"
    and between :: "'db \<Rightarrow> uuid \<Rightarrow> datetime \<Rightarrow> datetime \<Rightarrow> inventory_event list" +
  fixes get :: "'db \<Rightarrow> uuid \<Rightarrow> inventory_snapshot option"
    and put :: "uuid \<Rightarrow> inventory_snapshot \<Rightarrow> 'db \<Rightarrow> 'db \<Rightarrow> bool"
  assumes get_put: "put h s db db' \<Longrightarrow> get db' h = (if sn_lots s = [] then None else Some s)"
    and get_put_other: "put h s db db' \<Longrightarrow> h' \<noteq> h \<Longrightarrow> get db' h' = get db h'"
    and known_put: "put h s db db' \<Longrightarrow> known db' = known db"
begin

definition faithful :: "'db \<Rightarrow> uuid \<Rightarrow> bool" where
  "faithful db h \<longleftrightarrow> (\<forall>s. get db h = Some s \<longrightarrow> fold_events (known db h (sn_as_of s)) h (sn_as_of s) = Inr s)"

lemma faithful_put:
  assumes "put h s db db'" and "fold_events (known db h (sn_as_of s)) h (sn_as_of s) = Inr s"
    and "faithful db h'"
  shows "faithful db' h'"
  using assms get_put[OF assms(1)] get_put_other[OF assms(1), of h'] known_put[OF assms(1)]
  by (cases "h' = h") (auto simp: faithful_def)

lemma advance_faithful:
  assumes "faithful db h" and "get db h = Some s" and "sn_as_of s \<le> t"
  shows "apply_events s (between db h (sn_as_of s) t) t = fold_events (known db h t) h t"
proof -
  have "fold_events (known db h (sn_as_of s)) h (sn_as_of s) = Inr s"
    using assms(1,2) by (simp add: faithful_def)
  then show ?thesis
    using catch_up[OF assms(3), of db h] by simp
qed

end

definition put_snapshot :: "uuid \<Rightarrow> inventory_snapshot \<Rightarrow> kitchen_db \<Rightarrow> kitchen_db \<Rightarrow> bool" where
  "put_snapshot h s db db' \<longleftrightarrow> units_fit s \<and> canonical s \<and> (\<exists>new_id now. save new_id now h s db = Inr db')"

interpretation store: snapshot_store "\<lambda>db h t. events_known_as_of db h t None" events_known_between
  get_snapshot put_snapshot
proof unfold_locales
  fix h s and db db' :: kitchen_db and h'
  assume put: "put_snapshot h s db db'"
  then obtain new_id now where S: "units_fit s" "canonical s" "save new_id now h s db = Inr db'"
    by (auto simp: put_snapshot_def)
  show "get_snapshot db' h = (if sn_lots s = [] then None else Some s)"
    by (rule get_after_save(1)[OF S])
  show "(\<lambda>h t. events_known_as_of db' h t None) = (\<lambda>h t. events_known_as_of db h t None)"
    using get_after_save(3)[OF S] by (simp add: events_known_as_of_def scoped_events_def)
  show "get_snapshot db' h' = get_snapshot db h'" if "h' \<noteq> h"
    using get_after_save(2)[OF S that] .
qed

definition consistent :: "kitchen_db \<Rightarrow> uuid \<Rightarrow> bool" where
  "consistent db h \<longleftrightarrow> (\<forall>s. get_snapshot db h = Some s \<longrightarrow> s = projection db h (sn_as_of s))"

lemma consistent_faithful: "consistent db h \<longleftrightarrow> store.faithful db h"
  by (auto simp: consistent_def store.faithful_def fold_projection)

lemma put_projection:
  assumes "db_ok db" and "save new_id now h (projection db h t) db = Inr db'"
  shows "put_snapshot h (projection db h t) db db'"
  using assms projection_units_fit projection_lots(1) unfolding put_snapshot_def by blast

lemma put_projection_consistent:
  assumes "db_ok db" and "save new_id now h (projection db h t) db = Inr db'" and "consistent db h'"
  shows "consistent db' h'"
  using store.faithful_put[OF put_projection[OF assms(1,2)]] assms(3)
  by (simp add: consistent_faithful fold_projection projection_lots(3))

lemma rebuild_unfold:
  "rebuild new_id now h t db =
     bind_sum (save new_id now h (projection db h t) db) (\<lambda>db'. Inr (projection db h t, db'))"
  by (simp add: rebuild_def project_total)

lemma advance_unfold:
  assumes "consistent db h"
  shows "advance new_id now h t db =
    (case get_snapshot db h of
       None \<Rightarrow> rebuild new_id now h t db
     | Some s \<Rightarrow> if t < sn_as_of s then Inr (projection db h t, db) else rebuild new_id now h t db)"
proof (cases "get_snapshot db h")
  case (Some s)
  have "apply_events s (events_known_between db h (sn_as_of s) t) t = Inr (projection db h t)" if "\<not> t < sn_as_of s"
    using store.advance_faithful[of db h s t] assms Some that
    by (simp add: consistent_faithful fold_projection)
  then show ?thesis
    using Some by (simp add: advance_def project_total rebuild_unfold run_fold_def Let_def)
qed (simp add: advance_def)

subsection \<open>The life of the projections\<close>

text \<open>
  One step of the system as far as events and projections go.  The rule \<open>event\<close> carries the one thing the
  code does not enforce: a newly appended event is recorded after the household's stored projection.
\<close>

inductive projection_step :: "kitchen_db \<Rightarrow> kitchen_db \<Rightarrow> bool" where
  event: "append_if_new i now h e db = Inr ((ev, created), db') \<Longrightarrow>
    (\<And>s. created \<Longrightarrow> get_snapshot db h = Some s \<Longrightarrow> sn_as_of s < ev_recorded_at ev) \<Longrightarrow> projection_step db db'"
| rebuild: "rebuild new_id now h t db = Inr (s, db') \<Longrightarrow> projection_step db db'"
| advance: "advance new_id now h t db = Inr (s, db') \<Longrightarrow> projection_step db db'"
| clear: "projection_step db (clear h db)"
| other: "execute st db = Inr db' \<Longrightarrow> db_events db' = db_events db \<Longrightarrow> db_snapshots db' = db_snapshots db \<Longrightarrow>
    projection_step db db'"

lemma get_snapshot_cong: "scoped_snapshots db' h = scoped_snapshots db h \<Longrightarrow> get_snapshot db' h = get_snapshot db h"
  by (simp add: get_snapshot_def)

lemma projection_append:
  assumes "\<not> (er_household_id r = h \<and> row_known t r)"
  shows "projection (db\<lparr>db_events := db_events db @ [r]\<rparr>) h t = projection db h t"
proof -
  have "filter (row_known t) (scoped_events (db\<lparr>db_events := db_events db @ [r]\<rparr>) h)
      = filter (row_known t) (scoped_events db h)"
    using assms by (auto simp: scoped_events_def)
  then show ?thesis
    by (simp add: projection_def known_rows)
qed

lemma append_consistent:
  assumes "consistent db g" and "db_ok db" and app: "append_if_new i now h e db = Inr ((ev, created), db')"
    and late: "\<And>s. created \<Longrightarrow> get_snapshot db h = Some s \<Longrightarrow> sn_as_of s < ev_recorded_at ev"
  shows "consistent db' g"
  using app
proof (cases rule: append_if_new_cases)
  case (1 r)
  then have r: "db' = db\<lparr>db_events := db_events db @ [r]\<rparr>" "er_household_id r = h"
    using append_if_new_owner[OF assms(2) app] by (auto simp: insert_event_if_new_Inr split: if_splits)
  have get: "get_snapshot db' g = get_snapshot db g"
    by (rule get_snapshot_cong) (simp add: scoped_snapshots_def r(1))
  show ?thesis
    unfolding consistent_def get
  proof (intro allI impI)
    fix s assume s: "get_snapshot db g = Some s"
    have "\<not> (er_household_id r = g \<and> row_known (sn_as_of s) r)"
      using late[of s] s 1 r(2) by (auto simp: row_known_def)
    then show "s = projection db' g (sn_as_of s)"
      using assms(1) s by (simp add: consistent_def r(1) projection_append)
  qed
qed (use assms(1) in simp)

lemma clear_consistent:
  assumes "consistent db g"
  shows "consistent (clear h db) g"
proof (cases "g = h")
  case True
  then have "scoped_snapshots (clear h db) g = []"
    by (auto simp: scoped_snapshots_def clear_def delete_snapshots_def filter_empty_conv)
  then show ?thesis
    by (simp add: consistent_def get_snapshot_def)
next
  case False
  then have "scoped_snapshots (clear h db) g = scoped_snapshots db g"
    by (auto simp: scoped_snapshots_def clear_def delete_snapshots_def intro: filter_cong)
  then have "get_snapshot (clear h db) g = get_snapshot db g"
    by (rule get_snapshot_cong)
  then show ?thesis
    using assms projection_log_cong[of "clear h db" db] by (simp add: consistent_def clear_def delete_snapshots_def)
qed

lemma rebuild_consistent:
  assumes "db_ok db" and "rebuild new_id now h t db = Inr (s, db')"
  shows "db_ok db' \<and> (consistent db g \<longrightarrow> consistent db' g)"
  using assms put_projection_consistent[OF assms(1)] save_steps_ok[OF assms(1)]
  by (auto simp: rebuild_unfold bind_sum_Inr_iff)

lemma projection_step_inv:
  assumes "projection_step db db'" and "db_ok db" and "\<And>g. consistent db g"
  shows "db_ok db' \<and> consistent db' g"
  using assms
proof (induction arbitrary: g rule: projection_step.induct)
  case (event i now h e db ev created db')
  then show ?case
    using append_consistent[OF event.prems(2) event.prems(1) event.hyps(1)] db_steps_ok[OF r_into_rtranclp[of db_step]]
      append_if_new_step[OF event.hyps(1)] by blast
next
  case (rebuild new_id now h t db s db')
  then show ?case
    using rebuild_consistent by blast
next
  case (advance new_id now h t db s db')
  then show ?case
    using rebuild_consistent[OF advance.prems(1), of new_id now h t s db' g]
    by (auto simp: advance_unfold split: option.splits if_splits)
next
  case (clear db h)
  then show ?case
    using clear_consistent by (simp add: delete_snapshots_ok clear_def)
next
  case (other st db db')
  then have "get_snapshot db' g = get_snapshot db g"
    by (intro get_snapshot_cong) (simp add: scoped_snapshots_def)
  then show ?case
    using other execute_ok[OF other.prems(1) other.hyps(1)] projection_log_cong[of db' db]
    by (simp add: consistent_def)
qed

lemma projection_steps_inv:
  assumes "projection_step\<^sup>*\<^sup>* db0 db" and "db_ok db0" and "db_snapshots db0 = []"
  shows "db_ok db \<and> consistent db g"
  using assms
proof (induction arbitrary: g rule: rtranclp_induct)
  case base
  then show ?case
    by (simp add: consistent_def get_snapshot_def scoped_snapshots_def)
next
  case (step db db')
  then show ?case
    using projection_step_inv[OF step.hyps(2)] by blast
qed

subsection \<open>When a rebuild succeeds\<close>

definition lot_fits :: "lot_state \<Rightarrow> bool" where
  "lot_fits l \<longleftrightarrow> list_all fits_numeric_14_3
     [ls_quantity l, ls_purchased_quantity l, ls_consumed_quantity l, ls_discarded_quantity l] \<and>
     fits_int32 (ls_event_count l)"

lemma flush_snapshots_succeeds:
  assumes "list_all (\<lambda>r. store_snapshot_row r = Inr r \<and> snapshot_checks r \<and> snapshot_refs db r) rs"
    and "distinct (map sr_id (db_snapshots db @ rs))"
    and "distinct (map (\<lambda>r. (sr_household_id r, snapshot_row_key r)) (db_snapshots db @ rs))"
  shows "flush_snapshots rs db = Inr (db\<lparr>db_snapshots := db_snapshots db @ rs\<rparr>)"
  using assms
proof (induction rs arbitrary: db)
  case (Cons r rs)
  have "insert_snapshot_row r db = Inr (db\<lparr>db_snapshots := db_snapshots db @ [r]\<rparr>)"
    using Cons.prems by (auto simp: insert_snapshot_row_Inr)
  moreover have "flush_snapshots rs (db\<lparr>db_snapshots := db_snapshots db @ [r]\<rparr>)
      = Inr (db\<lparr>db_snapshots := db_snapshots db @ r # rs\<rparr>)"
    using Cons.IH[of "db\<lparr>db_snapshots := db_snapshots db @ [r]\<rparr>"] Cons.prems by (simp add: list_all_iff)
  ultimately show ?case
    by simp
qed simp

lemma code_point_eq_iff: "code_point c = code_point d \<longleftrightarrow> c = d"
  by (simp add: code_point_def)

lemma lower_char_NUL: "lower_char c = CHR 0x00 \<longleftrightarrow> c = CHR 0x00"
proof -
  have zero: "code_point (CHR 0x00) = 0"
    by (simp add: code_point_def)
  have "code_point (lower_char c) = 0 \<longleftrightarrow> code_point c = 0"
    by (auto simp: code_point_lower_char Let_def)
  then show ?thesis
    unfolding zero[symmetric] code_point_eq_iff .
qed

lemma varchar_normalize_unit:
  assumes "varchar n u = Inr u" and "length u \<le> n"
  shows "varchar n (normalize_unit u) = Inr (normalize_unit u)"
proof -
  have "CHR 0x00 \<notin> set u"
    using assms(1) by (auto simp: varchar_def split: if_splits)
  then have "lower_char c \<noteq> CHR 0x00" if "c \<in> set (strip u)" for c
    using set_strip[of u] that lower_char_NUL[of c] by blast
  then have "CHR 0x00 \<notin> set (normalize_unit u)"
    unfolding normalize_unit_def lower_def set_map by (metis imageE)
  then show ?thesis
    using length_normalize_unit[of u] assms(2) by (simp add: varchar_def)
qed

lemma projection_row_ok:
  assumes "db_ok db" and "l \<in> set (sn_lots (projection db h t))" and "lot_fits l"
  shows "store_snapshot_row (snapshot_row_of i now h t' l) = Inr (snapshot_row_of i now h t' l)"
    and "snapshot_checks (snapshot_row_of i now h t' l)" and "snapshot_refs db (snapshot_row_of i now h t' l)"
proof -
  obtain r where r: "r \<in> set (db_events db)" "er_household_id r = h" "ls_key l = for_event (event_to_domain r)"
    using assms(2) by (rule lot_key_from_log)
  have ok: "store_event r = Inr r" "event_checks r" "event_refs db r"
    using assms(1) r(1) by (auto simp: db_ok_def events_ok_def list_all_iff)
  have "varchar 24 (lk_unit (ls_key l)) = Inr (lk_unit (ls_key l))"
    using stored_event_unit[OF ok(1)] by (simp add: r(3) for_event_def varchar_normalize_unit)
  then show "store_snapshot_row (snapshot_row_of i now h t' l) = Inr (snapshot_row_of i now h t' l)"
    using assms(3) by (simp add: store_snapshot_row_def snapshot_row_of_def lot_fits_def)
  have "lot_inv (sn_as_of (projection db h t)) l"
    using projection_inv assms(2) by (auto simp: snapshot_inv_def list_all_iff)
  then show "snapshot_checks (snapshot_row_of i now h t' l)"
    using ok(2) by (simp add: snapshot_checks_def snapshot_row_of_def lot_inv_def event_checks_def r(3)
        for_event_def event_to_domain_def)
  show "snapshot_refs db (snapshot_row_of i now h t' l)"
    using ok(3) r(2) by (simp add: snapshot_refs_def event_refs_def snapshot_row_of_def r(3) for_event_def)
qed

lemma snapshot_rows_keys:
  "map (\<lambda>r. (sr_household_id r, snapshot_row_key r)) (snapshot_rows new_id now s)
     = map (\<lambda>l. (sn_household_id s, ls_key l)) (sn_lots s)"
  by (rule nth_equalityI; simp add: snapshot_rows_def nth_enumerate_eq)

lemma set_snapshot_rows:
  "r \<in> set (snapshot_rows new_id now s) \<Longrightarrow>
     \<exists>i l. l \<in> set (sn_lots s) \<and> r = snapshot_row_of (new_id i) now (sn_household_id s) (sn_as_of s) l"
  by (auto simp: snapshot_rows_def in_set_enumerate_eq) (metis nth_mem)

lemma rebuild_succeeds_aux:
  assumes ok: "db_ok db" and fits: "list_all lot_fits (sn_lots (projection db h t))"
    and ids: "distinct (map new_id [0..<length (sn_lots (projection db h t))])"
      "new_id ` {..<length (sn_lots (projection db h t))} \<inter> sr_id ` set (db_snapshots db) = {}"
  shows "\<exists>db'. rebuild new_id now h t db = Inr (projection db h t, db')"
proof -
  let ?s = "projection db h t" and ?db = "delete_snapshots h db"
  let ?rows = "snapshot_rows new_id now ?s"
  note P = projection_lots[of db h t]
  have ok': "db_ok ?db"
    using ok by (rule delete_snapshots_ok)
  have refs: "snapshot_refs ?db = snapshot_refs db"
    by (simp add: fun_eq_iff delete_snapshots_def)
  have "list_all (\<lambda>r. store_snapshot_row r = Inr r \<and> snapshot_checks r \<and> snapshot_refs ?db r) ?rows"
    unfolding list_all_iff refs
  proof
    fix r assume "r \<in> set ?rows"
    then obtain i l where "l \<in> set (sn_lots ?s)" "r = snapshot_row_of (new_id i) now h t l"
      using set_snapshot_rows[of r new_id now ?s] P by auto
    then show "store_snapshot_row r = Inr r \<and> snapshot_checks r \<and> snapshot_refs db r"
      using projection_row_ok[OF ok] fits by (simp add: list_all_iff)
  qed
  moreover have "distinct (map sr_id (db_snapshots ?db @ ?rows))"
  proof -
    have "set (map sr_id (db_snapshots ?db)) \<subseteq> sr_id ` set (db_snapshots db)"
      by (auto simp: delete_snapshots_def)
    moreover have "set (map new_id [0..<length (sn_lots ?s)]) = new_id ` {..<length (sn_lots ?s)}"
      by (simp add: atLeast0LessThan)
    ultimately have "set (map sr_id (db_snapshots ?db)) \<inter> set (map new_id [0..<length (sn_lots ?s)]) = {}"
      using ids(2) by blast
    then show ?thesis
      using ok' ids(1) by (simp add: snapshot_rows_maps(5) db_ok_def snapshots_ok_def)
  qed
  moreover have "distinct (map (\<lambda>r. (sr_household_id r, snapshot_row_key r)) (db_snapshots ?db @ ?rows))"
  proof -
    have "distinct (map (\<lambda>l. (h, ls_key l)) (sn_lots ?s))"
      using P(1) by (auto simp: canonical_def distinct_map inj_on_def)
    then show ?thesis
      using ok' by (auto simp: snapshot_rows_keys P(2) db_ok_def snapshots_ok_def delete_snapshots_def)
  qed
  ultimately have "flush_snapshots ?rows ?db = Inr (?db\<lparr>db_snapshots := db_snapshots ?db @ ?rows\<rparr>)"
    by (rule flush_snapshots_succeeds)
  then show ?thesis
    using P(2) by (auto simp: rebuild_unfold save_def Let_def snapshot_rows_def)
qed

subsection \<open>Examples\<close>

definition example_ids :: "nat \<Rightarrow> uuid" where
  "example_ids i = of_nat i + 100"

definition example_projected :: kitchen_db where
  "example_projected = snd (projr (rebuild example_ids 12 example_household 12 example_log))"

lemma example_rebuild:
  "rebuild example_ids 12 example_household 12 example_log =
     Inr (projection example_log example_household 12, example_projected)"
proof -
  have "rebuild example_ids 12 example_household 12 example_log = Inr (fst (projr (rebuild example_ids 12 example_household 12 example_log)), example_projected)"
    by code_simp
  then show ?thesis
    by (auto simp: rebuild_unfold bind_sum_Inr_iff)
qed

lemma example_history: "projection_step\<^sup>*\<^sup>* example_log example_projected"
  using projection_step.rebuild[OF example_rebuild] by blast

definition late_new :: new_inventory_event where
  "late_new = example_new\<lparr>ne_idempotency_key := ''till-2''\<rparr>"

definition late_db :: kitchen_db where
  "late_db = snd (projr (append_if_new 2 11 example_household late_new example_projected))"

subsection \<open>Properties\<close>

text \<open>
  Reading the kitchen cannot fail and reads what the log says.  \<open>project_known_as_of\<close> never raises -- the
  fold's guards are never triggered by what the event repository returns -- and each lot of the
  answer is the specification's lot over exactly the events known to the household at that instant.
\<close>

theorem projection_is_total:
  "\<exists>s. project_known_as_of db h t = Inr s \<and> sn_household_id s = h \<and> sn_as_of s = t \<and> snapshot_inv s \<and>
     lot s = spec_lot (events_known_as_of db h t None)"
  using project_total projection_lots(2,3) projection_inv fold_events_spec[OF fold_projection] by blast

text \<open>
  C20: \<open>advance\<close> is \<open>rebuild\<close>.  In every state reachable from a database with no stored projection by appends,
  rebuilds, advances and clears of any households in any order -- where no event is recorded at or before the
  instant of a projection already stored -- advancing to an instant not before the stored one gives exactly
  what a rebuild gives: the same snapshot, the same stored rows, the same refusals.
\<close>

theorem advance_is_rebuild:
  assumes "db_ok db0" and "db_snapshots db0 = []" and "projection_step\<^sup>*\<^sup>* db0 db"
    and "\<forall>s. get_snapshot db h = Some s \<longrightarrow> sn_as_of s \<le> t"
  shows "advance new_id now h t db = rebuild new_id now h t db"
  using assms(4) projection_steps_inv[OF assms(3,1,2), of h]
  by (auto simp: advance_unfold split: option.split)

theorem advance_is_rebuild_witness:
  "(\<exists>s. get_snapshot example_projected example_household = Some s) \<and>
   advance example_ids 20 example_household 20 example_projected =
   rebuild example_ids 20 example_household 20 example_projected"
proof
  have ok: "db_ok example_log" "db_snapshots example_log = []"
    by simp (simp add: example_log_def example_db_def empty_db_def)
  have get: "get_snapshot example_projected example_household = Some (the (get_snapshot example_projected example_household))
      \<and> sn_as_of (the (get_snapshot example_projected example_household)) = 12"
    by code_simp
  then show "\<exists>s. get_snapshot example_projected example_household = Some s"
    by blast
  show "advance example_ids 20 example_household 20 example_projected =
      rebuild example_ids 20 example_household 20 example_projected"
    by (rule advance_is_rebuild[OF ok example_history]) (use get in auto)
qed

text \<open>
  Asking \<open>advance\<close> for the past answers from the log and stores nothing: the stored projection, and the
  whole database, are unchanged.
\<close>

theorem advance_into_the_past:
  assumes "get_snapshot db h = Some s" and "t < sn_as_of s"
  shows "\<exists>snapshot. advance new_id now h t db = Inr (snapshot, db) \<and> project_known_as_of db h t = Inr snapshot"
  using assms by (simp add: advance_def project_total)

theorem advance_into_the_past_witness:
  "\<exists>snapshot. advance example_ids 20 example_household 11 example_projected = Inr (snapshot, example_projected) \<and>
     project_known_as_of example_projected example_household 11 = Inr snapshot"
proof (rule advance_into_the_past)
  show "get_snapshot example_projected example_household = Some (the (get_snapshot example_projected example_household))"
    by code_simp
  show "11 < sn_as_of (the (get_snapshot example_projected example_household))"
    by code_simp
qed

text \<open>
  C21: the table round trip.  What \<open>save\<close> stores \<open>get\<close> returns, lot for lot, with its instant, whatever was
  stored before -- no stale lot survives -- except that a snapshot without lots reads back as never built.
  Other households' projections and the log are untouched.
\<close>

theorem save_get_roundtrip:
  assumes "canonical s" and "units_fit s" and "save new_id now h s db = Inr db'"
  shows "get_snapshot db' h = (if sn_lots s = [] then None else Some s) \<and>
    (\<forall>g. g \<noteq> h \<longrightarrow> get_snapshot db' g = get_snapshot db g) \<and> db_events db' = db_events db"
  using get_after_save[OF assms(2,1,3)] by simp

theorem save_get_roundtrip_witness:
  "get_snapshot example_projected example_household = Some (projection example_log example_household 12)"
proof -
  have "save example_ids 12 example_household (projection example_log example_household 12) example_log = Inr example_projected"
    using example_rebuild by (auto simp: rebuild_unfold bind_sum_Inr_iff)
  moreover have "sn_lots (projection example_log example_household 12) \<noteq> []"
    by code_simp
  ultimately show ?thesis
    using save_get_roundtrip[OF projection_lots(1) projection_units_fit[OF example_log_ok]] by simp
qed

text \<open>
  C22: a rebuild succeeds.  On a database that satisfies its constraints, \<open>rebuild\<close> returns the projection and
  stores it whenever every lot's totals fit their columns and the server's generated ids are fresh: no
  CHECK, UNIQUE or FOREIGN KEY constraint of the projection table can refuse a fold of the log.
\<close>

theorem rebuild_succeeds:
  assumes "db_ok db" and "list_all lot_fits (sn_lots (projection db h t))"
    and "distinct (map new_id [0..<length (sn_lots (projection db h t))])"
    and "new_id ` {..<length (sn_lots (projection db h t))} \<inter> sr_id ` set (db_snapshots db) = {}"
  shows "\<exists>db'. rebuild new_id now h t db = Inr (projection db h t, db') \<and>
    get_snapshot db' h = (if sn_lots (projection db h t) = [] then None else Some (projection db h t))"
proof -
  obtain db' where db': "rebuild new_id now h t db = Inr (projection db h t, db')"
    using rebuild_succeeds_aux[OF assms] by blast
  then have "save new_id now h (projection db h t) db = Inr db'"
    by (auto simp: rebuild_unfold bind_sum_Inr_iff)
  then show ?thesis
    using db' get_after_save(1)[OF projection_units_fit[OF assms(1)] projection_lots(1)] by blast
qed

theorem rebuild_succeeds_witness:
  "\<exists>db'. rebuild example_ids 12 example_household 12 example_log = Inr (projection example_log example_household 12, db') \<and>
     get_snapshot db' example_household =
       (if sn_lots (projection example_log example_household 12) = [] then None
        else Some (projection example_log example_household 12))"
proof (rule rebuild_succeeds[OF example_log_ok])
  show "list_all lot_fits (sn_lots (projection example_log example_household 12))"
    by code_simp
  show "distinct (map example_ids [0..<length (sn_lots (projection example_log example_household 12))])"
    by code_simp
  show "example_ids ` {..<length (sn_lots (projection example_log example_household 12))} \<inter> sr_id ` set (db_snapshots example_log) = {}"
    by (simp add: example_log_def example_db_def empty_db_def)
qed

text \<open>
  The proviso of \<open>advance_is_rebuild\<close> is needed.  The server stamps \<^verbatim>\<open>recorded_at\<close> with the start of the
  transaction, so an event can become visible after a projection was stored whose instant is not before
  the event's stamps.  Here a second purchase stamped 11 commits after the projection of instant 12
  was stored: every later \<open>advance\<close> misses it, while \<open>rebuild\<close> counts it.
\<close>

theorem advance_misses_late_commit:
  "map_sum id fst (append_if_new 2 11 example_household late_new example_projected) =
     Inr (event_to_domain example_row2, True) \<and>
   map_sum id (\<lambda>(s, db). quantity_of s 3) (advance example_ids 20 example_household 20 late_db) = Inr 2000 \<and>
   map_sum id (\<lambda>(s, db). quantity_of s 3) (rebuild example_ids 20 example_household 20 late_db) = Inr 4000"
  by code_simp

end
