(* ===== verification/Repo_Uploads.thy ===== *)
theory Repo_Uploads
  imports Repo_Events
begin

section \<open>The upload and household repositories\<close>

text \<open>
  The models of \<^verbatim>\<open>src/kitchensense/repositories/receipts.py\<close> and \<^verbatim>\<open>household.py\<close>.  The lemmas show the
  upload's one-way state machine -- requested, then confirmed once, the first timestamp kept -- its
  tenancy, and that creating a household is idempotent also when two requests race.
\<close>

subsection \<open>Uploads\<close>

definition scoped_uploads :: "kitchen_db \<Rightarrow> uuid \<Rightarrow> upload_row list" where
  "scoped_uploads db household_id = filter (\<lambda>r. ur_household_id r = household_id) (db_uploads db)"

definition upload_row_of :: "kitchen_db \<Rightarrow> uuid \<Rightarrow> uuid \<Rightarrow> repo_error + upload_row option" where
  "upload_row_of db household_id upload_id =
     one_or_none (filter (\<lambda>r. ur_id r = upload_id) (scoped_uploads db household_id))"

definition record_request ::
  "uuid \<Rightarrow> uuid \<Rightarrow> string \<Rightarrow> string \<Rightarrow> datetime \<Rightarrow> datetime \<Rightarrow> kitchen_db
     \<Rightarrow> repo_error + receipt_upload \<times> kitchen_db" where
  "record_request household_id upload_id blob_name content_type requested_at expires_at db =
     bind_sum
       (run_db (insert_upload
          \<lparr>ur_id = upload_id, ur_household_id = household_id, ur_blob_name = blob_name,
           ur_content_type = content_type, ur_requested_at = requested_at, ur_expires_at = expires_at,
           ur_confirmed_at = None\<rparr> db))
       (\<lambda>(_, db'). Inr
          (upload_to_domain
             \<lparr>ur_id = upload_id, ur_household_id = household_id, ur_blob_name = blob_name,
              ur_content_type = content_type, ur_requested_at = requested_at, ur_expires_at = expires_at,
              ur_confirmed_at = None\<rparr>, db'))"

definition get_upload :: "kitchen_db \<Rightarrow> uuid \<Rightarrow> uuid \<Rightarrow> repo_error + receipt_upload option" where
  "get_upload db household_id upload_id =
     bind_sum (upload_row_of db household_id upload_id) (\<lambda>row. Inr (map_option upload_to_domain row))"

definition confirm ::
  "uuid \<Rightarrow> uuid \<Rightarrow> datetime \<Rightarrow> kitchen_db \<Rightarrow> repo_error + receipt_upload option \<times> kitchen_db" where
  "confirm household_id upload_id at db =
     bind_sum (upload_row_of db household_id upload_id) (\<lambda>row.
       case row of
         None \<Rightarrow> Inr (None, db)
       | Some r \<Rightarrow>
           if ur_confirmed_at r = None
           then bind_sum (run_db (update_confirmed_at (ur_id r) at db)) (\<lambda>db'.
             Inr (Some (upload_to_domain (r\<lparr>ur_confirmed_at := Some at\<rparr>)), db'))
           else Inr (Some (upload_to_domain r), db))"

definition unconfirmed :: "kitchen_db \<Rightarrow> uuid \<Rightarrow> datetime \<Rightarrow> receipt_upload list" where
  "unconfirmed db household_id as_of =
     map upload_to_domain
       (sort_key ur_requested_at
          (filter (\<lambda>r. ur_expires_at r < as_of)
             (filter (\<lambda>r. ur_confirmed_at r = None) (scoped_uploads db household_id))))"

subsection \<open>Households\<close>

definition scoped_households :: "kitchen_db \<Rightarrow> uuid \<Rightarrow> household_row list" where
  "scoped_households db household_id = filter (\<lambda>r. hr_id r = household_id) (db_households db)"

definition exists_household :: "kitchen_db \<Rightarrow> uuid \<Rightarrow> repo_error + bool" where
  "exists_household db household_id =
     bind_sum (one_or_none (map hr_id (scoped_households db household_id))) (\<lambda>i. Inr (i \<noteq> None))"

definition get_household :: "kitchen_db \<Rightarrow> uuid \<Rightarrow> repo_error + household_row option" where
  "get_household db household_id = one_or_none (scoped_households db household_id)"

text \<open>The guarded insert of \<^verbatim>\<open>ensure\<close>, after its read found nothing.\<close>

definition ensure_insert ::
  "datetime \<Rightarrow> uuid \<Rightarrow> string \<Rightarrow> string \<Rightarrow> kitchen_db \<Rightarrow> repo_error + bool \<times> kitchen_db" where
  "ensure_insert now household_id name timezone db =
     bind_sum
       (run_db (insert_household_if_new
          \<lparr>hr_id = household_id, hr_name = name, hr_timezone = timezone, hr_created_at = now\<rparr> db))
       (\<lambda>(created, db'). Inr (created \<noteq> None, db'))"

definition ensure ::
  "datetime \<Rightarrow> uuid \<Rightarrow> string \<Rightarrow> string \<Rightarrow> kitchen_db \<Rightarrow> repo_error + bool \<times> kitchen_db" where
  "ensure now household_id name timezone db =
     bind_sum (exists_household db household_id) (\<lambda>known.
       if known then Inr (False, db) else ensure_insert now household_id name timezone db)"

subsection \<open>Uploads: lemmas\<close>

lemma scoped_uploads_ids: "db_ok db \<Longrightarrow> distinct (map ur_id (scoped_uploads db h))"
  by (auto simp: db_ok_def uploads_ok_def scoped_uploads_def distinct_map_filter)

lemma upload_row_find: "db_ok db \<Longrightarrow> upload_row_of db h i = Inr (find (\<lambda>r. ur_id r = i) (scoped_uploads db h))"
  by (simp add: upload_row_of_def one_or_none_by_key scoped_uploads_ids)

lemma find_upload:
  "find (\<lambda>r. ur_id r = i) (scoped_uploads db h) = Some r \<Longrightarrow>
     r \<in> set (db_uploads db) \<and> ur_household_id r = h \<and> ur_id r = i"
  by (auto simp: scoped_uploads_def dest: find_SomeD)

definition upload_reads ::
  "kitchen_db \<Rightarrow> uuid \<Rightarrow> (uuid \<Rightarrow> repo_error + receipt_upload option) \<times> (datetime \<Rightarrow> receipt_upload list)" where
  "upload_reads db h = (get_upload db h, unconfirmed db h)"

interpretation uploads: tenant_read db_uploads ur_household_id upload_reads
  by unfold_locales
    (simp add: upload_reads_def get_upload_def upload_row_of_def unconfirmed_def scoped_uploads_def fun_eq_iff)

lemma update_confirmed_at_Inr:
  "update_confirmed_at i at db = Inr db' \<longleftrightarrow>
     list_all (\<lambda>r. ur_id r = i \<longrightarrow> upload_checks r) (map (set_confirmed i at) (db_uploads db)) \<and>
     db' = db\<lparr>db_uploads := map (set_confirmed i at) (db_uploads db)\<rparr>"
  by (auto simp: update_confirmed_at_def Let_def)

lemma find_set_confirmed:
  "find (\<lambda>r. ur_id r = i) (map (set_confirmed j at) rs) = map_option (set_confirmed j at) (find (\<lambda>r. ur_id r = i) rs)"
  by (induction rs) simp_all

lemma scoped_set_confirmed:
  "scoped_uploads (db\<lparr>db_uploads := map (set_confirmed j at) (db_uploads db)\<rparr>) h
     = map (set_confirmed j at) (scoped_uploads db h)"
  by (simp add: scoped_uploads_def filter_map comp_def)

text \<open>The four outcomes of a confirmation, when the constraints hold.\<close>

lemma confirm_cases:
  assumes "db_ok db"
  shows "confirm h i at db =
    (case find (\<lambda>r. ur_id r = i) (scoped_uploads db h) of
       None \<Rightarrow> Inr (None, db)
     | Some r \<Rightarrow>
         if ur_confirmed_at r \<noteq> None then Inr (Some (upload_to_domain r), db)
         else if at < ur_requested_at r then Inl (DbError IntegrityError)
         else Inr (Some (upload_to_domain (r\<lparr>ur_confirmed_at := Some at\<rparr>)),
                db\<lparr>db_uploads := map (set_confirmed i at) (db_uploads db)\<rparr>))"
proof (cases "find (\<lambda>r. ur_id r = i) (scoped_uploads db h)")
  case None
  then show ?thesis
    by (simp add: confirm_def upload_row_find[OF assms])
next
  case (Some r)
  note r = find_upload[OF Some]
  have checks: "upload_checks q" if "q \<in> set (db_uploads db)" for q
    using assms that by (auto simp: db_ok_def uploads_ok_def list_all_iff)
  have unique: "q = r" if "q \<in> set (db_uploads db)" "ur_id q = i" for q
    using assms r that by (auto simp: db_ok_def uploads_ok_def distinct_map intro: inj_onD[of ur_id])
  have "list_all (\<lambda>q. ur_id q = i \<longrightarrow> upload_checks q) (map (set_confirmed i at) (db_uploads db))
      \<longleftrightarrow> upload_checks (set_confirmed i at r)"
    using unique r by (auto simp: list_all_iff)
  also have "\<dots> \<longleftrightarrow> ur_requested_at r \<le> at"
    using checks[of r] r by (simp add: set_confirmed_def upload_checks_def)
  finally show ?thesis
    using Some r by (auto simp: confirm_def upload_row_find[OF assms] update_confirmed_at_def Let_def)
qed

lemma confirm_again:
  assumes ok: "db_ok db" and first: "confirm h i at db = Inr (Some u, db')"
  shows "db_ok db'" and "is_confirmed u" and "confirm h i at' db' = Inr (Some u, db')"
proof -
  obtain r where r: "find (\<lambda>r. ur_id r = i) (scoped_uploads db h) = Some r"
    using first by (auto simp: confirm_cases[OF ok] split: option.splits)
  note res = first[unfolded confirm_cases[OF ok] r, simplified]
  have "db_ok db' \<and> is_confirmed u \<and> confirm h i at' db' = Inr (Some u, db')"
  proof (cases "ur_confirmed_at r = None")
    case False
    then have "u = upload_to_domain r" "db' = db"
      using res by auto
    with False show ?thesis
      using ok by (simp add: confirm_cases[OF ok] r is_confirmed_def upload_to_domain_def)
  next
    case True
    then have u: "u = upload_to_domain (r\<lparr>ur_confirmed_at := Some at\<rparr>)"
      and db': "db' = db\<lparr>db_uploads := map (set_confirmed i at) (db_uploads db)\<rparr>"
      using res by (auto split: if_splits)
    have "update_confirmed_at i at db = Inr db'"
      using first r True find_upload[OF r]
      by (auto simp: confirm_def upload_row_find[OF ok] bind_sum_Inr_iff)
    then have ok': "db_ok db'"
      by (rule update_confirmed_at_ok[OF ok])
    have "find (\<lambda>r. ur_id r = i) (scoped_uploads db' h) = Some (r\<lparr>ur_confirmed_at := Some at\<rparr>)"
      using r find_upload[OF r] by (simp add: db' scoped_set_confirmed find_set_confirmed set_confirmed_def)
    then show ?thesis
      using ok' by (simp add: confirm_cases[OF ok'] u is_confirmed_def upload_to_domain_def)
  qed
  then show "db_ok db'" and "is_confirmed u" and "confirm h i at' db' = Inr (Some u, db')"
    by simp_all
qed

subsection \<open>Households: lemmas\<close>

lemma exists_household_iff:
  assumes "db_ok db"
  shows "exists_household db h = Inr (household_exists db h)"
proof -
  have "distinct (map hr_id (db_households db))"
    using assms by (simp add: db_ok_def households_ok_def)
  then have "scoped_households db h = (case find (\<lambda>r. hr_id r = h) (db_households db) of None \<Rightarrow> [] | Some r \<Rightarrow> [r])"
    unfolding scoped_households_def by (rule filter_by_key)
  moreover have "find (\<lambda>r. hr_id r = h) (db_households db) = None \<longleftrightarrow> \<not> household_exists db h"
    by (auto simp: find_None_iff household_exists_def)
  ultimately show ?thesis
    by (auto simp: exists_household_def split: option.splits)
qed

lemma ensure_insert_Inr:
  assumes "ensure_insert now h name tz db = Inr (created, db')"
  shows "household_exists db' h" and "created \<longleftrightarrow> \<not> household_exists db h" and "\<not> created \<Longrightarrow> db' = db"
    and "db_ok db \<Longrightarrow> db_ok db'"
proof -
  let ?row = "\<lparr>hr_id = h, hr_name = name, hr_timezone = tz, hr_created_at = now\<rparr>"
  obtain r where ins: "insert_household_if_new ?row db = Inr (r, db')" and created: "created \<longleftrightarrow> r \<noteq> None"
    using assms by (auto simp: ensure_insert_def bind_sum_Inr_iff)
  then obtain q where q: "store_household ?row = Inr q"
    and res: "if household_exists db (hr_id q) then r = None \<and> db' = db
        else r = Some (hr_id q) \<and> db' = db\<lparr>db_households := db_households db @ [q]\<rparr>"
    by (auto simp: insert_household_if_new_Inr)
  have "hr_id q = h"
    using store_household_stored[OF q] by simp
  with res created show "household_exists db' h" "created \<longleftrightarrow> \<not> household_exists db h" "\<not> created \<Longrightarrow> db' = db"
    by (auto simp: household_exists_def split: if_splits)
  show "db_ok db \<Longrightarrow> db_ok db'"
    using ins by (rule insert_household_if_new_ok[rotated])
qed

lemma ensure_unfold:
  assumes "db_ok db"
  shows "ensure now h name tz db =
    (if household_exists db h then Inr (False, db) else ensure_insert now h name tz db)"
  by (simp add: ensure_def exists_household_iff[OF assms])

subsection \<open>Examples\<close>

definition example_upload_row :: upload_row where
  "example_upload_row =
     \<lparr>ur_id = 5, ur_household_id = example_household, ur_blob_name = receipt_blob_name example_household 5 50,
      ur_content_type = ''image/png'', ur_requested_at = 50, ur_expires_at = 80, ur_confirmed_at = None\<rparr>"

definition example_requested :: kitchen_db where
  "example_requested = example_db\<lparr>db_uploads := [example_upload_row]\<rparr>"

lemma example_request:
  "record_request example_household 5 (receipt_blob_name example_household 5 50) (content_type_value PNG) 50 80 example_db =
     Inr (upload_to_domain example_upload_row, example_requested)"
  by code_simp

lemma record_request_ok: "db_ok db \<Longrightarrow> record_request h i b c r x db = Inr (u, db') \<Longrightarrow> db_ok db'"
  by (auto simp: record_request_def bind_sum_Inr_iff dest: insert_upload_ok)

lemma example_requested_ok [simp]: "db_ok example_requested"
  by (rule record_request_ok[OF example_db_ok example_request])

subsection \<open>Properties\<close>

text \<open>
  Every outcome of a confirmation.  No such upload in this household: nothing, and nothing changes.
  Already confirmed: the stored upload with its first timestamp, and nothing changes.  A timestamp before
  the request: refused by the constraint.  Otherwise the upload is marked, once, and only it.
\<close>

theorem confirm_outcomes:
  assumes "db_ok db"
  shows "confirm h i at db =
    (case find (\<lambda>r. ur_id r = i) (scoped_uploads db h) of
       None \<Rightarrow> Inr (None, db)
     | Some r \<Rightarrow>
         if ur_confirmed_at r \<noteq> None then Inr (Some (upload_to_domain r), db)
         else if at < ur_requested_at r then Inl (DbError IntegrityError)
         else Inr (Some (upload_to_domain (r\<lparr>ur_confirmed_at := Some at\<rparr>)),
                db\<lparr>db_uploads := map (set_confirmed i at) (db_uploads db)\<rparr>))"
  by (rule confirm_cases[OF assms])

theorem confirm_outcomes_witness:
  "confirm example_household 5 49 example_requested = Inl (DbError IntegrityError) \<and>
   confirm 8 5 60 example_requested = Inr (None, example_requested)"
proof
  have scoped: "scoped_uploads example_requested example_household = [example_upload_row]"
      "scoped_uploads example_requested 8 = []"
    by (simp_all add: scoped_uploads_def example_requested_def example_upload_row_def example_household_def)
  show "confirm example_household 5 49 example_requested = Inl (DbError IntegrityError)"
    using confirm_outcomes[OF example_requested_ok, of example_household 5 49]
    by (simp add: scoped example_upload_row_def)
  show "confirm 8 5 60 example_requested = Inr (None, example_requested)"
    using confirm_outcomes[OF example_requested_ok, of 8 5 60] by (simp add: scoped)
qed

text \<open>
  Confirming is idempotent.  After a confirmation that answered, every later one, at whatever time, answers
  with the same upload -- the first timestamp included -- and changes nothing.
\<close>

theorem confirm_idempotent:
  assumes "db_ok db" and "confirm h i at db = Inr (Some u, db')"
  shows "is_confirmed u \<and> confirm h i at' db' = Inr (Some u, db')"
  using confirm_again[OF assms] by simp

theorem confirm_idempotent_witness:
  "is_confirmed (the (fst (projr (confirm example_household 5 60 example_requested)))) \<and>
   confirm example_household 5 75 (snd (projr (confirm example_household 5 60 example_requested))) =
     Inr (Some (the (fst (projr (confirm example_household 5 60 example_requested)))),
          snd (projr (confirm example_household 5 60 example_requested)))"
proof (rule confirm_idempotent[OF example_requested_ok])
  show "confirm example_household 5 60 example_requested =
     Inr (Some (the (fst (projr (confirm example_household 5 60 example_requested)))),
          snd (projr (confirm example_household 5 60 example_requested)))"
    by code_simp
qed

text \<open>
  Uploads are scoped.  A confirmation, whatever id it is given, changes no read of any other household; an
  answered upload is the asking household's own; and an id that exists only in other households is
  answered exactly as one that exists nowhere.
\<close>

theorem confirm_is_scoped:
  assumes "db_ok db" and "confirm h i at db = Inr (res, db')"
  shows "(\<forall>g. g \<noteq> h \<longrightarrow> upload_reads db' g = upload_reads db g) \<and>
    (\<forall>u. res = Some u \<longrightarrow> ru_household_id u = h \<and> ru_id u = i) \<and>
    (i \<notin> ur_id ` set (scoped_uploads db h) \<longrightarrow> res = None \<and> db' = db)"
proof (cases "find (\<lambda>r. ur_id r = i) (scoped_uploads db h)")
  case None
  then show ?thesis
    using assms(2) by (simp add: confirm_cases[OF assms(1)])
next
  case (Some r)
  note r = find_upload[OF Some]
  have unique: "q = r" if "q \<in> set (db_uploads db)" "ur_id q = i" for q
    using assms(1) r that by (auto simp: db_ok_def uploads_ok_def distinct_map intro: inj_onD[of ur_id])
  have "upload_reads (db\<lparr>db_uploads := map (set_confirmed i at) (db_uploads db)\<rparr>) g = upload_reads db g" if "g \<noteq> h" for g
    by (rule uploads.map_invisible[where f = "set_confirmed i at"]) (use unique r that in \<open>auto simp: set_confirmed_def\<close>)
  moreover have "i \<in> ur_id ` set (scoped_uploads db h)"
    using find_SomeD[OF Some] by auto
  ultimately show ?thesis
    using assms(2) r unfolding confirm_cases[OF assms(1)] Some
    by (auto simp: upload_to_domain_def split: if_splits)
qed

theorem confirm_is_scoped_witness:
  "upload_reads (snd (projr (confirm example_household 5 60 example_requested))) 8 = upload_reads example_requested 8"
proof -
  have "confirm example_household 5 60 example_requested =
      Inr (fst (projr (confirm example_household 5 60 example_requested)), snd (projr (confirm example_household 5 60 example_requested)))"
    by code_simp
  from confirm_is_scoped[OF example_requested_ok this] show ?thesis
    by (simp add: example_household_def)
qed

text \<open>
  What the sweep reads.  \<open>unconfirmed\<close> lists the household's uploads that are not confirmed and whose URL has
  expired, except those that expire at exactly the instant asked for, which \<open>has_expired\<close> already counts
  as expired.
\<close>

theorem unconfirmed_omits_the_boundary:
  "set (unconfirmed db h t) =
     {u \<in> upload_to_domain ` set (scoped_uploads db h). \<not> is_confirmed u \<and> has_expired u t} -
     {u. ru_expires_at u = t} \<and>
   unconfirmed example_requested example_household 80 = [] \<and>
   has_expired (upload_to_domain example_upload_row) 80"
proof (intro conjI)
  show "set (unconfirmed db h t) =
     {u \<in> upload_to_domain ` set (scoped_uploads db h). \<not> is_confirmed u \<and> has_expired u t} - {u. ru_expires_at u = t}"
    by (auto simp: unconfirmed_def is_confirmed_def has_expired_def upload_to_domain_def)
  show "unconfirmed example_requested example_household 80 = []"
    by (simp add: unconfirmed_def scoped_uploads_def example_requested_def example_upload_row_def)
  show "has_expired (upload_to_domain example_upload_row) 80"
    by (simp add: has_expired_def upload_to_domain_def example_upload_row_def)
qed

text \<open>
  A household is created exactly once.  After \<open>ensure\<close> returns the household exists; it reports creation
  exactly when it did not exist before; called again it changes nothing; and when a second request had
  also found nothing before the first one's insert, its own insert reports no creation and leaves the
  first one's row as it is.
\<close>

theorem ensure_creates_once:
  assumes "db_ok db" and "ensure now h name tz db = Inr (created, db')"
  shows "household_exists db' h \<and> (created \<longleftrightarrow> \<not> household_exists db h) \<and>
    ensure now' h name' tz' db' = Inr (False, db') \<and>
    (\<forall>created2 db2. ensure_insert now' h name' tz' db' = Inr (created2, db2) \<longrightarrow> \<not> created2 \<and> db2 = db')"
proof -
  have now_there: "household_exists db' h" and created: "created \<longleftrightarrow> \<not> household_exists db h" and ok': "db_ok db'"
    using assms ensure_insert_Inr by (auto simp: ensure_unfold split: if_splits)
  moreover have "\<not> created2 \<and> db2 = db'" if "ensure_insert now' h name' tz' db' = Inr (created2, db2)" for created2 db2
    using ensure_insert_Inr[OF that] now_there by simp
  ultimately show ?thesis
    unfolding ensure_unfold[OF ok'] by auto
qed

theorem ensure_creates_once_witness:
  "ensure 4 9 ''Home'' ''UTC'' (snd (projr (ensure 3 9 ''Flat'' ''UTC'' example_db)))
    = Inr (False, snd (projr (ensure 3 9 ''Flat'' ''UTC'' example_db)))"
proof -
  have "ensure 3 9 ''Flat'' ''UTC'' example_db = Inr (True, snd (projr (ensure 3 9 ''Flat'' ''UTC'' example_db)))"
    by code_simp
  from ensure_creates_once[OF example_db_ok this, of 4 "''Home''" "''UTC''"] show ?thesis
    by blast
qed

end
