(* ===== verification/Settings.thy ===== *)
theory Settings
  imports Py_Stdlib
begin

section \<open>Runtime configuration\<close>

text \<open>
  The model of \<^verbatim>\<open>src/kitchensense/config.py\<close>.  The environment is a function from names to values;
  Python's \<^verbatim>\<open>float()\<close> is the argument \<open>float_of\<close>, \<open>None\<close> where it raises \<^verbatim>\<open>ValueError\<close>, and a number of
  seconds is a rational.  The lemmas show the module's rule that a blank tenant or storage account
  configures nothing: no URL is ever built around an empty name.
\<close>

type_synonym environ = "string \<Rightarrow> string option"
type_synonym seconds = rat

text \<open>\<^verbatim>\<open>timedelta(seconds = s)\<close> in microseconds, rounded half to even.\<close>

definition timedelta_us :: "seconds \<Rightarrow> int" where
  "timedelta_us s = (let x = s * 1000000; f = \<lfloor>x\<rfloor>; d = x - of_int f in
     if d < 1 / 2 then f else if d > 1 / 2 then f + 1 else if even f then f else f + 1)"

definition DEFAULT_KEY_VAULT_URI :: string where
  "DEFAULT_KEY_VAULT_URI = ''https://kv-ks-feq2gmz4zaoa4.vault.azure.net/''"

definition DEFAULT_MANAGED_IDENTITY_CLIENT_ID :: string where
  "DEFAULT_MANAGED_IDENTITY_CLIENT_ID = ''ec5d34e8-9b33-468b-b0f3-07336fe3a866''"

definition DEFAULT_POSTGRES_SECRET_NAME :: string where
  "DEFAULT_POSTGRES_SECRET_NAME = ''postgres-connection-string''"

definition DEFAULT_REQUIRED_SCOPE :: string where
  "DEFAULT_REQUIRED_SCOPE = ''inventory.readwrite''"

definition DEFAULT_RECEIPTS_CONTAINER :: string where
  "DEFAULT_RECEIPTS_CONTAINER = ''receipts''"

definition DEFAULT_BLOB_ENDPOINT_SUFFIX :: string where
  "DEFAULT_BLOB_ENDPOINT_SUFFIX = ''blob.core.windows.net''"

text \<open>\<^verbatim>\<open>x or y\<close> on strings.\<close>

definition or_else :: "string \<Rightarrow> string \<Rightarrow> string" where
  "or_else x y = (if x = [] then y else x)"

definition env_value :: "environ \<Rightarrow> string \<Rightarrow> string \<Rightarrow> string" where
  "env_value environ name fallback =
     (let value = strip (case environ name of None \<Rightarrow> [] | Some v \<Rightarrow> v) in or_else value fallback)"

record settings =
  st_app_env :: string
  st_key_vault_uri :: string
  st_managed_identity_client_id :: string
  st_postgres_secret_name :: string
  st_database_probe_timeout_seconds :: seconds
  st_key_vault_timeout_seconds :: seconds
  st_key_vault_retry_cooldown_seconds :: seconds
  st_entra_tenant_id :: string
  st_entra_client_id :: string
  st_entra_audience :: string
  st_entra_openid_configuration_url :: string
  st_required_scope :: string
  st_jwks_cache_seconds :: seconds
  st_jwks_min_refresh_seconds :: seconds
  st_token_leeway_seconds :: seconds
  st_identity_timeout_seconds :: seconds
  st_storage_account_name :: string
  st_storage_blob_endpoint :: string
  st_receipts_container :: string
  st_upload_sas_ttl_seconds :: seconds
  st_delegation_key_ttl_seconds :: seconds
  st_storage_clock_skew_seconds :: seconds
  st_storage_timeout_seconds :: seconds

definition openid_configuration_url :: "string \<Rightarrow> string" where
  "openid_configuration_url tenant_id =
     (if tenant_id = [] then []
      else ''https://'' @ tenant_id @ ''.ciamlogin.com/'' @ tenant_id @ ''/v2.0'' @
           ''/.well-known/openid-configuration'')"

definition blob_endpoint_for :: "string \<Rightarrow> string \<Rightarrow> string" where
  "blob_endpoint_for account_name suffix =
     (if account_name = [] then [] else ''https://'' @ account_name @ ''.'' @ suffix)"

definition from_env :: "(string \<Rightarrow> seconds option) \<Rightarrow> environ \<Rightarrow> settings option" where
  "from_env float_of environ = (let
     env = env_value environ;
     seconds = (\<lambda>name fallback. float_of (env name fallback));
     tenant_id = env ''ENTRA_TENANT_ID'' [];
     storage_account_name = env ''STORAGE_ACCOUNT_NAME'' []
   in
     Option.bind (seconds ''DATABASE_PROBE_TIMEOUT_SECONDS'' ''5'') (\<lambda>database_probe_timeout_seconds.
     Option.bind (seconds ''KEY_VAULT_TIMEOUT_SECONDS'' ''10'') (\<lambda>key_vault_timeout_seconds.
     Option.bind (seconds ''KEY_VAULT_RETRY_COOLDOWN_SECONDS'' ''30'') (\<lambda>key_vault_retry_cooldown_seconds.
     Option.bind (seconds ''JWKS_CACHE_SECONDS'' ''3600'') (\<lambda>jwks_cache_seconds.
     Option.bind (seconds ''JWKS_MIN_REFRESH_SECONDS'' ''60'') (\<lambda>jwks_min_refresh_seconds.
     Option.bind (seconds ''TOKEN_LEEWAY_SECONDS'' ''60'') (\<lambda>token_leeway_seconds.
     Option.bind (seconds ''IDENTITY_TIMEOUT_SECONDS'' ''10'') (\<lambda>identity_timeout_seconds.
     Option.bind (seconds ''UPLOAD_SAS_TTL_SECONDS'' ''300'') (\<lambda>upload_sas_ttl_seconds.
     Option.bind (seconds ''DELEGATION_KEY_TTL_SECONDS'' ''3600'') (\<lambda>delegation_key_ttl_seconds.
     Option.bind (seconds ''STORAGE_CLOCK_SKEW_SECONDS'' ''300'') (\<lambda>storage_clock_skew_seconds.
     Option.bind (seconds ''STORAGE_TIMEOUT_SECONDS'' ''10'') (\<lambda>storage_timeout_seconds.
     Some
       \<lparr>st_app_env = env ''APP_ENV'' ''local'',
        st_key_vault_uri = env ''KEY_VAULT_URI'' DEFAULT_KEY_VAULT_URI,
        st_managed_identity_client_id = env ''AZURE_CLIENT_ID'' DEFAULT_MANAGED_IDENTITY_CLIENT_ID,
        st_postgres_secret_name = env ''POSTGRES_SECRET_NAME'' DEFAULT_POSTGRES_SECRET_NAME,
        st_database_probe_timeout_seconds = database_probe_timeout_seconds,
        st_key_vault_timeout_seconds = key_vault_timeout_seconds,
        st_key_vault_retry_cooldown_seconds = key_vault_retry_cooldown_seconds,
        st_entra_tenant_id = tenant_id,
        st_entra_client_id = env ''ENTRA_CLIENT_ID'' [],
        st_entra_audience = or_else (env ''ENTRA_AUDIENCE'' []) (env ''ENTRA_CLIENT_ID'' []),
        st_entra_openid_configuration_url =
          or_else (env ''ENTRA_OPENID_CONFIGURATION_URL'' []) (openid_configuration_url tenant_id),
        st_required_scope = env ''REQUIRED_SCOPE'' DEFAULT_REQUIRED_SCOPE,
        st_jwks_cache_seconds = jwks_cache_seconds,
        st_jwks_min_refresh_seconds = jwks_min_refresh_seconds,
        st_token_leeway_seconds = token_leeway_seconds,
        st_identity_timeout_seconds = identity_timeout_seconds,
        st_storage_account_name = storage_account_name,
        st_storage_blob_endpoint =
          or_else (env ''STORAGE_BLOB_ENDPOINT'' [])
            (blob_endpoint_for storage_account_name DEFAULT_BLOB_ENDPOINT_SUFFIX),
        st_receipts_container = env ''RECEIPTS_CONTAINER'' DEFAULT_RECEIPTS_CONTAINER,
        st_upload_sas_ttl_seconds = upload_sas_ttl_seconds,
        st_delegation_key_ttl_seconds = delegation_key_ttl_seconds,
        st_storage_clock_skew_seconds = storage_clock_skew_seconds,
        st_storage_timeout_seconds = storage_timeout_seconds\<rparr>))))))))))))"

subsection \<open>Lemmas\<close>

lemma env_value_nonempty: "d \<noteq> [] \<Longrightarrow> env_value env n d \<noteq> []"
  by (simp add: env_value_def or_else_def Let_def)

lemma env_value_stripped: "strip d = d \<Longrightarrow> strip (env_value env n d) = env_value env n d"
  by (simp add: env_value_def or_else_def Let_def)

lemma from_env_strings:
  assumes "from_env float_of env = Some s"
  shows "st_entra_tenant_id s = env_value env ''ENTRA_TENANT_ID'' []"
    and "st_entra_client_id s = env_value env ''ENTRA_CLIENT_ID'' []"
    and "st_entra_audience s = or_else (env_value env ''ENTRA_AUDIENCE'' []) (st_entra_client_id s)"
    and "st_entra_openid_configuration_url s =
      or_else (env_value env ''ENTRA_OPENID_CONFIGURATION_URL'' []) (openid_configuration_url (st_entra_tenant_id s))"
    and "st_required_scope s = env_value env ''REQUIRED_SCOPE'' DEFAULT_REQUIRED_SCOPE"
    and "st_storage_account_name s = env_value env ''STORAGE_ACCOUNT_NAME'' []"
    and "st_storage_blob_endpoint s = or_else (env_value env ''STORAGE_BLOB_ENDPOINT'' [])
      (blob_endpoint_for (st_storage_account_name s) DEFAULT_BLOB_ENDPOINT_SUFFIX)"
    and "st_receipts_container s = env_value env ''RECEIPTS_CONTAINER'' DEFAULT_RECEIPTS_CONTAINER"
  using assms by (auto simp: from_env_def Let_def bind_eq_Some_conv)

lemma from_env_durations:
  assumes "from_env float_of env = Some s"
  shows "float_of (env_value env ''UPLOAD_SAS_TTL_SECONDS'' ''300'') = Some (st_upload_sas_ttl_seconds s)"
    and "float_of (env_value env ''DELEGATION_KEY_TTL_SECONDS'' ''3600'') = Some (st_delegation_key_ttl_seconds s)"
    and "float_of (env_value env ''JWKS_CACHE_SECONDS'' ''3600'') = Some (st_jwks_cache_seconds s)"
    and "float_of (env_value env ''JWKS_MIN_REFRESH_SECONDS'' ''60'') = Some (st_jwks_min_refresh_seconds s)"
  using assms by (auto simp: from_env_def Let_def bind_eq_Some_conv)

text \<open>
  Nothing is defaulted that could point at somebody else's tenant or account.  With no tenant id and no
  explicit metadata URL the discovery URL is empty, and with no account name and no explicit endpoint
  the blob endpoint is empty; a variable holding only whitespace counts as unset; and the required
  scope and the container are never empty.
\<close>

theorem unset_names_configure_nothing:
  assumes "from_env float_of env = Some s"
  shows "(is_blank (case env ''ENTRA_TENANT_ID'' of None \<Rightarrow> [] | Some v \<Rightarrow> v) \<longrightarrow>
      st_entra_tenant_id s = [] \<and>
      (is_blank (case env ''ENTRA_OPENID_CONFIGURATION_URL'' of None \<Rightarrow> [] | Some v \<Rightarrow> v) \<longrightarrow>
         st_entra_openid_configuration_url s = [])) \<and>
    (is_blank (case env ''STORAGE_ACCOUNT_NAME'' of None \<Rightarrow> [] | Some v \<Rightarrow> v) \<longrightarrow>
      st_storage_account_name s = [] \<and>
      (is_blank (case env ''STORAGE_BLOB_ENDPOINT'' of None \<Rightarrow> [] | Some v \<Rightarrow> v) \<longrightarrow>
         st_storage_blob_endpoint s = [])) \<and>
    st_required_scope s \<noteq> [] \<and> st_receipts_container s \<noteq> []"
proof (intro conjI)
  show "st_required_scope s \<noteq> []" "st_receipts_container s \<noteq> []"
    using from_env_strings(5,8)[OF assms]
    by (simp_all add: env_value_nonempty DEFAULT_REQUIRED_SCOPE_def DEFAULT_RECEIPTS_CONTAINER_def)
qed (auto simp: from_env_strings[OF assms] env_value_def or_else_def is_blank_def openid_configuration_url_def
    blob_endpoint_for_def Let_def)

theorem unset_names_configure_nothing_witness:
  "st_storage_blob_endpoint (the (from_env (\<lambda>s. Some 1) (\<lambda>n. Some '' ''))) = []"
proof -
  have "from_env (\<lambda>s. Some 1) (\<lambda>n. Some '' '') = Some (the (from_env (\<lambda>s. Some 1) (\<lambda>n. Some '' '')))"
    by (simp add: from_env_def Let_def)
  from unset_names_configure_nothing[OF this] show ?thesis
    by (simp add: is_blank_def strip_def lstrip_def is_space_def code_point_def Let_def)
qed

end
