(* ===== verification/Storage_Receipts.thy ===== *)
theory Storage_Receipts
  imports Settings Domain_Receipts Py_Uuid5
begin

section \<open>The receipt blob store\<close>

text \<open>
  The model of \<^verbatim>\<open>src/kitchensense/storage/receipts.py\<close>.  The two calls into the Azure SDK are arguments:
  \<open>fetch_key\<close> asks for a user delegation key valid from a start to an expiry and may time out or be refused,
  and \<open>sign\<close> is \<^verbatim>\<open>generate_blob_sas\<close> of a request.  What is relied on of the first is the hypothesis
  \<open>keys_as_asked\<close>: a key obtained is valid for the window it was asked for.

  The lemmas show that an upload URL names exactly the derived blob, carries write permission for it alone,
  and never outlives the key it was signed with, over any history of requests of a store.
\<close>

datatype storage_error = NotConfigured | KeyTimedOut | KeyRefused

datatype 'k fetched = Fetched 'k | TimedOut | Refused

record 'k sas_request =
  sas_account_name :: string
  sas_container_name :: string
  sas_blob_name :: string
  sas_key :: 'k
  sas_permission :: string
  sas_start :: datetime
  sas_expiry :: datetime
  sas_protocol :: string

record ticket =
  ut_blob_name :: string
  ut_url :: string
  ut_expires_at :: datetime
  ut_content_type :: receipt_content_type
  ut_method :: string

definition ticket_headers :: "ticket \<Rightarrow> (string \<times> string) list" where
  "ticket_headers t =
     [(''x-ms-blob-type'', ''BlockBlob''), (''Content-Type'', content_type_value (ut_content_type t))]"

record 'k blob_store =
  bs_settings :: settings
  bs_key :: "'k option"
  bs_key_usable_until :: datetime

text \<open>\<^verbatim>\<open>datetime.min\<close> is the epoch of \<^typ>\<open>datetime\<close>.\<close>

definition new_store :: "settings \<Rightarrow> 'k blob_store" where
  "new_store settings = \<lparr>bs_settings = settings, bs_key = None, bs_key_usable_until = 0\<rparr>"

definition is_configured :: "'k blob_store \<Rightarrow> bool" where
  "is_configured st \<longleftrightarrow>
     st_storage_account_name (bs_settings st) \<noteq> [] \<and> st_storage_blob_endpoint (bs_settings st) \<noteq> [] \<and>
     st_receipts_container (bs_settings st) \<noteq> []"

definition require_configured :: "'k blob_store \<Rightarrow> storage_error + unit" where
  "require_configured st = (if \<not> is_configured st then Inl NotConfigured else Inr ())"

subsection \<open>The delegation key\<close>

definition cached_key :: "datetime \<Rightarrow> 'k blob_store \<Rightarrow> 'k option" where
  "cached_key now st = (if now < bs_key_usable_until st then bs_key st else None)"

text \<open>What runs while the lock is held, the second check first.\<close>

definition delegation_key_locked ::
  "(datetime \<Rightarrow> datetime \<Rightarrow> 'k fetched) \<Rightarrow> datetime \<Rightarrow> 'k blob_store \<Rightarrow> (storage_error + 'k) \<times> 'k blob_store" where
  "delegation_key_locked fetch_key now st =
     (case cached_key now st of
        Some key \<Rightarrow> (Inr key, st)
      | None \<Rightarrow>
          let settings = bs_settings st;
              skew = timedelta_us (st_storage_clock_skew_seconds settings);
              start = now - skew;
              expiry = now + timedelta_us (st_delegation_key_ttl_seconds settings)
          in case fetch_key start expiry of
               TimedOut \<Rightarrow> (Inl KeyTimedOut, st)
             | Refused \<Rightarrow> (Inl KeyRefused, st)
             | Fetched key \<Rightarrow>
                 (Inr key,
                  st\<lparr>bs_key := Some key,
                     bs_key_usable_until := expiry - timedelta_us (st_upload_sas_ttl_seconds settings)\<rparr>))"

definition delegation_key ::
  "(datetime \<Rightarrow> datetime \<Rightarrow> 'k fetched) \<Rightarrow> datetime \<Rightarrow> 'k blob_store \<Rightarrow> (storage_error + 'k) \<times> 'k blob_store" where
  "delegation_key fetch_key now st =
     (case cached_key now st of
        Some key \<Rightarrow> (Inr key, st)
      | None \<Rightarrow> delegation_key_locked fetch_key now st)"

subsection \<open>Issuing a ticket\<close>

definition is_unreserved :: "char \<Rightarrow> bool" where
  "is_unreserved c \<longleftrightarrow>
     c \<in> set ''ABCDEFGHIJKLMNOPQRSTUVWXYZabcdefghijklmnopqrstuvwxyz0123456789_.-~''"

definition upper_hex :: "int \<Rightarrow> char" where
  "upper_hex n = char_of (if n < 10 then 48 + n else 55 + n)"

definition quote_byte :: "byte \<Rightarrow> string" where
  "quote_byte b = CHR ''%'' # [upper_hex (uint b div 16), upper_hex (uint b mod 16)]"

text \<open>\<^verbatim>\<open>urllib.parse.quote(s, safe = '/')\<close>.\<close>

definition quote_char :: "char \<Rightarrow> string" where
  "quote_char c = (if is_unreserved c \<or> c = CHR ''/'' then [c] else concat (map quote_byte (utf8_char c)))"

definition quote :: "string \<Rightarrow> string" where
  "quote s = concat (map quote_char s)"

definition rstrip_slashes :: "string \<Rightarrow> string" where
  "rstrip_slashes s = rev (dropWhile (\<lambda>c. c = CHR ''/'') (rev s))"

definition blob_url :: "settings \<Rightarrow> string \<Rightarrow> string" where
  "blob_url settings blob_name =
     rstrip_slashes (st_storage_blob_endpoint settings) @ ''/'' @ st_receipts_container settings @ ''/'' @
     quote blob_name"

definition sas_request_for :: "settings \<Rightarrow> string \<Rightarrow> 'k \<Rightarrow> datetime \<Rightarrow> 'k sas_request" where
  "sas_request_for settings blob_name key requested_at =
     \<lparr>sas_account_name = st_storage_account_name settings,
      sas_container_name = st_receipts_container settings,
      sas_blob_name = blob_name,
      sas_key = key,
      sas_permission = ''w'',
      sas_start = requested_at - timedelta_us (st_storage_clock_skew_seconds settings),
      sas_expiry = requested_at + timedelta_us (st_upload_sas_ttl_seconds settings),
      sas_protocol = ''https''\<rparr>"

definition upload_ticket ::
  "('k sas_request \<Rightarrow> string) \<Rightarrow> (datetime \<Rightarrow> datetime \<Rightarrow> 'k fetched) \<Rightarrow> uuid \<Rightarrow> uuid \<Rightarrow> datetime \<Rightarrow>
     receipt_content_type \<Rightarrow> 'k blob_store \<Rightarrow> (storage_error + ticket) \<times> 'k blob_store" where
  "upload_ticket sign fetch_key household_id upload_id requested_at content_type st =
     (case require_configured st of
        Inl e \<Rightarrow> (Inl e, st)
      | Inr _ \<Rightarrow>
          let settings = bs_settings st;
              expires_at = requested_at + timedelta_us (st_upload_sas_ttl_seconds settings)
          in case delegation_key fetch_key requested_at st of
               (Inl e, st') \<Rightarrow> (Inl e, st')
             | (Inr key, st') \<Rightarrow>
                 let blob_name = receipt_blob_name household_id upload_id requested_at;
                     token = sign (sas_request_for settings blob_name key requested_at)
                 in (Inr \<lparr>ut_blob_name = blob_name,
                          ut_url = blob_url settings blob_name @ ''?'' @ token,
                          ut_expires_at = expires_at,
                          ut_content_type = content_type,
                          ut_method = ''PUT''\<rparr>, st'))"

subsection \<open>Blob names need no quoting\<close>

lemma quote_id: "list_all (\<lambda>c. is_unreserved c \<or> c = CHR ''/'') s \<Longrightarrow> quote s = s"
  by (induction s) (auto simp: quote_def quote_char_def)

lemma quote_blob_name: "quote (receipt_blob_name h u t) = receipt_blob_name h u t"
proof (rule quote_id)
  have "is_unreserved c \<or> c = CHR ''/''" if "c \<in> insert (CHR ''/'') uuid_alphabet" for c
    using that by (auto simp: uuid_alphabet_eval is_unreserved_def)
  then show "list_all (\<lambda>c. is_unreserved c \<or> c = CHR ''/'') (receipt_blob_name h u t)"
    using set_blob_name[of h u t] by (auto simp: list_all_iff)
qed

subsection \<open>Keys and the URLs signed with them\<close>

lemma delegation_key_cases:
  assumes "delegation_key fetch_key now st = (Inr key, st')"
  obtains "bs_key st = Some key" "now < bs_key_usable_until st" "st' = st"
  | "fetch_key (now - timedelta_us (st_storage_clock_skew_seconds (bs_settings st)))
       (now + timedelta_us (st_delegation_key_ttl_seconds (bs_settings st))) = Fetched key"
    "st' = st\<lparr>bs_key := Some key, bs_key_usable_until := now + timedelta_us (st_delegation_key_ttl_seconds (bs_settings st))
       - timedelta_us (st_upload_sas_ttl_seconds (bs_settings st))\<rparr>"
proof (cases "cached_key now st")
  case (Some k)
  then have "bs_key st = Some key \<and> now < bs_key_usable_until st \<and> st' = st"
    using assms by (auto simp: delegation_key_def cached_key_def split: if_splits)
  then show thesis
    using that(1) by blast
next
  case None
  then show thesis
    using assms that(2) by (simp add: delegation_key_def delegation_key_locked_def Let_def split: fetched.splits)
qed

lemma delegation_key_error: "delegation_key fetch_key now st = (Inl e, st') \<Longrightarrow> st' = st"
  by (auto simp: delegation_key_def delegation_key_locked_def Let_def split: option.splits fetched.splits)

lemma delegation_key_settings: "delegation_key fetch_key now st = (r, st') \<Longrightarrow> bs_settings st' = bs_settings st"
  by (auto simp: delegation_key_def delegation_key_locked_def Let_def split: option.splits fetched.splits)

lemma upload_ticket_Inr:
  "upload_ticket sign fetch_key h u t ct st = (Inr tk, st') \<longleftrightarrow>
     is_configured st \<and>
     (\<exists>key. delegation_key fetch_key t st = (Inr key, st') \<and>
        tk = \<lparr>ut_blob_name = receipt_blob_name h u t,
          ut_url = blob_url (bs_settings st) (receipt_blob_name h u t) @ ''?'' @
            sign (sas_request_for (bs_settings st) (receipt_blob_name h u t) key t),
          ut_expires_at = t + timedelta_us (st_upload_sas_ttl_seconds (bs_settings st)),
          ut_content_type = ct, ut_method = ''PUT''\<rparr>)"
  by (auto simp: upload_ticket_def require_configured_def Let_def split: sum.splits prod.splits)

lemma upload_ticket_state:
  assumes "upload_ticket sign fetch_key h u t ct st = (r, st')"
  shows "st' = st \<or> (\<exists>key. delegation_key fetch_key t st = (Inr key, st'))"
  using assms delegation_key_error[of fetch_key t st]
  by (auto simp: upload_ticket_def require_configured_def Let_def split: sum.splits prod.splits if_splits)

definition keys_as_asked ::
  "(datetime \<Rightarrow> datetime \<Rightarrow> 'k fetched) \<Rightarrow> ('k \<Rightarrow> datetime) \<Rightarrow> ('k \<Rightarrow> datetime) \<Rightarrow> bool" where
  "keys_as_asked fetch_key key_start key_expiry \<longleftrightarrow>
     (\<forall>start expiry key. fetch_key start expiry = Fetched key \<longrightarrow> key_start key = start \<and> key_expiry key = expiry)"

text \<open>
  A store and the instants of its requests, which do not go back.  What storage answers may differ from one request to the next.
\<close>

inductive store_history :: "settings \<Rightarrow> ('k \<Rightarrow> datetime) \<Rightarrow> ('k \<Rightarrow> datetime) \<Rightarrow> 'k blob_store \<Rightarrow> datetime \<Rightarrow> bool"
  for settings key_start key_expiry where
  new: "store_history settings key_start key_expiry (new_store settings) t"
| request: "store_history settings key_start key_expiry st t \<Longrightarrow> t \<le> now \<Longrightarrow>
    keys_as_asked fetch_key key_start key_expiry \<Longrightarrow>
    upload_ticket sign fetch_key h u now ct st = (r, st') \<Longrightarrow> store_history settings key_start key_expiry st' now"

definition store_inv :: "settings \<Rightarrow> ('k \<Rightarrow> datetime) \<Rightarrow> ('k \<Rightarrow> datetime) \<Rightarrow> 'k blob_store \<Rightarrow> datetime \<Rightarrow> bool" where
  "store_inv settings key_start key_expiry st t \<longleftrightarrow>
     bs_settings st = settings \<and>
     (\<forall>key. bs_key st = Some key \<longrightarrow>
        bs_key_usable_until st = key_expiry key - timedelta_us (st_upload_sas_ttl_seconds settings) \<and>
        key_start key \<le> t - timedelta_us (st_storage_clock_skew_seconds settings))"

lemma store_inv_key:
  assumes "keys_as_asked fetch_key key_start key_expiry" and "store_inv settings key_start key_expiry st t" and "t \<le> now"
    and "delegation_key fetch_key now st = (Inr key, st')"
  shows "store_inv settings key_start key_expiry st' now"
  using assms(4)
proof (cases rule: delegation_key_cases)
  case 1
  then show ?thesis
    using assms(2,3) by (fastforce simp: store_inv_def)
next
  case 2
  then show ?thesis
    using assms(1,2) by (auto simp: store_inv_def keys_as_asked_def)
qed

lemma store_history_inv:
  "store_history settings key_start key_expiry st t \<Longrightarrow> store_inv settings key_start key_expiry st t"
proof (induction rule: store_history.induct)
  case (new t)
  then show ?case
    by (simp add: store_inv_def new_store_def)
next
  case (request st t now fetch_key sign h u ct r st')
  show ?case
  proof (cases "st' = st")
    case True
    then show ?thesis
      using request.IH request.hyps(2) by (fastforce simp: store_inv_def)
  next
    case False
    then obtain key where "delegation_key fetch_key now st = (Inr key, st')"
      using upload_ticket_state[OF request.hyps(4)] by blast
    then show ?thesis
      by (rule store_inv_key[OF request.hyps(3) request.IH request.hyps(2)])
  qed
qed

subsection \<open>Examples\<close>

definition example_settings :: settings where
  "example_settings =
     \<lparr>st_app_env = ''local'', st_key_vault_uri = [], st_managed_identity_client_id = [], st_postgres_secret_name = [],
      st_database_probe_timeout_seconds = 5, st_key_vault_timeout_seconds = 10, st_key_vault_retry_cooldown_seconds = 30,
      st_entra_tenant_id = ''t'', st_entra_client_id = ''c'', st_entra_audience = ''c'',
      st_entra_openid_configuration_url = ''https://idp/t'', st_required_scope = ''inventory.readwrite'',
      st_jwks_cache_seconds = 3600, st_jwks_min_refresh_seconds = 60, st_token_leeway_seconds = 60,
      st_identity_timeout_seconds = 10, st_storage_account_name = ''acct'',
      st_storage_blob_endpoint = ''https://acct.blob/'', st_receipts_container = ''receipts'',
      st_upload_sas_ttl_seconds = 300, st_delegation_key_ttl_seconds = 3600, st_storage_clock_skew_seconds = 300,
      st_storage_timeout_seconds = 10\<rparr>"

text \<open>A key source that answers with the window asked for, and a signature that shows it.\<close>

definition example_fetch :: "datetime \<Rightarrow> datetime \<Rightarrow> (datetime \<times> datetime) fetched" where
  "example_fetch start expiry = Fetched (start, expiry)"

lemma example_keys_as_asked: "keys_as_asked example_fetch fst snd"
  by (simp add: keys_as_asked_def example_fetch_def)

lemma example_ticket:
  "upload_ticket (\<lambda>_. ''sig'') example_fetch 1 2 1000000 PNG (new_store example_settings) =
     (Inr \<lparr>ut_blob_name = receipt_blob_name 1 2 1000000,
        ut_url = ''https://acct.blob/receipts/'' @ receipt_blob_name 1 2 1000000 @ ''?sig'',
        ut_expires_at = 301000000, ut_content_type = PNG, ut_method = ''PUT''\<rparr>,
      \<lparr>bs_settings = example_settings, bs_key = Some (-299000000, 3601000000), bs_key_usable_until = 3301000000\<rparr>)"
  by code_simp

subsection \<open>Properties\<close>

text \<open>
  C32: a URL cannot outlive the key it was signed with.  In every history of upload requests whose instants do not
  go back, when the configured SAS lifetime is at most the key lifetime, each ticket is signed with a key
  whose validity contains the whole validity of the SAS -- whether the key was cached or just fetched.
\<close>

theorem sas_never_outlives_its_key:
  assumes "keys_as_asked fetch_key key_start key_expiry" and "store_history settings key_start key_expiry st t" and "t \<le> now"
    and "timedelta_us (st_upload_sas_ttl_seconds settings) \<le> timedelta_us (st_delegation_key_ttl_seconds settings)"
    and "upload_ticket sign fetch_key h u now ct st = (Inr tk, st')"
  shows "\<exists>key. let sas = sas_request_for settings (receipt_blob_name h u now) key now in
      ut_url tk = blob_url settings (ut_blob_name tk) @ ''?'' @ sign sas \<and>
      key_start key \<le> sas_start sas \<and> sas_expiry sas \<le> key_expiry key \<and> sas_expiry sas = ut_expires_at tk"
proof -
  have inv: "store_inv settings key_start key_expiry st t"
    by (rule store_history_inv[OF assms(2)])
  obtain key where key: "delegation_key fetch_key now st = (Inr key, st')"
    and tk: "ut_url tk = blob_url settings (ut_blob_name tk) @ ''?'' @ sign (sas_request_for settings (receipt_blob_name h u now) key now)"
      "ut_expires_at tk = now + timedelta_us (st_upload_sas_ttl_seconds settings)"
    using assms(5) inv by (auto simp: upload_ticket_Inr store_inv_def)
  have "key_start key \<le> now - timedelta_us (st_storage_clock_skew_seconds settings) \<and>
      now + timedelta_us (st_upload_sas_ttl_seconds settings) \<le> key_expiry key"
    using key
  proof (cases rule: delegation_key_cases)
    case 1
    then show ?thesis
      using inv assms(3) by (auto simp: store_inv_def)
  next
    case 2
    then have "key_start key = now - timedelta_us (st_storage_clock_skew_seconds settings) \<and>
        key_expiry key = now + timedelta_us (st_delegation_key_ttl_seconds settings)"
      using inv assms(1) by (simp add: store_inv_def keys_as_asked_def)
    then show ?thesis
      using assms(4) by simp
  qed
  then show ?thesis
    using tk by (auto simp: sas_request_for_def Let_def)
qed

theorem sas_never_outlives_its_key_witness:
  "\<exists>key. let sas = sas_request_for example_settings (receipt_blob_name 1 2 1000000) key 1000000 in
      fst key \<le> sas_start sas \<and> sas_expiry sas \<le> snd key \<and> sas_expiry sas = 301000000"
proof -
  have ttl: "timedelta_us (st_upload_sas_ttl_seconds example_settings) \<le> timedelta_us (st_delegation_key_ttl_seconds example_settings)"
    by code_simp
  show ?thesis
    using sas_never_outlives_its_key[OF example_keys_as_asked store_history.new order_refl ttl example_ticket]
    by (simp add: Let_def)
qed

text \<open>With a key lifetime configured shorter than the SAS lifetime the just-fetched key is used all the same.\<close>

lemma short_lived_key_is_outlived:
  "let settings = example_settings\<lparr>st_delegation_key_ttl_seconds := 200\<rparr> in
     map_sum id ut_expires_at (fst (upload_ticket (\<lambda>_. []) example_fetch 1 2 0 PNG (new_store settings))) = Inr 300000000 \<and>
     map_option snd (bs_key (snd (upload_ticket (\<lambda>_. []) example_fetch 1 2 0 PNG (new_store settings)))) = Some 200000000"
  by code_simp

text \<open>
  What a ticket permits.  A ticket is issued only by a configured store; its URL is the endpoint, the container
  and the derived blob name, which needs no escaping, and a signature over exactly that blob in that
  container, write-only, HTTPS-only, expiring at the ticket's own expiry.  Nothing the caller sends
  beside the household, the fresh id and the instant reaches the name or the signature.
\<close>

theorem ticket_is_for_one_blob:
  assumes "upload_ticket sign fetch_key h u t ct st = (Inr tk, st')"
  shows "is_configured st \<and> ut_blob_name tk = receipt_blob_name h u t \<and> ut_method tk = ''PUT'' \<and>
    (\<exists>key. ut_url tk = rstrip_slashes (st_storage_blob_endpoint (bs_settings st)) @ ''/'' @
         st_receipts_container (bs_settings st) @ ''/'' @ receipt_blob_name h u t @ ''?'' @
         sign \<lparr>sas_account_name = st_storage_account_name (bs_settings st),
               sas_container_name = st_receipts_container (bs_settings st),
               sas_blob_name = receipt_blob_name h u t, sas_key = key, sas_permission = ''w'',
               sas_start = t - timedelta_us (st_storage_clock_skew_seconds (bs_settings st)),
               sas_expiry = ut_expires_at tk, sas_protocol = ''https''\<rparr>)"
  using assms by (auto simp: upload_ticket_Inr blob_url_def quote_blob_name sas_request_for_def)

theorem ticket_is_for_one_blob_witness:
  "is_configured (new_store example_settings :: (datetime \<times> datetime) blob_store) \<and>
   (\<exists>key :: datetime \<times> datetime. ''https://acct.blob/receipts/'' @ receipt_blob_name 1 2 1000000 @ ''?sig'' =
      rstrip_slashes ''https://acct.blob/'' @ ''/'' @ ''receipts'' @ ''/'' @ receipt_blob_name 1 2 1000000 @ ''?'' @ ''sig'')"
  using ticket_is_for_one_blob[OF example_ticket] by (simp add: new_store_def example_settings_def)

text \<open>
  The refusals of the store.  An unconfigured store refuses without asking for a key; a timed-out or refused
  fetch is reported as such; every refusal leaves the store as it was, so the next request asks again.
  And of several callers that missed the cache together only the first asks: whoever takes the lock after a
  successful fetch gets the same key without a further fetch, as long as that key is usable.
\<close>

theorem ticket_refusals:
  "(\<not> is_configured st \<longrightarrow> upload_ticket sign fetch_key h u t ct st = (Inl NotConfigured, st)) \<and>
   (\<forall>e st'. upload_ticket sign fetch_key h u t ct st = (Inl e, st') \<longrightarrow> st' = st) \<and>
   (\<forall>key st' fetch2 t2. delegation_key_locked fetch_key t st = (Inr key, st') \<and> t2 < bs_key_usable_until st' \<longrightarrow>
      delegation_key_locked fetch2 t2 st' = (Inr key, st'))"
proof (intro conjI allI impI)
  show "upload_ticket sign fetch_key h u t ct st = (Inl NotConfigured, st)" if "\<not> is_configured st"
    using that by (simp add: upload_ticket_def require_configured_def)
  show "st' = st" if "upload_ticket sign fetch_key h u t ct st = (Inl e, st')" for e st'
    using that delegation_key_error[of fetch_key t st]
    by (auto simp: upload_ticket_def require_configured_def Let_def split: sum.splits prod.splits if_splits)
  show "delegation_key_locked fetch2 t2 st' = (Inr key, st')"
    if "delegation_key_locked fetch_key t st = (Inr key, st') \<and> t2 < bs_key_usable_until st'" for key st' fetch2 t2
  proof -
    have "bs_key st' = Some key"
      using that by (auto simp: delegation_key_locked_def cached_key_def Let_def split: option.splits fetched.splits if_splits)
    then show ?thesis
      using that by (simp add: delegation_key_locked_def cached_key_def)
  qed
qed

theorem ticket_refusals_witness:
  "upload_ticket (\<lambda>_. []) example_fetch 1 2 0 PNG (new_store (example_settings\<lparr>st_storage_account_name := []\<rparr>)) =
     (Inl NotConfigured, new_store (example_settings\<lparr>st_storage_account_name := []\<rparr>))"
  using ticket_refusals[of "new_store (example_settings\<lparr>st_storage_account_name := []\<rparr>)" "\<lambda>_. []" example_fetch 1 2 0 PNG]
  by (simp add: is_configured_def new_store_def)

end
