(* ===== verification/Api_Schemas.thy ===== *)
theory Api_Schemas
  imports Repo_Snapshots Repo_Uploads Storage_Receipts Db_Provider
begin

section \<open>Request and response models\<close>

text \<open>
  The model of \<^verbatim>\<open>src/kitchensense/api/schemas.py\<close>.  A request body is a JSON document.  How pydantic reads a scalar
  from JSON is the argument \<open>pydantic\<close>: \<open>None\<close> where a value is rejected, \<open>pd_strip\<close> for \<^verbatim>\<open>str_strip_whitespace\<close>
  and \<open>pd_keys\<close> for what it does to the keys of a \<^verbatim>\<open>dict[str, Any]\<close>.  The fields, their bounds, the refusal of
  unknown fields and the two validators are the module's own and are written out; a refused body is \<open>None\<close>, the 422.

  The lemmas relate the validation to the constraints of the table the event is stored in.
\<close>

record pydantic =
  pd_uuid :: "json \<Rightarrow> uuid option"
  pd_decimal :: "json \<Rightarrow> rat option"
  pd_aware_datetime :: "json \<Rightarrow> datetime option"
  pd_date :: "json \<Rightarrow> date option"
  pd_float :: "json \<Rightarrow> rat option"
  pd_strip :: "string \<Rightarrow> string"
  pd_keys :: "metadata \<Rightarrow> metadata"

subsection \<open>Fields\<close>

definition known_fields :: "string list \<Rightarrow> metadata \<Rightarrow> bool" where
  "known_fields names body \<longleftrightarrow> fset (fmdom body) \<subseteq> set names"

definition required :: "metadata \<Rightarrow> string \<Rightarrow> (json \<Rightarrow> 'a option) \<Rightarrow> 'a option" where
  "required body name parse = Option.bind (fmlookup body name) parse"

definition defaulted :: "metadata \<Rightarrow> string \<Rightarrow> 'a \<Rightarrow> (json \<Rightarrow> 'a option) \<Rightarrow> 'a option" where
  "defaulted body name fallback parse =
     (case fmlookup body name of None \<Rightarrow> Some fallback | Some v \<Rightarrow> parse v)"

fun nullable :: "(json \<Rightarrow> 'a option) \<Rightarrow> json \<Rightarrow> 'a option option" where
  "nullable parse JNull = Some None"
| "nullable parse v = map_option Some (parse v)"

fun str_field :: "pydantic \<Rightarrow> nat \<Rightarrow> nat \<Rightarrow> json \<Rightarrow> string option" where
  "str_field pd min_length max_length (JStr s) =
     (let t = pd_strip pd s in if min_length \<le> length t \<and> length t \<le> max_length then Some t else None)"
| "str_field pd min_length max_length _ = None"

fun enum_field :: "('a \<Rightarrow> string) \<Rightarrow> 'a list \<Rightarrow> json \<Rightarrow> 'a option" where
  "enum_field value members (JStr s) = find (\<lambda>m. value m = s) members"
| "enum_field value members _ = None"

text \<open>
  \<^verbatim>\<open>max_digits\<close> and \<^verbatim>\<open>decimal_places\<close> together: at most that many decimal places, and at most the rest of the digits
  before the point.  A quantity is kept in thousandths.
\<close>

definition decimal_fits :: "nat \<Rightarrow> nat \<Rightarrow> rat \<Rightarrow> bool" where
  "decimal_fits max_digits places q \<longleftrightarrow>
     of_int \<lfloor>q * 10 ^ places\<rfloor> = q * 10 ^ places \<and> \<bar>q\<bar> < 10 ^ (max_digits - places)"

definition quantity_field :: "pydantic \<Rightarrow> json \<Rightarrow> quantity option" where
  "quantity_field pd v =
     Option.bind (pd_decimal pd v) (\<lambda>q. if decimal_fits 14 3 q then Some \<lfloor>q * 1000\<rfloor> else None)"

definition confidence_field :: "pydantic \<Rightarrow> json \<Rightarrow> rat option" where
  "confidence_field pd v = Option.bind (pd_float pd v) (\<lambda>c. if 0 \<le> c \<and> c \<le> 1 then Some c else None)"

fun dict_field :: "pydantic \<Rightarrow> json \<Rightarrow> metadata option" where
  "dict_field pd (JObject m) = Some (pd_keys pd m)"
| "dict_field pd _ = None"

subsection \<open>Appending an event\<close>

record event_create =
  ic_canonical_product_id :: uuid
  ic_event_type :: event_type
  ic_quantity_delta :: quantity
  ic_unit :: string
  ic_storage_location :: storage_location
  ic_occurred_at :: datetime
  ic_source :: string
  ic_idempotency_key :: string
  ic_printed_date :: "date option"
  ic_date_label_type :: "date_label_type option"
  ic_confidence :: rat
  ic_metadata :: metadata

definition EVENT_CREATE_FIELDS :: "string list" where
  "EVENT_CREATE_FIELDS =
     [''canonical_product_id'', ''event_type'', ''quantity_delta'', ''unit'', ''storage_location'', ''occurred_at'',
      ''source'', ''idempotency_key'', ''printed_date'', ''date_label_type'', ''confidence'', ''metadata'']"

definition event_create_fields :: "pydantic \<Rightarrow> metadata \<Rightarrow> event_create option" where
  "event_create_fields pd body =
     Option.bind (required body ''canonical_product_id'' (pd_uuid pd)) (\<lambda>canonical_product_id.
     Option.bind (required body ''event_type''
       (enum_field event_type_value [PURCHASED, OPENED, CONSUMED, DISCARDED, CORRECTED, MOVED])) (\<lambda>event_type.
     Option.bind (required body ''quantity_delta'' (quantity_field pd)) (\<lambda>quantity_delta.
     Option.bind (required body ''unit'' (str_field pd 1 24)) (\<lambda>unit.
     Option.bind (required body ''storage_location''
       (enum_field storage_location_value [PANTRY, FRIDGE, FREEZER, COUNTER, OTHER])) (\<lambda>storage_location.
     Option.bind (required body ''occurred_at'' (pd_aware_datetime pd)) (\<lambda>occurred_at.
     Option.bind (required body ''source'' (str_field pd 1 64)) (\<lambda>source.
     Option.bind (required body ''idempotency_key'' (str_field pd 1 200)) (\<lambda>idempotency_key.
     Option.bind (defaulted body ''printed_date'' None (nullable (pd_date pd))) (\<lambda>printed_date.
     Option.bind (defaulted body ''date_label_type'' None
       (nullable (enum_field date_label_value [USE_BY, BEST_BEFORE]))) (\<lambda>date_label_type.
     Option.bind (defaulted body ''confidence'' 1 (confidence_field pd)) (\<lambda>confidence.
     Option.bind (defaulted body ''metadata'' fmempty (dict_field pd)) (\<lambda>metadata.
     Some \<lparr>ic_canonical_product_id = canonical_product_id, ic_event_type = event_type,
           ic_quantity_delta = quantity_delta, ic_unit = unit, ic_storage_location = storage_location,
           ic_occurred_at = occurred_at, ic_source = source, ic_idempotency_key = idempotency_key,
           ic_printed_date = printed_date, ic_date_label_type = date_label_type, ic_confidence = confidence,
           ic_metadata = metadata\<rparr>))))))))))))"

definition check_label_has_a_date :: "event_create \<Rightarrow> bool" where
  "check_label_has_a_date p \<longleftrightarrow> \<not> (ic_date_label_type p \<noteq> None \<and> ic_printed_date p = None)"

definition check_delta_matches_event_type :: "event_create \<Rightarrow> bool" where
  "check_delta_matches_event_type p \<longleftrightarrow>
     \<not> (ic_event_type p = PURCHASED \<and> ic_quantity_delta p < 0) \<and>
     \<not> (ic_event_type p \<in> {CONSUMED, DISCARDED} \<and> ic_quantity_delta p > 0)"

fun inventory_event_create :: "pydantic \<Rightarrow> json \<Rightarrow> event_create option" where
  "inventory_event_create pd (JObject body) =
     (if \<not> known_fields EVENT_CREATE_FIELDS body then None
      else Option.bind (event_create_fields pd body) (\<lambda>p.
        if check_label_has_a_date p \<and> check_delta_matches_event_type p then Some p else None))"
| "inventory_event_create pd _ = None"

definition create_to_domain :: "event_create \<Rightarrow> new_inventory_event" where
  "create_to_domain p =
     \<lparr>ne_canonical_product_id = ic_canonical_product_id p, ne_event_type = ic_event_type p,
      ne_quantity_delta = ic_quantity_delta p, ne_unit = ic_unit p, ne_storage_location = ic_storage_location p,
      ne_occurred_at = ic_occurred_at p, ne_source = ic_source p, ne_idempotency_key = ic_idempotency_key p,
      ne_printed_date = ic_printed_date p, ne_date_label_type = ic_date_label_type p,
      ne_confidence = ic_confidence p, ne_recorded_at = None, ne_metadata = ic_metadata p\<rparr>"

subsection \<open>Responses\<close>

record event_response =
  re_id :: uuid
  re_household_id :: uuid
  re_canonical_product_id :: uuid
  re_event_type :: event_type
  re_quantity_delta :: quantity
  re_unit :: string
  re_storage_location :: storage_location
  re_printed_date :: "date option"
  re_date_label_type :: "date_label_type option"
  re_occurred_at :: datetime
  re_recorded_at :: datetime
  re_source :: string
  re_confidence :: rat
  re_idempotency_key :: string
  re_metadata :: metadata

definition event_response_from_domain :: "pydantic \<Rightarrow> inventory_event \<Rightarrow> event_response" where
  "event_response_from_domain pd e =
     \<lparr>re_id = ev_id e, re_household_id = ev_household_id e, re_canonical_product_id = ev_canonical_product_id e,
      re_event_type = ev_event_type e, re_quantity_delta = ev_quantity_delta e, re_unit = pd_strip pd (ev_unit e),
      re_storage_location = ev_storage_location e, re_printed_date = ev_printed_date e,
      re_date_label_type = ev_date_label_type e, re_occurred_at = ev_occurred_at e,
      re_recorded_at = ev_recorded_at e, re_source = pd_strip pd (ev_source e), re_confidence = ev_confidence e,
      re_idempotency_key = pd_strip pd (ev_idempotency_key e), re_metadata = pd_keys pd (ev_metadata e)\<rparr>"

record lot_response =
  rl_canonical_product_id :: uuid
  rl_storage_location :: storage_location
  rl_unit :: string
  rl_printed_date :: "date option"
  rl_date_label_type :: "date_label_type option"
  rl_quantity :: quantity
  rl_purchased_quantity :: quantity
  rl_consumed_quantity :: quantity
  rl_discarded_quantity :: quantity
  rl_event_count :: int
  rl_first_occurred_at :: datetime
  rl_last_occurred_at :: datetime
  rl_last_recorded_at :: datetime
  rl_opened_at :: "datetime option"
  rl_is_opened :: bool
  rl_is_depleted :: bool

definition lot_response_from_domain :: "pydantic \<Rightarrow> lot_state \<Rightarrow> lot_response" where
  "lot_response_from_domain pd l =
     \<lparr>rl_canonical_product_id = lk_canonical_product_id (ls_key l),
      rl_storage_location = lk_storage_location (ls_key l),
      rl_unit = pd_strip pd (lk_unit (ls_key l)),
      rl_printed_date = lk_printed_date (ls_key l),
      rl_date_label_type = lk_date_label_type (ls_key l),
      rl_quantity = ls_quantity l,
      rl_purchased_quantity = ls_purchased_quantity l,
      rl_consumed_quantity = ls_consumed_quantity l,
      rl_discarded_quantity = ls_discarded_quantity l,
      rl_event_count = ls_event_count l,
      rl_first_occurred_at = ls_first_occurred_at l,
      rl_last_occurred_at = ls_last_occurred_at l,
      rl_last_recorded_at = ls_last_recorded_at l,
      rl_opened_at = ls_opened_at l,
      rl_is_opened = is_opened l,
      rl_is_depleted = is_depleted l\<rparr>"

record snapshot_response =
  rs_household_id :: uuid
  rs_as_of :: datetime
  rs_lot_count :: nat
  rs_lots :: "lot_response list"

definition snapshot_response_from_domain :: "pydantic \<Rightarrow> inventory_snapshot \<Rightarrow> snapshot_response" where
  "snapshot_response_from_domain pd s =
     \<lparr>rs_household_id = sn_household_id s, rs_as_of = sn_as_of s, rs_lot_count = length (sn_lots s),
      rs_lots = map (lot_response_from_domain pd) (sn_lots s)\<rparr>"

subsection \<open>Uploads\<close>

fun upload_request :: "json \<Rightarrow> receipt_content_type option" where
  "upload_request (JObject body) =
     (if \<not> known_fields [''content_type''] body then None
      else defaulted body ''content_type'' JPEG (enum_field content_type_value [JPEG, PNG, HEIC, WEBP, PDF]))"
| "upload_request _ = None"

record ticket_response =
  rt_upload_id :: uuid
  rt_household_id :: uuid
  rt_blob_name :: string
  rt_content_type :: receipt_content_type
  rt_upload_url :: string
  rt_method :: string
  rt_headers :: "(string \<times> string) list"
  rt_expires_at :: datetime

record upload_confirmation =
  rc_upload_id :: uuid
  rc_household_id :: uuid
  rc_blob_name :: string
  rc_content_type :: string
  rc_requested_at :: datetime
  rc_expires_at :: datetime
  rc_confirmed_at :: datetime

text \<open>\<open>None\<close> is the defensive \<^verbatim>\<open>ValueError\<close>.\<close>

definition confirmation_from_domain :: "pydantic \<Rightarrow> receipt_upload \<Rightarrow> upload_confirmation option" where
  "confirmation_from_domain pd u =
     (case ru_confirmed_at u of
        None \<Rightarrow> None
      | Some t \<Rightarrow> Some
          \<lparr>rc_upload_id = ru_id u, rc_household_id = ru_household_id u, rc_blob_name = pd_strip pd (ru_blob_name u),
           rc_content_type = pd_strip pd (ru_content_type u), rc_requested_at = ru_requested_at u,
           rc_expires_at = ru_expires_at u, rc_confirmed_at = t\<rparr>)"

subsection \<open>Health\<close>

fun reachability_value :: "reachability \<Rightarrow> string" where
  "reachability_value Reachable = ''reachable''"
| "reachability_value Unreachable = ''unreachable''"
| "reachability_value NotConfigured = ''not_configured''"

fun source_value :: "url_source \<Rightarrow> string" where
  "source_value Environment = ''environment''"
| "source_value KeyVault = ''key_vault''"
| "source_value Unresolved = ''unresolved''"

record deep_health =
  rd_status :: string
  rd_database :: string
  rd_database_url_source :: string
  rd_detail :: "string option"

definition deep_health_from_status :: "pydantic \<Rightarrow> database_status \<Rightarrow> deep_health" where
  "deep_health_from_status pd s =
     \<lparr>rd_status = pd_strip pd ''ok'', rd_database = pd_strip pd (reachability_value (ds_reachability s)),
      rd_database_url_source = pd_strip pd (source_value (ds_source s)),
      rd_detail = map_option (pd_strip pd) (ds_detail s)\<rparr>"

subsection \<open>Validated payloads\<close>

lemma str_field_SomeD:
  assumes "str_field pd lo hi v = Some t"
  shows "lo \<le> length t \<and> length t \<le> hi \<and> t \<in> range (pd_strip pd)"
  using assms by (cases v) (auto simp: Let_def split: if_splits)

lemma quantity_field_fits: "quantity_field pd v = Some q \<Longrightarrow> fits_numeric_14_3 q"
proof -
  assume "quantity_field pd v = Some q"
  then obtain d :: rat where "of_int q = d * 1000" "\<bar>d\<bar> < 10 ^ 11"
    by (auto simp: quantity_field_def bind_eq_Some_conv decimal_fits_def split: if_splits)
  then have "\<bar>of_int q\<bar> < (10 ^ 14 :: rat)"
    by (simp add: abs_mult)
  then show ?thesis
    unfolding fits_numeric_14_3_def by (metis of_int_abs of_int_less_iff of_int_numeral of_int_power)
qed

lemma event_create_SomeE:
  assumes "inventory_event_create pd body = Some p"
  obtains doc where "body = JObject doc" "known_fields EVENT_CREATE_FIELDS doc"
    "fits_numeric_14_3 (ic_quantity_delta p)"
    "str_field pd 1 24 (the (fmlookup doc ''unit'')) = Some (ic_unit p)"
    "str_field pd 1 64 (the (fmlookup doc ''source'')) = Some (ic_source p)"
    "str_field pd 1 200 (the (fmlookup doc ''idempotency_key'')) = Some (ic_idempotency_key p)"
    "0 \<le> ic_confidence p" "ic_confidence p \<le> 1"
    "check_label_has_a_date p" "check_delta_matches_event_type p"
proof -
  obtain doc where doc: "body = JObject doc" "known_fields EVENT_CREATE_FIELDS doc"
      "event_create_fields pd doc = Some p" "check_label_has_a_date p" "check_delta_matches_event_type p"
    using assms by (cases body) (auto simp: bind_eq_Some_conv split: if_splits)
  have conf: "0 \<le> c \<and> c \<le> 1" if "defaulted doc ''confidence'' 1 (confidence_field pd) = Some c" for c
    using that by (auto simp: defaulted_def confidence_field_def bind_eq_Some_conv split: option.splits if_splits)
  from doc(3) show thesis
    by (intro that[OF doc(1,2)])
      (auto simp: event_create_fields_def required_def bind_eq_Some_conv doc(4,5) quantity_field_fits dest: conf)
qed

text \<open>What is relied on of \<^verbatim>\<open>str_strip_whitespace\<close>: what it leaves does not begin with a space.\<close>

definition strips_spaces :: "pydantic \<Rightarrow> bool" where
  "strips_spaces pd \<longleftrightarrow> (\<forall>s. pd_strip pd s = [] \<or> hd (pd_strip pd s) \<noteq> CHR '' '')"

lemma not_blank_hd: "s \<noteq> [] \<Longrightarrow> hd s \<noteq> CHR '' '' \<Longrightarrow> not_blank s"
  by (cases s) (auto simp: not_blank_def btrim_def)

lemma hd_strip: "strip s = [] \<or> \<not> is_space (hd (strip s))"
proof -
  have "rev (takeWhile is_space (rev (lstrip s)) @ lstrip (rev (lstrip s))) = lstrip s"
    by (simp add: lstrip_def)
  then have "strip s @ rev (takeWhile is_space (rev (lstrip s))) = lstrip s"
    by (simp add: strip_def)
  with hd_lstrip[of s] show ?thesis
    by (metis append_is_Nil_conv hd_append2)
qed

lemma space_is_space: "is_space CHR '' ''"
  by code_simp

lemma normalized_not_blank: "normalize_unit u \<noteq> [] \<Longrightarrow> not_blank (normalize_unit u)"
proof -
  assume u: "normalize_unit u \<noteq> []"
  have "\<not> is_space (hd (strip (lower u)))"
    using hd_strip[of "lower u"] u by (auto simp: normalize_unit_def strip_lower)
  then have "hd (normalize_unit u) \<noteq> CHR '' ''"
    using space_is_space by (auto simp: normalize_unit_def strip_lower)
  with u show ?thesis
    by (rule not_blank_hd)
qed

lemma lower_nul: "CHR 0x00 \<in> set (lower s) \<longleftrightarrow> CHR 0x00 \<in> set s"
proof -
  have "lower_char c = CHR 0x00 \<longleftrightarrow> c = CHR 0x00" for c
  proof
    assume "lower_char c = CHR 0x00"
    then have "code_point (lower_char c) = 0"
      by (simp add: code_point_def)
    then have "code_point c = 0"
      by (auto simp: code_point_lower_char Let_def split: if_splits)
    then have "of_char c = (of_char CHR 0x00 :: int)"
      by (simp add: code_point_def)
    then show "c = CHR 0x00"
      by (simp only: of_char_eq_iff)
  qed (simp add: lower_char_def code_point_def)
  then have "CHR 0x00 = lower_char c \<longleftrightarrow> c = CHR 0x00" for c
    by metis
  then show ?thesis
    by (simp add: lower_def image_iff)
qed

subsection \<open>Properties\<close>

definition nul_free :: "event_create \<Rightarrow> bool" where
  "nul_free p \<longleftrightarrow> CHR 0x00 \<notin> set (ic_unit p @ ic_source p @ ic_idempotency_key p) \<and> json_storable (JObject (ic_metadata p))"

lemma normalize_unit_bounds:
  "length (normalize_unit u) \<le> length u" "CHR 0x00 \<notin> set u \<Longrightarrow> CHR 0x00 \<notin> set (normalize_unit u)"
  using set_strip[of u] length_strip[of u] lower_nul[of "strip u"] by (auto simp: normalize_unit_def lower_def)


definition example_pydantic :: pydantic where
  "example_pydantic =
     \<lparr>pd_uuid = (\<lambda>v. Some 3), pd_decimal = (\<lambda>v. case v of JNum q \<Rightarrow> Some q | _ \<Rightarrow> None),
      pd_aware_datetime = (\<lambda>v. Some 10), pd_date = (\<lambda>v. None), pd_float = (\<lambda>v. None), pd_strip = strip,
      pd_keys = (\<lambda>m. m)\<rparr>"

definition example_body :: "string \<Rightarrow> json" where
  "example_body unit = JObject (fmap_of_list
     [(''canonical_product_id'', JStr ''milk''), (''event_type'', JStr ''purchased''), (''quantity_delta'', JNum 2),
      (''unit'', JStr unit), (''storage_location'', JStr ''fridge''), (''occurred_at'', JStr ''2026-03-05T18:30:00Z''),
      (''source'', JStr ''user_manual''), (''idempotency_key'', JStr ''till-1'')])"

definition example_create :: "string \<Rightarrow> event_create" where
  "example_create unit =
     \<lparr>ic_canonical_product_id = 3, ic_event_type = PURCHASED, ic_quantity_delta = 2000, ic_unit = unit,
      ic_storage_location = FRIDGE, ic_occurred_at = 10, ic_source = ''user_manual'', ic_idempotency_key = ''till-1'',
      ic_printed_date = None, ic_date_label_type = None, ic_confidence = 1, ic_metadata = fmempty\<rparr>"

lemma example_strips: "strips_spaces example_pydantic"
  unfolding strips_spaces_def example_pydantic_def pydantic.simps by (metis hd_strip space_is_space)

lemma example_validated: "inventory_event_create example_pydantic (example_body ''L'') = Some (example_create ''L'')"
  by code_simp


text \<open>
  The exception.  A NUL character in a text field passes validation and reaches the database, which refuses
  the value itself with a plain \<open>DBAPIError\<close> -- not one of the errors the handler answers.
\<close>

theorem nul_passes_validation:
  "inventory_event_create example_pydantic (example_body [CHR ''l'', CHR 0x00]) = Some (example_create [CHR ''l'', CHR 0x00]) \<and>
   append_if_new 1 12 example_household (create_to_domain (example_create [CHR ''l'', CHR 0x00])) example_db =
     Inl (DbError DBAPIError)"
  by code_simp

text \<open>
  System time is the server's.  A body that carries any field besides the twelve -- \<^verbatim>\<open>recorded_at\<close> and
  \<^verbatim>\<open>household_id\<close> among them -- is refused, and the event made of an accepted one leaves \<^verbatim>\<open>recorded_at\<close> to the
  server: the row it is stored as carries the transaction's clock.
\<close>

theorem system_time_is_the_servers:
  "(\<forall>name v. name \<notin> set EVENT_CREATE_FIELDS \<longrightarrow> inventory_event_create pd (JObject (fmupd name v doc)) = None) \<and>
   ''recorded_at'' \<notin> set EVENT_CREATE_FIELDS \<and> ''household_id'' \<notin> set EVENT_CREATE_FIELDS \<and>
   er_recorded_at (row_of_values i now (to_values h (create_to_domain p))) = now \<and>
   er_household_id (row_of_values i now (to_values h (create_to_domain p))) = h"
proof (intro conjI)
  show "\<forall>name v. name \<notin> set EVENT_CREATE_FIELDS \<longrightarrow> inventory_event_create pd (JObject (fmupd name v doc)) = None"
    by (simp add: known_fields_def)
  show "''recorded_at'' \<notin> set EVENT_CREATE_FIELDS" "''household_id'' \<notin> set EVENT_CREATE_FIELDS"
    by (simp_all add: EVENT_CREATE_FIELDS_def)
qed (simp_all add: row_of_values_def to_values_def create_to_domain_def)

theorem system_time_is_the_servers_witness:
  "inventory_event_create example_pydantic (JObject (fmupd ''recorded_at'' (JNum 0) fmempty)) = None"
  using system_time_is_the_servers[of example_pydantic fmempty] by blast

end
