(* ===== verification/Auth_Tokens.thy ===== *)
theory Auth_Tokens
  imports Settings Domain_Household
begin

section \<open>Validating access tokens\<close>

text \<open>
  The model of \<^verbatim>\<open>src/kitchensense/auth/\<close>: the errors, the cached key source, the principal and the verifier.
  What the code calls outside the repository are arguments: \<open>get_json\<close> is the HTTP client reading a JSON document
  (\<open>None\<close> when that fails in any way), \<open>jwk_of\<close> is \<^verbatim>\<open>PyJWK.from_dict\<close>, \<open>header_of\<close> is
  \<^verbatim>\<open>jwt.get_unverified_header\<close>, \<open>decode\<close> is \<^verbatim>\<open>jwt.decode\<close>, a function of the token, the key and all its keyword arguments, each \<open>None\<close> where
  it raises.  What those arguments make \<^verbatim>\<open>jwt.decode\<close> check is written down as \<open>decodes_as_documented\<close>, the one thing relied on of it.
  \<open>str_of\<close> and \<open>repr_of\<close> print JSON values that are not strings, \<open>float_of\<close> is \<^verbatim>\<open>float(str)\<close>.  \<open>clock\<close> gives the successive
  readings of \<^verbatim>\<open>time.monotonic()\<close> within one call.  An operation that may fail after it changed the key
  source returns the result and the state.

  The lemmas show that a principal exists only when every check passed, that it always determines a
  household, that the key cache cannot be made to ask the tenant more often than its floor, and that it
  fails closed.
\<close>

datatype auth_error =
    MissingTokenError string
  | InvalidTokenError string
  | InsufficientScopeError string
  | AuthConfigurationError string
  | Crashed

fun error_code :: "auth_error \<Rightarrow> string" where
  "error_code (MissingTokenError _) = ''''"
| "error_code (InvalidTokenError _) = ''invalid_token''"
| "error_code (InsufficientScopeError _) = ''insufficient_scope''"
| "error_code _ = ''''"

fun error_description :: "auth_error \<Rightarrow> string" where
  "error_description (MissingTokenError d) = d"
| "error_description (InvalidTokenError d) = d"
| "error_description (InsufficientScopeError d) = d"
| "error_description (AuthConfigurationError d) = d"
| "error_description Crashed = ''''"

subsection \<open>JSON documents\<close>

type_synonym document = "(string, json) fmap"

fun truthy :: "json \<Rightarrow> bool" where
  "truthy JNull = False"
| "truthy (JBool b) = b"
| "truthy (JNum n) = (n \<noteq> 0)"
| "truthy (JStr s) = (s \<noteq> [])"
| "truthy (JArray xs) = (xs \<noteq> [])"
| "truthy (JObject m) = (m \<noteq> fmempty)"

fun json_str :: "(json \<Rightarrow> string) \<Rightarrow> json \<Rightarrow> string" where
  "json_str str_of (JStr s) = s"
| "json_str str_of v = str_of v"

text \<open>\<^verbatim>\<open>str(document.get(name) or "").strip()\<close>.\<close>

definition text_field :: "(json \<Rightarrow> string) \<Rightarrow> document \<Rightarrow> string \<Rightarrow> string" where
  "text_field str_of doc name =
     strip (case fmlookup doc name of
              None \<Rightarrow> []
            | Some v \<Rightarrow> if truthy v then json_str str_of v else [])"

text \<open>\<^verbatim>\<open>s.replace(old, new)\<close> for a non-empty \<^verbatim>\<open>old\<close>.\<close>

fun str_replace :: "string \<Rightarrow> string \<Rightarrow> string \<Rightarrow> string" where
  "str_replace old new [] = []"
| "str_replace old new (c # s) =
     (if old \<noteq> [] \<and> take (length old) (c # s) = old
      then new @ str_replace old new (drop (length old - 1) s)
      else c # str_replace old new s)"

subsection \<open>The key source\<close>

record openid_configuration =
  oc_issuer :: string
  oc_jwks_uri :: string

record 'k key_source =
  ks_discovery_url :: string
  ks_tenant_id :: string
  ks_cache_seconds :: seconds
  ks_min_refresh_seconds :: seconds
  ks_configuration :: "openid_configuration option"
  ks_keys :: "(json \<times> 'k) list"
  ks_keys_fetched_at :: seconds

definition new_key_source :: "settings \<Rightarrow> 'k key_source" where
  "new_key_source settings =
     \<lparr>ks_discovery_url = st_entra_openid_configuration_url settings,
      ks_tenant_id = st_entra_tenant_id settings,
      ks_cache_seconds = st_jwks_cache_seconds settings,
      ks_min_refresh_seconds = st_jwks_min_refresh_seconds settings,
      ks_configuration = None,
      ks_keys = [],
      ks_keys_fetched_at = 0\<rparr>"

definition read_json :: "(string \<Rightarrow> json option) \<Rightarrow> string \<Rightarrow> auth_error + document" where
  "read_json get_json url =
     (case get_json url of
        None \<Rightarrow> Inl (InvalidTokenError ''the token could not be validated against the identity provider'')
      | Some (JObject doc) \<Rightarrow> Inr doc
      | Some _ \<Rightarrow> Inl Crashed)"

definition fetch_configuration ::
  "(string \<Rightarrow> json option) \<Rightarrow> (json \<Rightarrow> string) \<Rightarrow> 'k key_source \<Rightarrow> auth_error + openid_configuration" where
  "fetch_configuration get_json str_of ks =
     bind_sum (read_json get_json (ks_discovery_url ks)) (\<lambda>document.
       let issuer = text_field str_of document ''issuer'';
           jwks_uri = text_field str_of document ''jwks_uri''
       in if issuer = [] \<or> jwks_uri = []
          then Inl (InvalidTokenError ''the tenant's OpenID configuration is missing an issuer or jwks_uri'')
          else Inr \<lparr>oc_issuer = str_replace ''{tenantid}'' (ks_tenant_id ks) issuer, oc_jwks_uri = jwks_uri\<rparr>)"

definition configuration ::
  "(string \<Rightarrow> json option) \<Rightarrow> (json \<Rightarrow> string) \<Rightarrow> 'k key_source
     \<Rightarrow> (auth_error + openid_configuration) \<times> 'k key_source" where
  "configuration get_json str_of ks =
     (case ks_configuration ks of
        Some c \<Rightarrow> (Inr c, ks)
      | None \<Rightarrow>
          (case fetch_configuration get_json str_of ks of
             Inl e \<Rightarrow> (Inl e, ks)
           | Inr c \<Rightarrow> (Inr c, ks\<lparr>ks_configuration := Some c\<rparr>)))"

text \<open>The entries the loop over \<^verbatim>\<open>document.get("keys", [])\<close> sees; anything that is not iterable as entries crashes.\<close>

fun jwks_entries :: "json option \<Rightarrow> auth_error + json list" where
  "jwks_entries None = Inr []"
| "jwks_entries (Some (JArray entries)) = Inr entries"
| "jwks_entries (Some (JStr s)) = (if s = [] then Inr [] else Inl Crashed)"
| "jwks_entries (Some (JObject m)) = (if m = fmempty then Inr [] else Inl Crashed)"
| "jwks_entries (Some _) = Inl Crashed"

fun hashable :: "json \<Rightarrow> bool" where
  "hashable (JArray _) = False"
| "hashable (JObject _) = False"
| "hashable _ = True"

fun collect_keys ::
  "(document \<Rightarrow> 'k option) \<Rightarrow> json list \<Rightarrow> (json \<times> 'k) list \<Rightarrow> auth_error + (json \<times> 'k) list" where
  "collect_keys jwk_of [] keys = Inr keys"
| "collect_keys jwk_of (JObject entry # entries) keys =
     (case fmlookup entry ''kid'' of
        None \<Rightarrow> collect_keys jwk_of entries keys
      | Some kid \<Rightarrow>
          if \<not> truthy kid then collect_keys jwk_of entries keys
          else (case jwk_of entry of
                  None \<Rightarrow> collect_keys jwk_of entries keys
                | Some key \<Rightarrow>
                    if \<not> hashable kid then collect_keys jwk_of entries keys
                    else collect_keys jwk_of entries (AList.update kid key keys)))"
| "collect_keys jwk_of (_ # entries) keys = Inl Crashed"

definition published_keys ::
  "(string \<Rightarrow> json option) \<Rightarrow> (document \<Rightarrow> 'k option) \<Rightarrow> string \<Rightarrow> auth_error + (json \<times> 'k) list" where
  "published_keys get_json jwk_of jwks_uri =
     bind_sum (read_json get_json jwks_uri) (\<lambda>document.
     bind_sum (jwks_entries (fmlookup document ''keys'')) (\<lambda>entries.
     bind_sum (collect_keys jwk_of entries []) (\<lambda>keys.
       if keys = [] then Inl (InvalidTokenError ''the tenant published no usable signing keys'')
       else Inr keys)))"

definition refresh_keys ::
  "(string \<Rightarrow> json option) \<Rightarrow> (json \<Rightarrow> string) \<Rightarrow> (document \<Rightarrow> 'k option) \<Rightarrow> seconds \<Rightarrow> 'k key_source
     \<Rightarrow> (auth_error + unit) \<times> 'k key_source" where
  "refresh_keys get_json str_of jwk_of now ks =
     (case configuration get_json str_of ks of
        (Inl e, ks') \<Rightarrow> (Inl e, ks')
      | (Inr c, ks') \<Rightarrow>
          (case published_keys get_json jwk_of (oc_jwks_uri c) of
             Inl e \<Rightarrow> (Inl e, ks')
           | Inr keys \<Rightarrow> (Inr (), ks'\<lparr>ks_keys := keys, ks_keys_fetched_at := now\<rparr>)))"

definition lookup_key :: "'k key_source \<Rightarrow> string \<Rightarrow> 'k option" where
  "lookup_key ks kid = map_of (ks_keys ks) (JStr kid)"

definition keys_expired :: "seconds \<Rightarrow> 'k key_source \<Rightarrow> bool" where
  "keys_expired now ks = (now - ks_keys_fetched_at ks \<ge> ks_cache_seconds ks)"

definition cached_signing_key ::
  "(string \<Rightarrow> json option) \<Rightarrow> (json \<Rightarrow> string) \<Rightarrow> (document \<Rightarrow> 'k option) \<Rightarrow> (nat \<Rightarrow> seconds) \<Rightarrow> string
     \<Rightarrow> 'k key_source \<Rightarrow> (auth_error + 'k option) \<times> 'k key_source" where
  "cached_signing_key get_json str_of jwk_of clock kid ks =
     (if ks_keys ks \<noteq> [] \<and> \<not> keys_expired (clock 0) ks then (Inr (lookup_key ks kid), ks)
      else if ks_keys ks = [] \<or> keys_expired (clock 1) ks
      then (case refresh_keys get_json str_of jwk_of (clock 2) ks of
              (Inl e, ks') \<Rightarrow> (Inl e, ks')
            | (Inr _, ks') \<Rightarrow> (Inr (lookup_key ks' kid), ks'))
      else (Inr (lookup_key ks kid), ks))"

text \<open>What \<^verbatim>\<open>signing_key\<close> does under the lock for a key id the cache did not have.\<close>

definition signing_key_locked ::
  "(string \<Rightarrow> json option) \<Rightarrow> (json \<Rightarrow> string) \<Rightarrow> (document \<Rightarrow> 'k option) \<Rightarrow> (nat \<Rightarrow> seconds) \<Rightarrow> string
     \<Rightarrow> 'k key_source \<Rightarrow> (auth_error + 'k) \<times> 'k key_source" where
  "signing_key_locked get_json str_of jwk_of clock kid ks =
     (case lookup_key ks kid of
        Some key \<Rightarrow> (Inr key, ks)
      | None \<Rightarrow>
          if clock 3 - ks_keys_fetched_at ks < ks_min_refresh_seconds ks
          then (Inl (InvalidTokenError ''the token was signed by an unknown key''), ks)
          else (case refresh_keys get_json str_of jwk_of (clock 4) ks of
                  (Inl e, ks') \<Rightarrow> (Inl e, ks')
                | (Inr _, ks') \<Rightarrow>
                    (case lookup_key ks' kid of
                       None \<Rightarrow> (Inl (InvalidTokenError ''the token was signed by an unknown key''), ks')
                     | Some key \<Rightarrow> (Inr key, ks'))))"

definition signing_key ::
  "(string \<Rightarrow> json option) \<Rightarrow> (json \<Rightarrow> string) \<Rightarrow> (document \<Rightarrow> 'k option) \<Rightarrow> (nat \<Rightarrow> seconds) \<Rightarrow> string
     \<Rightarrow> 'k key_source \<Rightarrow> (auth_error + 'k) \<times> 'k key_source" where
  "signing_key get_json str_of jwk_of clock kid ks =
     (if kid = [] then (Inl (InvalidTokenError ''the token header carries no key id''), ks)
      else case cached_signing_key get_json str_of jwk_of clock kid ks of
             (Inl e, ks') \<Rightarrow> (Inl e, ks')
           | (Inr (Some key), ks') \<Rightarrow> (Inr key, ks')
           | (Inr None, ks') \<Rightarrow> signing_key_locked get_json str_of jwk_of clock kid ks')"

subsection \<open>The principal\<close>

record principal =
  pc_subject :: string
  pc_issuer :: string
  pc_audience :: string
  pc_scopes :: "string set"
  pc_expires_at :: datetime
  pc_name :: "string option"
  pc_email :: "string option"

definition principal_household_id :: "principal \<Rightarrow> household_error + uuid" where
  "principal_household_id p = household_id_for (pc_issuer p) (pc_subject p)"

definition has_scope :: "principal \<Rightarrow> string \<Rightarrow> bool" where
  "has_scope p scope = (scope \<in> pc_scopes p)"

definition household_name :: "principal \<Rightarrow> string" where
  "household_name p =
     take 200 (case pc_name p of
                 Some n \<Rightarrow> n
               | None \<Rightarrow> (case pc_email p of Some e \<Rightarrow> e | None \<Rightarrow> ''Household '' @ pc_subject p))"

subsection \<open>The verifier\<close>

definition ALLOWED_ALGORITHMS :: "string list" where
  "ALLOWED_ALGORITHMS = [''RS256'']"

fun join_comma :: "string list \<Rightarrow> string" where
  "join_comma [] = []"
| "join_comma [x] = x"
| "join_comma (x # xs) = x @ '', '' @ join_comma xs"

definition missing_settings :: "settings \<Rightarrow> string list" where
  "missing_settings settings =
     map fst (filter (\<lambda>(name, value). value = [])
       [(''ENTRA_TENANT_ID'', st_entra_tenant_id settings),
        (''ENTRA_CLIENT_ID'', st_entra_client_id settings),
        (''ENTRA_AUDIENCE'', st_entra_audience settings)])"

definition verifier_require_configured :: "settings \<Rightarrow> auth_error + unit" where
  "verifier_require_configured settings =
     (if missing_settings settings \<noteq> []
      then Inl (AuthConfigurationError
             (''authentication is not configured: '' @ join_comma (missing_settings settings) @ '' unset''))
      else Inr ())"

text \<open>\<^verbatim>\<open>s.split(" ")\<close>.\<close>

fun split_spaces :: "string \<Rightarrow> string list" where
  "split_spaces [] = [[]]"
| "split_spaces (c # s) =
     (if c = CHR '' '' then [] # split_spaces s
      else case split_spaces s of [] \<Rightarrow> [[c]] | w # ws \<Rightarrow> (c # w) # ws)"

definition scopes :: "(json \<Rightarrow> string) \<Rightarrow> document \<Rightarrow> string set" where
  "scopes str_of claims =
     (case fmlookup claims ''scp'' of
        Some (JStr raw) \<Rightarrow> set (filter (\<lambda>part. part \<noteq> []) (split_spaces raw))
      | Some (JArray raw) \<Rightarrow> set (map (json_str str_of) (filter truthy raw))
      | _ \<Rightarrow> {})"

fun optional_text :: "json option \<Rightarrow> string option" where
  "optional_text (Some (JStr s)) = (let stripped = strip s in if stripped = [] then None else Some stripped)"
| "optional_text _ = None"

definition email_claim :: "document \<Rightarrow> json option" where
  "email_claim claims =
     (case fmlookup claims ''preferred_username'' of
        Some v \<Rightarrow> if truthy v then Some v else fmlookup claims ''email''
      | None \<Rightarrow> fmlookup claims ''email'')"

text \<open>\<^verbatim>\<open>datetime.fromtimestamp(float(exp), tz = UTC)\<close>; it raises outside the years 1 to 9999.\<close>

definition from_timestamp :: "seconds \<Rightarrow> datetime option" where
  "from_timestamp s =
     (let t = 62135596800000000 + timedelta_us s
      in if 0 \<le> t \<and> t < 3652059 * us_per_day then Some t else None)"

text \<open>\<^verbatim>\<open>float(value)\<close>; it raises for what is neither a number nor a string that reads as one.\<close>

fun json_float :: "(string \<Rightarrow> seconds option) \<Rightarrow> json \<Rightarrow> seconds option" where
  "json_float float_of (JNum n) = Some n"
| "json_float float_of (JBool b) = Some (of_bool b)"
| "json_float float_of (JStr s) = float_of s"
| "json_float float_of _ = None"

definition to_principal ::
  "(json \<Rightarrow> string) \<Rightarrow> (string \<Rightarrow> seconds option) \<Rightarrow> settings \<Rightarrow> document \<Rightarrow> auth_error + principal" where
  "to_principal str_of float_of settings claims =
     (let subject = text_field str_of claims ''sub'';
          issuer = text_field str_of claims ''iss''
      in if subject = [] \<or> issuer = [] then Inl (InvalidTokenError ''the token has no subject'')
         else case Option.bind (Option.bind (fmlookup claims ''exp'') (json_float float_of)) from_timestamp of
                None \<Rightarrow> Inl Crashed
              | Some expires_at \<Rightarrow>
                  Inr \<lparr>pc_subject = subject, pc_issuer = issuer, pc_audience = st_entra_audience settings,
                       pc_scopes = scopes str_of claims, pc_expires_at = expires_at,
                       pc_name = optional_text (fmlookup claims ''name''),
                       pc_email = optional_text (email_claim claims)\<rparr>)"

definition require_scope :: "(json \<Rightarrow> string) \<Rightarrow> settings \<Rightarrow> principal \<Rightarrow> auth_error + unit" where
  "require_scope repr_of settings p =
     (if \<not> has_scope p (st_required_scope settings)
      then Inl (InsufficientScopeError
             (''the token does not carry the '' @ repr_of (JStr (st_required_scope settings)) @ '' scope''))
      else Inr ())"

record 'k verifier =
  vf_settings :: settings
  vf_keys :: "'k key_source"

definition new_verifier :: "settings \<Rightarrow> 'k verifier" where
  "new_verifier settings = \<lparr>vf_settings = settings, vf_keys = new_key_source settings\<rparr>"

definition REQUIRED_CLAIMS :: "string list" where
  "REQUIRED_CLAIMS = [''exp'', ''nbf'', ''iss'', ''aud'', ''sub'']"

text \<open>The keyword arguments of \<^verbatim>\<open>jwt.decode\<close>, and those the verifier gives.\<close>

record decode_options =
  do_require :: "string list"
  do_verify_signature :: bool
  do_verify_exp :: bool
  do_verify_nbf :: bool
  do_verify_iat :: bool
  do_verify_aud :: bool
  do_verify_iss :: bool

record decode_call =
  dc_algorithms :: "string list"
  dc_audience :: string
  dc_issuer :: string
  dc_leeway :: seconds
  dc_options :: decode_options

definition verify_options :: decode_options where
  "verify_options =
     \<lparr>do_require = REQUIRED_CLAIMS, do_verify_signature = True, do_verify_exp = True, do_verify_nbf = True,
      do_verify_iat = False, do_verify_aud = True, do_verify_iss = True\<rparr>"

definition verify_call :: "settings \<Rightarrow> string \<Rightarrow> decode_call" where
  "verify_call settings issuer =
     \<lparr>dc_algorithms = ALLOWED_ALGORITHMS, dc_audience = st_entra_audience settings, dc_issuer = issuer,
      dc_leeway = st_token_leeway_seconds settings, dc_options = verify_options\<rparr>"

text \<open>The code \<^verbatim>\<open>verify\<close> calls: the JWT library, the HTTP client, and the printing and reading of values.\<close>

record 'k jwt_library =
  jl_header_of :: "string \<Rightarrow> document option"
  jl_decode :: "string \<Rightarrow> 'k \<Rightarrow> decode_call \<Rightarrow> document option"
  jl_jwk_of :: "document \<Rightarrow> 'k option"
  jl_get_json :: "string \<Rightarrow> json option"
  jl_str_of :: "json \<Rightarrow> string"
  jl_repr_of :: "json \<Rightarrow> string"
  jl_float_of :: "string \<Rightarrow> seconds option"

definition kid_of :: "document \<Rightarrow> auth_error + string" where
  "kid_of header =
     (case fmlookup header ''kid'' of
        None \<Rightarrow> Inr []
      | Some (JStr kid) \<Rightarrow> Inr kid
      | Some _ \<Rightarrow> Inl Crashed)"

definition algorithm_of :: "document \<Rightarrow> json" where
  "algorithm_of header = (case fmlookup header ''alg'' of None \<Rightarrow> JNull | Some a \<Rightarrow> a)"

text \<open>The checks before any key is asked for: the id of the key the token names.\<close>

definition check_header :: "'k jwt_library \<Rightarrow> settings \<Rightarrow> string \<Rightarrow> auth_error + string" where
  "check_header lib settings token =
     bind_sum (verifier_require_configured settings) (\<lambda>_.
       if token = [] \<or> strip token = [] then Inl (InvalidTokenError ''no token was presented'')
       else case jl_header_of lib token of
              None \<Rightarrow> Inl (InvalidTokenError ''the token is not a well-formed JWT'')
            | Some header \<Rightarrow>
                if algorithm_of header \<notin> set (map JStr ALLOWED_ALGORITHMS)
                then Inl (InvalidTokenError
                       (''unsupported signing algorithm '' @ jl_repr_of lib (algorithm_of header)))
                else kid_of header)"

text \<open>The checks once key and issuer are known.\<close>

definition check_claims :: "'k jwt_library \<Rightarrow> settings \<Rightarrow> string \<Rightarrow> 'k \<Rightarrow> string \<Rightarrow> auth_error + principal" where
  "check_claims lib settings token key issuer =
     (case jl_decode lib token key (verify_call settings issuer) of
        None \<Rightarrow> Inl (InvalidTokenError ''the token is not valid'')
      | Some claims \<Rightarrow>
          bind_sum (to_principal (jl_str_of lib) (jl_float_of lib) settings claims) (\<lambda>p.
          bind_sum (require_scope (jl_repr_of lib) settings p) (\<lambda>_. Inr p)))"

definition verify ::
  "'k jwt_library \<Rightarrow> (nat \<Rightarrow> seconds) \<Rightarrow> string \<Rightarrow> 'k verifier \<Rightarrow> (auth_error + principal) \<times> 'k verifier" where
  "verify lib clock token v =
     (case check_header lib (vf_settings v) token of
        Inl e \<Rightarrow> (Inl e, v)
      | Inr kid \<Rightarrow>
          (case signing_key (jl_get_json lib) (jl_str_of lib) (jl_jwk_of lib) clock kid (vf_keys v) of
             (Inl e, ks) \<Rightarrow> (Inl e, v\<lparr>vf_keys := ks\<rparr>)
           | (Inr key, ks) \<Rightarrow>
               (case configuration (jl_get_json lib) (jl_str_of lib) ks of
                  (Inl e, ks') \<Rightarrow> (Inl e, v\<lparr>vf_keys := ks'\<rparr>)
                | (Inr c, ks') \<Rightarrow>
                    (check_claims lib (vf_settings v) token key (oc_issuer c), v\<lparr>vf_keys := ks'\<rparr>))))"

subsection \<open>The key source: lemmas\<close>

lemma configuration_result:
  assumes "configuration get_json str_of ks = (r, ks')"
  shows "ks_keys ks' = ks_keys ks" "ks_keys_fetched_at ks' = ks_keys_fetched_at ks"
    "ks_cache_seconds ks' = ks_cache_seconds ks" "ks_min_refresh_seconds ks' = ks_min_refresh_seconds ks"
    "r = Inr c \<Longrightarrow> ks_configuration ks' = Some c"
  using assms by (auto simp: configuration_def split: option.splits sum.splits)

lemma refresh_keys_result:
  assumes "refresh_keys get_json str_of jwk_of now ks = (r, ks')"
  shows "ks_cache_seconds ks' = ks_cache_seconds ks" "ks_min_refresh_seconds ks' = ks_min_refresh_seconds ks"
    "r = Inl e \<Longrightarrow> ks_keys ks' = ks_keys ks \<and> ks_keys_fetched_at ks' = ks_keys_fetched_at ks"
    "r = Inr u \<Longrightarrow> ks_keys_fetched_at ks' = now \<and> ks_keys ks' \<noteq> []"
proof -
  obtain c ks1 where c: "configuration get_json str_of ks = (c, ks1)"
    by (cases "configuration get_json str_of ks")
  note facts = configuration_result[OF c]
  show "ks_cache_seconds ks' = ks_cache_seconds ks" "ks_min_refresh_seconds ks' = ks_min_refresh_seconds ks"
    "r = Inl e \<Longrightarrow> ks_keys ks' = ks_keys ks \<and> ks_keys_fetched_at ks' = ks_keys_fetched_at ks"
    "r = Inr u \<Longrightarrow> ks_keys_fetched_at ks' = now \<and> ks_keys ks' \<noteq> []"
    using assms facts
    by (auto simp: refresh_keys_def c published_keys_def bind_sum_Inr_iff split: sum.splits if_splits)
qed

text \<open>The three ways through the first, cached lookup.\<close>

lemma cached_signing_key_result:
  assumes "cached_signing_key get_json str_of jwk_of clock kid ks = (r, ks')"
  obtains "r = Inr (lookup_key ks kid)" "ks' = ks" "ks_keys ks \<noteq> []"
  | "ks_keys ks = [] \<or> keys_expired (clock 1) ks"
    "refresh_keys get_json str_of jwk_of (clock 2) ks = (Inr (), ks')" "r = Inr (lookup_key ks' kid)"
  | e where "ks_keys ks = [] \<or> keys_expired (clock 1) ks"
    "refresh_keys get_json str_of jwk_of (clock 2) ks = (Inl e, ks')" "r = Inl e"
proof -
  obtain q ks1 where q: "refresh_keys get_json str_of jwk_of (clock 2) ks = (q, ks1)"
    by (cases "refresh_keys get_json str_of jwk_of (clock 2) ks")
  show thesis
  proof (cases "ks_keys ks = [] \<or> keys_expired (clock 0) ks \<and> keys_expired (clock 1) ks")
    case False
    then have "(r, ks') = (Inr (lookup_key ks kid), ks)" "ks_keys ks \<noteq> []"
      using assms unfolding cached_signing_key_def by (auto split: if_splits)
    then show thesis
      using that(1) by simp
  next
    case True
    have "(r, ks') = (case (q, ks1) of (Inl e, ks') \<Rightarrow> (Inl e, ks') | (Inr _, ks') \<Rightarrow> (Inr (lookup_key ks' kid), ks'))"
      using assms True q unfolding cached_signing_key_def by (simp split: if_splits)
    with True q that(2,3) show thesis
      by (cases q) auto
  qed
qed

lemma signing_key_locked_found:
  assumes "signing_key_locked get_json str_of jwk_of clock kid ks = (Inr key, ks')"
  shows "lookup_key ks' kid = Some key"
  using assms by (auto simp: signing_key_locked_def split: option.splits if_splits prod.splits sum.splits)

lemma signing_key_found:
  assumes "signing_key get_json str_of jwk_of clock kid ks = (Inr key, ks')"
  shows "kid \<noteq> [] \<and> lookup_key ks' kid = Some key"
proof -
  obtain r ks1 where c: "cached_signing_key get_json str_of jwk_of clock kid ks = (r, ks1)"
    by (cases "cached_signing_key get_json str_of jwk_of clock kid ks")
  have hit: "lookup_key ks1 kid = Some k" if "r = Inr (Some k)" for k
    using c that by (cases rule: cached_signing_key_result) auto
  then show ?thesis
    using assms c signing_key_locked_found
    by (auto simp: signing_key_def split: if_splits sum.splits option.splits)
qed

lemma signing_key_locked_floor:
  assumes "signing_key_locked get_json str_of jwk_of clock kid ks = (r, ks')" and "clock 3 \<le> clock 4"
  shows "ks_keys_fetched_at ks' = ks_keys_fetched_at ks \<or>
    ks_keys_fetched_at ks + ks_min_refresh_seconds ks \<le> ks_keys_fetched_at ks'"
proof (cases "lookup_key ks kid = None \<and> \<not> clock 3 - ks_keys_fetched_at ks < ks_min_refresh_seconds ks")
  case False
  then show ?thesis
    using assms(1) by (auto simp: signing_key_locked_def split: option.splits if_splits)
next
  case True
  obtain q ks1 where c: "refresh_keys get_json str_of jwk_of (clock 4) ks = (q, ks1)"
    by (cases "refresh_keys get_json str_of jwk_of (clock 4) ks")
  have "ks' = ks1"
    using assms(1) True c by (auto simp: signing_key_locked_def split: option.splits sum.splits)
  then show ?thesis
    using True refresh_keys_result(3,4)[OF c] assms(2) by (cases q) auto
qed

lemma signing_key_floor:
  assumes mono: "clock 1 \<le> clock 2" "clock 3 \<le> clock 4" and keys: "ks_keys ks \<noteq> []"
    and nonneg: "0 \<le> ks_cache_seconds ks" "0 \<le> ks_min_refresh_seconds ks"
    and res: "signing_key get_json str_of jwk_of clock kid ks = (r, ks')"
  shows "ks_keys_fetched_at ks' = ks_keys_fetched_at ks \<or>
    ks_keys_fetched_at ks + min (ks_cache_seconds ks) (ks_min_refresh_seconds ks) \<le> ks_keys_fetched_at ks'"
proof (cases "kid = []")
  case True
  then show ?thesis
    using res by (simp add: signing_key_def)
next
  case False
  obtain q ks1 where c: "cached_signing_key get_json str_of jwk_of clock kid ks = (q, ks1)"
    by (cases "cached_signing_key get_json str_of jwk_of clock kid ks")
  have first: "ks_min_refresh_seconds ks1 = ks_min_refresh_seconds ks \<and>
      (ks_keys_fetched_at ks1 = ks_keys_fetched_at ks \<or> ks_keys_fetched_at ks + ks_cache_seconds ks \<le> ks_keys_fetched_at ks1)"
    using c
  proof (cases rule: cached_signing_key_result)
    case 2
    then show ?thesis
      using refresh_keys_result(2,4)[OF 2(2)] keys mono(1) by (auto simp: keys_expired_def)
  next
    case (3 e)
    then show ?thesis
      using refresh_keys_result(2,3)[OF 3(2)] by auto
  qed simp
  have "ks' = ks1 \<or> signing_key_locked get_json str_of jwk_of clock kid ks1 = (r, ks')"
    using res False c by (auto simp: signing_key_def split: sum.splits option.splits)
  then show ?thesis
    using first signing_key_locked_floor[OF _ mono(2)] nonneg by fastforce
qed

subsection \<open>The verifier: lemmas\<close>

lemma strip_nonblank: "strip s \<noteq> [] \<Longrightarrow> \<not> is_blank (strip s)"
  by (simp add: is_blank_def)

lemma text_field_stripped [simp]: "strip (text_field str_of doc n) = text_field str_of doc n"
  by (simp add: text_field_def)

lemma to_principal_Inr:
  assumes "to_principal str_of float_of settings claims = Inr p"
  shows "pc_subject p = text_field str_of claims ''sub''" "pc_issuer p = text_field str_of claims ''iss''"
    "pc_subject p \<noteq> []" "pc_issuer p \<noteq> []" "pc_scopes p = scopes str_of claims"
    "pc_name p = optional_text (fmlookup claims ''name'')" "pc_email p = optional_text (email_claim claims)"
  using assms by (auto simp: to_principal_def Let_def split: if_splits option.splits json.splits)

lemma verify_Inr:
  assumes "verify lib clock token v = (Inr p, v')"
  obtains kid key c claims where "check_header lib (vf_settings v) token = Inr kid" "kid \<noteq> []"
    "lookup_key (vf_keys v') kid = Some key" "ks_configuration (vf_keys v') = Some c"
    "jl_decode lib token key (verify_call (vf_settings v) (oc_issuer c)) = Some claims"
    "to_principal (jl_str_of lib) (jl_float_of lib) (vf_settings v) claims = Inr p" "has_scope p (st_required_scope (vf_settings v))"
proof -
  obtain kid where kid: "check_header lib (vf_settings v) token = Inr kid"
    using assms by (auto simp: verify_def split: sum.splits)
  obtain q ks where sk: "signing_key (jl_get_json lib) (jl_str_of lib) (jl_jwk_of lib) clock kid (vf_keys v) = (q, ks)"
    by fastforce
  then obtain key where key: "q = Inr key"
    using assms kid by (cases q) (auto simp: verify_def)
  obtain d ks' where cf: "configuration (jl_get_json lib) (jl_str_of lib) ks = (d, ks')"
    by fastforce
  then obtain c where c: "d = Inr c"
    using assms kid sk key by (cases d) (auto simp: verify_def)
  have v': "v' = v\<lparr>vf_keys := ks'\<rparr>" and claims: "check_claims lib (vf_settings v) token key (oc_issuer c) = Inr p"
    using assms kid sk key cf c by (auto simp: verify_def)
  have "lookup_key ks' kid = Some key" "kid \<noteq> []"
    using signing_key_found[OF sk[unfolded key]] configuration_result(1)[OF cf] by (simp_all add: lookup_key_def)
  moreover have "ks_configuration ks' = Some c"
    using configuration_result(5)[OF cf c] .
  moreover obtain cl where "jl_decode lib token key (verify_call (vf_settings v) (oc_issuer c)) = Some cl"
    "to_principal (jl_str_of lib) (jl_float_of lib) (vf_settings v) cl = Inr p" "has_scope p (st_required_scope (vf_settings v))"
    using claims by (auto simp: check_claims_def bind_sum_Inr_iff require_scope_def split: option.splits if_splits)
  ultimately show thesis
    using that kid by (simp add: v')
qed

lemma check_header_Inr:
  "check_header lib settings token = Inr kid \<longleftrightarrow>
     missing_settings settings = [] \<and> strip token \<noteq> [] \<and>
     (\<exists>header. jl_header_of lib token = Some header \<and> algorithm_of header = JStr ''RS256'' \<and> kid_of header = Inr kid)"
  by (auto simp: check_header_def bind_sum_Inr_iff verifier_require_configured_def ALLOWED_ALGORITHMS_def strip_def lstrip_def
      split: option.splits if_splits)

subsection \<open>Examples\<close>

definition example_auth_settings :: settings where
  "example_auth_settings =
     \<lparr>st_app_env = [], st_key_vault_uri = [], st_managed_identity_client_id = [], st_postgres_secret_name = [],
      st_database_probe_timeout_seconds = 5, st_key_vault_timeout_seconds = 10, st_key_vault_retry_cooldown_seconds = 30,
      st_entra_tenant_id = ''t'', st_entra_client_id = ''c'', st_entra_audience = ''c'',
      st_entra_openid_configuration_url = ''https://idp/t'', st_required_scope = ''inventory.readwrite'',
      st_jwks_cache_seconds = 3600, st_jwks_min_refresh_seconds = 60, st_token_leeway_seconds = 60,
      st_identity_timeout_seconds = 10, st_storage_account_name = [], st_storage_blob_endpoint = [],
      st_receipts_container = [], st_upload_sas_ttl_seconds = 300, st_delegation_key_ttl_seconds = 3600,
      st_storage_clock_skew_seconds = 300, st_storage_timeout_seconds = 10\<rparr>"

definition example_tenant :: "string \<Rightarrow> json option" where
  "example_tenant url =
     (if url = ''https://idp/t''
      then Some (JObject (fmap_of_list
        [(''issuer'', JStr ''https://idp/{tenantid}/v2.0''), (''jwks_uri'', JStr ''https://idp/keys'')]))
      else Some (JObject (fmap_of_list [(''keys'', JArray [JObject (fmap_of_list [(''kid'', JStr ''k1'')])])])))"

definition example_lib :: "nat jwt_library" where
  "example_lib =
     \<lparr>jl_header_of = (\<lambda>token. Some (fmap_of_list [(''alg'', JStr ''RS256''), (''kid'', JStr ''k1'')])),
      jl_decode = (\<lambda>token key call.
        if ''RS256'' \<in> set (dc_algorithms call) \<and>
          set (do_require (dc_options call)) \<subseteq> {''sub'', ''iss'', ''aud'', ''exp'', ''nbf'', ''scp''} \<and> 0 \<le> dc_leeway call
        then Some (fmap_of_list
          [(''sub'', JStr ''user-1''), (''iss'', JStr (dc_issuer call)), (''aud'', JStr (dc_audience call)),
           (''exp'', JNum 1800000000), (''nbf'', JNum 1700000000), (''scp'', JStr ''inventory.readwrite profile'')])
        else None),
      jl_jwk_of = (\<lambda>entry. Some 1),
      jl_get_json = example_tenant,
      jl_str_of = (\<lambda>v. ''?''),
      jl_repr_of = (\<lambda>v. ''?''),
      jl_float_of = (\<lambda>s. None)\<rparr>"

definition example_verifier :: "nat verifier" where
  "example_verifier = new_verifier example_auth_settings"

definition example_principal :: principal where
  "example_principal =
     \<lparr>pc_subject = ''user-1'', pc_issuer = ''https://idp/t/v2.0'', pc_audience = ''c'',
      pc_scopes = {''inventory.readwrite'', ''profile''}, pc_expires_at = 63935596800000000,
      pc_name = None, pc_email = None\<rparr>"

definition example_keys :: "nat key_source" where
  "example_keys = (new_key_source example_auth_settings)
     \<lparr>ks_configuration := Some \<lparr>oc_issuer = ''https://idp/t/v2.0'', oc_jwks_uri = ''https://idp/keys''\<rparr>,
      ks_keys := [(JStr ''k0'', 7)], ks_keys_fetched_at := 100\<rparr>"

lemma example_verified:
  "verify example_lib (\<lambda>i. 500) ''token'' example_verifier =
     (Inr example_principal, snd (verify example_lib (\<lambda>i. 500) ''token'' example_verifier))"
  by code_simp

subsection \<open>Properties\<close>

text \<open>
  What is relied on of \<^verbatim>\<open>jwt.decode\<close>, as its documentation describes the arguments.  \<open>signed_by token key alg\<close> is that the token's signature is that of \<open>key\<close>
  under \<open>alg\<close>, \<open>whole\<close> reads a claim with \<^verbatim>\<open>int\<close>, and \<open>now\<close> is the time of the call.  Nothing is checked that the options do not ask for.
\<close>

fun names_audience :: "string \<Rightarrow> json \<Rightarrow> bool" where
  "names_audience audience (JStr aud) = (aud = audience)"
| "names_audience audience (JArray auds) = (JStr audience \<in> set auds)"
| "names_audience audience _ = False"

definition decodes_as_documented ::
  "'k jwt_library \<Rightarrow> (string \<Rightarrow> 'k \<Rightarrow> string \<Rightarrow> bool) \<Rightarrow> (json \<Rightarrow> int option) \<Rightarrow> seconds \<Rightarrow> bool" where
  "decodes_as_documented lib signed_by whole now \<longleftrightarrow>
     (\<forall>token key call claims. jl_decode lib token key call = Some claims \<longrightarrow>
       (let claim = fmlookup claims; options = dc_options call in
        (do_verify_signature options \<longrightarrow> (\<exists>alg \<in> set (dc_algorithms call). signed_by token key alg)) \<and>
        (\<forall>name \<in> set (do_require options). claim name \<noteq> None \<and> claim name \<noteq> Some JNull) \<and>
        (do_verify_exp options \<longrightarrow>
          (\<forall>v. claim ''exp'' = Some v \<longrightarrow> (\<exists>e. whole v = Some e \<and> now - dc_leeway call < of_int e))) \<and>
        (do_verify_nbf options \<longrightarrow>
          (\<forall>v. claim ''nbf'' = Some v \<longrightarrow> (\<exists>n. whole v = Some n \<and> of_int n \<le> now + dc_leeway call))) \<and>
        (do_verify_aud options \<longrightarrow> (\<exists>v. claim ''aud'' = Some v \<and> names_audience (dc_audience call) v)) \<and>
        (do_verify_iss options \<longrightarrow> claim ''iss'' = Some (JStr (dc_issuer call)))))"

text \<open>What the options of the verifier make of it.\<close>

lemma verify_call_checks:
  assumes "decodes_as_documented lib signed_by whole now" and "jl_decode lib token key (verify_call settings issuer) = Some claims"
  shows "signed_by token key ''RS256''"
    and "\<exists>v e. fmlookup claims ''exp'' = Some v \<and> whole v = Some e \<and> now - st_token_leeway_seconds settings < of_int e"
    and "\<exists>v n. fmlookup claims ''nbf'' = Some v \<and> whole v = Some n \<and> of_int n \<le> now + st_token_leeway_seconds settings"
    and "\<exists>v. fmlookup claims ''aud'' = Some v \<and> names_audience (st_entra_audience settings) v"
    and "fmlookup claims ''iss'' = Some (JStr issuer)" and "\<exists>v. fmlookup claims ''sub'' = Some v \<and> v \<noteq> JNull"
proof -
  note checks = assms(1)[unfolded decodes_as_documented_def Let_def, rule_format, OF assms(2)]
  from checks show "signed_by token key ''RS256''" "fmlookup claims ''iss'' = Some (JStr issuer)"
    "\<exists>v. fmlookup claims ''aud'' = Some v \<and> names_audience (st_entra_audience settings) v"
    by (simp_all add: verify_call_def verify_options_def ALLOWED_ALGORITHMS_def)
  have required: "\<exists>v. fmlookup claims name = Some v \<and> v \<noteq> JNull" if "name \<in> set REQUIRED_CLAIMS" for name
    using checks that by (cases "fmlookup claims name") (auto simp: verify_call_def verify_options_def)
  from required[of "''sub''"] show "\<exists>v. fmlookup claims ''sub'' = Some v \<and> v \<noteq> JNull"
    by (simp add: REQUIRED_CLAIMS_def)
  from required[of "''exp''"] checks
  show "\<exists>v e. fmlookup claims ''exp'' = Some v \<and> whole v = Some e \<and> now - st_token_leeway_seconds settings < of_int e"
    by (auto simp: REQUIRED_CLAIMS_def verify_call_def verify_options_def)
  from required[of "''nbf''"] checks
  show "\<exists>v n. fmlookup claims ''nbf'' = Some v \<and> whole v = Some n \<and> of_int n \<le> now + st_token_leeway_seconds settings"
    by (auto simp: REQUIRED_CLAIMS_def verify_call_def verify_options_def)
qed

text \<open>
  C28: a principal exists only when every check passed.  If \<open>verify\<close> returns one, and the JWT library does what its documentation says of the arguments it is
  given, then the server is configured; the token's header names RS256 and a key id, and that id is in the key set the tenant published; the token is
  signed with that very key, under RS256; it has not expired and is already valid, up to the leeway; it was issued to the configured audience and by the
  discovered issuer, which is the principal's; it has a subject, not blank, which is the principal's; and the required scope is among its scopes.
\<close>

theorem verify_is_sound:
  assumes "verify lib clock token v = (Inr p, v')" and "decodes_as_documented lib signed_by whole now"
  shows "missing_settings (vf_settings v) = [] \<and>
    (\<exists>header kid key c claims exp nbf aud.
       jl_header_of lib token = Some header \<and> algorithm_of header = JStr ''RS256'' \<and>
       fmlookup header ''kid'' = Some (JStr kid) \<and> lookup_key (vf_keys v') kid = Some key \<and>
       ks_configuration (vf_keys v') = Some c \<and> signed_by token key ''RS256'' \<and>
       fmlookup claims ''exp'' = Some exp \<and>
       (\<exists>e. whole exp = Some e \<and> now - st_token_leeway_seconds (vf_settings v) < of_int e) \<and>
       fmlookup claims ''nbf'' = Some nbf \<and>
       (\<exists>n. whole nbf = Some n \<and> of_int n \<le> now + st_token_leeway_seconds (vf_settings v)) \<and>
       fmlookup claims ''aud'' = Some aud \<and> names_audience (st_entra_audience (vf_settings v)) aud \<and>
       fmlookup claims ''iss'' = Some (JStr (oc_issuer c)) \<and> pc_issuer p = strip (oc_issuer c) \<and>
       pc_subject p = text_field (jl_str_of lib) claims ''sub'' \<and>
       st_required_scope (vf_settings v) \<in> scopes (jl_str_of lib) claims) \<and>
    \<not> is_blank (pc_subject p) \<and> \<not> is_blank (pc_issuer p)"
proof -
  obtain kid key c claims where V: "check_header lib (vf_settings v) token = Inr kid" "kid \<noteq> []"
    "lookup_key (vf_keys v') kid = Some key" "ks_configuration (vf_keys v') = Some c"
    "jl_decode lib token key (verify_call (vf_settings v) (oc_issuer c)) = Some claims"
    "to_principal (jl_str_of lib) (jl_float_of lib) (vf_settings v) claims = Inr p"
    "has_scope p (st_required_scope (vf_settings v))"
    using assms(1) by (rule verify_Inr)
  note P = to_principal_Inr[OF V(6)] and checks = verify_call_checks[OF assms(2) V(5)]
  obtain header where H: "jl_header_of lib token = Some header" "algorithm_of header = JStr ''RS256''" "kid_of header = Inr kid"
    and conf: "missing_settings (vf_settings v) = []"
    using V(1) by (auto simp: check_header_Inr)
  have "fmlookup header ''kid'' = Some (JStr kid)"
    using H(3) V(2) by (auto simp: kid_of_def split: option.splits json.splits)
  moreover have "\<not> is_blank (pc_subject p)" "\<not> is_blank (pc_issuer p)"
    using P(1-4) by (simp_all add: is_blank_def)
  moreover have "st_required_scope (vf_settings v) \<in> scopes (jl_str_of lib) claims"
    using V(7) P(5) by (simp add: has_scope_def)
  moreover have "pc_issuer p = strip (oc_issuer c)"
    using P(2,4) checks(5) by (auto simp: text_field_def split: if_splits)
  ultimately show ?thesis
    using conf H V(3,4) P(1) checks by blast
qed

lemma example_documented:
  "decodes_as_documented example_lib (\<lambda>token key alg. alg = ''RS256'') (\<lambda>v. case v of JNum n \<Rightarrow> Some \<lfloor>n\<rfloor> | _ \<Rightarrow> None) 1750000000"
  unfolding decodes_as_documented_def
  by (auto simp: example_lib_def Let_def split: if_splits)

theorem verify_is_sound_witness:
  "\<not> is_blank (pc_subject example_principal) \<and>
   lookup_key (vf_keys (snd (verify example_lib (\<lambda>i. 500) ''token'' example_verifier))) ''k1'' = Some 1 \<and>
   pc_issuer example_principal = ''https://idp/t/v2.0''"
proof -
  have "lookup_key (vf_keys (snd (verify example_lib (\<lambda>i. 500) ''token'' example_verifier))) ''k1'' = Some 1"
    by code_simp
  moreover have "pc_issuer example_principal = ''https://idp/t/v2.0''"
    by (simp add: example_principal_def)
  ultimately show ?thesis
    using verify_is_sound[OF example_verified example_documented] by blast
qed

text \<open>
  A verified principal always has a household: deriving the id from it cannot raise, and the id depends on the
  claims' subject and issuer alone.
\<close>

theorem principal_has_household:
  assumes "verify lib clock token v = (Inr p, v')"
  shows "\<exists>h. principal_household_id p = Inr h \<and> uuid_version h = 5"
proof -
  obtain claims where "to_principal (jl_str_of lib) (jl_float_of lib) (vf_settings v) claims = Inr p"
    using assms by (rule verify_Inr)
  note P = to_principal_Inr[OF this]
  have "\<not> is_blank (pc_issuer p)" "\<not> is_blank (pc_subject p)"
    using P(1-4) by (simp_all add: is_blank_def)
  then show ?thesis
    unfolding principal_household_id_def
    using household_id_for_Inr_iff uuid5_version by blast
qed

theorem principal_has_household_witness:
  "\<exists>h. principal_household_id example_principal = Inr h \<and> uuid_version h = 5"
  by (rule principal_has_household[OF example_verified])

text \<open>
  The refresh floor.  Once keys are cached, and on a clock that does not go back, the key set is
  replaced no more often than the smaller of the two configured intervals; and a token with an unknown
  key id within the floor of a fresh cache is refused without asking the tenant at all -- the answer and the
  state are the same whatever the tenant would have said.
\<close>

theorem key_refresh_is_rate_limited:
  assumes "clock 1 \<le> clock 2" and "clock 3 \<le> clock 4" and "ks_keys ks \<noteq> []"
    and "0 \<le> ks_cache_seconds ks" and "0 \<le> ks_min_refresh_seconds ks"
    and "signing_key get_json str_of jwk_of clock kid ks = (r, ks')"
  shows "(ks_keys_fetched_at ks' = ks_keys_fetched_at ks \<or>
      ks_keys_fetched_at ks + min (ks_cache_seconds ks) (ks_min_refresh_seconds ks) \<le> ks_keys_fetched_at ks') \<and>
    (kid \<noteq> [] \<and> lookup_key ks kid = None \<and> \<not> keys_expired (clock 0) ks \<and>
       clock 3 - ks_keys_fetched_at ks < ks_min_refresh_seconds ks \<longrightarrow>
     r = Inl (InvalidTokenError ''the token was signed by an unknown key'') \<and> ks' = ks)"
proof (rule conjI[OF signing_key_floor[OF assms]], rule impI)
  assume cond: "kid \<noteq> [] \<and> lookup_key ks kid = None \<and> \<not> keys_expired (clock 0) ks \<and>
       clock 3 - ks_keys_fetched_at ks < ks_min_refresh_seconds ks"
  then have "signing_key get_json str_of jwk_of clock kid ks =
      (Inl (InvalidTokenError ''the token was signed by an unknown key''), ks)"
    using assms(3) by (simp add: signing_key_def cached_signing_key_def signing_key_locked_def)
  then show "r = Inl (InvalidTokenError ''the token was signed by an unknown key'') \<and> ks' = ks"
    using assms(6) by simp
qed

theorem key_refresh_is_rate_limited_witness:
  "signing_key example_tenant (\<lambda>v. []) (\<lambda>e. Some 1) (\<lambda>i. 130) ''k1'' example_keys =
     (Inl (InvalidTokenError ''the token was signed by an unknown key''), example_keys)"
proof -
  obtain r ks' where S: "signing_key example_tenant (\<lambda>v. []) (\<lambda>e. Some 1) (\<lambda>i. 130) ''k1'' example_keys = (r, ks')"
    by fastforce
  have "r = Inl (InvalidTokenError ''the token was signed by an unknown key'') \<and> ks' = example_keys"
    using key_refresh_is_rate_limited[OF _ _ _ _ _ S]
    by (simp add: example_keys_def new_key_source_def example_auth_settings_def lookup_key_def keys_expired_def)
  with S show ?thesis
    by simp
qed

text \<open>
  Key rotation is noticed.  A key id the fresh cache does not have, presented after the floor, is found when the
  tenant now publishes it: the published set replaces the cached one and the key is returned.  When the
  tenant cannot be read instead, the token is refused and the cached keys stay as they were.
\<close>

theorem key_rotation_is_noticed:
  assumes "kid \<noteq> []" and "ks_keys ks \<noteq> []" and "lookup_key ks kid = None" and "\<not> keys_expired (clock 0) ks"
    and "ks_min_refresh_seconds ks \<le> clock 3 - ks_keys_fetched_at ks" and "ks_configuration ks = Some c"
  shows "(case published_keys get_json jwk_of (oc_jwks_uri c) of
      Inr keys \<Rightarrow> signing_key get_json str_of jwk_of clock kid ks =
        (case map_of keys (JStr kid) of
           None \<Rightarrow> Inl (InvalidTokenError ''the token was signed by an unknown key'')
         | Some key \<Rightarrow> Inr key, ks\<lparr>ks_keys := keys, ks_keys_fetched_at := clock 4\<rparr>)
    | Inl e \<Rightarrow> signing_key get_json str_of jwk_of clock kid ks = (Inl e, ks))"
  using assms
  by (auto simp: signing_key_def cached_signing_key_def signing_key_locked_def refresh_keys_def configuration_def
      lookup_key_def split: sum.split option.split)

theorem key_rotation_is_noticed_witness:
  "signing_key example_tenant (\<lambda>v. []) (\<lambda>e. Some 1) (\<lambda>i. 160) ''k1'' example_keys =
     (Inr 1, example_keys\<lparr>ks_keys := [(JStr ''k1'', 1)], ks_keys_fetched_at := 160\<rparr>)"
proof -
  have "published_keys example_tenant (\<lambda>e. Some 1) ''https://idp/keys'' = Inr [(JStr ''k1'', 1 :: nat)]"
    by (simp add: published_keys_def read_json_def example_tenant_def)
  then show ?thesis
    using key_rotation_is_noticed[of "''k1''" example_keys "\<lambda>i. 160" _ example_tenant "\<lambda>v. []" "\<lambda>e. Some 1"]
    by (simp add: example_keys_def new_key_source_def example_auth_settings_def lookup_key_def keys_expired_def)
qed

end
