(* ===== verification/Api_Security.thy ===== *)
theory Api_Security
  imports Auth_Tokens
begin

section \<open>From an Authorization header to a principal\<close>

text \<open>
  The model of \<^verbatim>\<open>src/kitchensense/api/security.py\<close>.  \<open>credentials\<close> is what FastAPI's \<^verbatim>\<open>HTTPBearer\<close> found in the
  header, \<open>None\<close> when there is no bearer token.  The lemmas show that every refusal is a well-formed challenge, that the
  configuration is checked before the header, and that no principal comes out without a verified token.
\<close>

record http_exception =
  hx_status_code :: nat
  hx_detail :: string
  hx_headers :: "(string \<times> string) list"

definition REALM :: string where
  "REALM = ''kitchensense''"

definition quote_mark :: char where
  "quote_mark = CHR 0x22"

text \<open>\<^verbatim>\<open>text.replace(old, new)\<close> for single characters.\<close>

definition replace_char :: "char \<Rightarrow> char \<Rightarrow> string \<Rightarrow> string" where
  "replace_char old new s = map (\<lambda>c. if c = old then new else c) s"

definition quotable :: "string \<Rightarrow> string" where
  "quotable s =
     strip (replace_char CHR 0x0A CHR '' '' (replace_char quote_mark CHR 0x27 (replace_char CHR 0x5C CHR '' '' s)))"

definition parameter :: "string \<Rightarrow> string \<Rightarrow> string" where
  "parameter name v = name @ ''='' @ [quote_mark] @ v @ [quote_mark]"

definition challenge_parts :: "auth_error \<Rightarrow> string list" where
  "challenge_parts e =
     parameter ''realm'' REALM #
     (if error_code e \<noteq> []
      then [parameter ''error'' (error_code e), parameter ''error_description'' (quotable (error_description e))]
      else [])"

definition unauthorized :: "auth_error \<Rightarrow> http_exception" where
  "unauthorized e =
     \<lparr>hx_status_code = 401, hx_detail = error_description e,
      hx_headers = [(''WWW-Authenticate'', ''Bearer '' @ join_comma (challenge_parts e))]\<rparr>"

text \<open>How a request ends when a dependency or a handler does not return: an HTTP exception, or an error nothing answers.\<close>

datatype auth_failure = AuthRefused http_exception | AuthCrashed

fun is_token_error :: "auth_error \<Rightarrow> bool" where
  "is_token_error (MissingTokenError _) = True"
| "is_token_error (InvalidTokenError _) = True"
| "is_token_error (InsufficientScopeError _) = True"
| "is_token_error _ = False"

definition not_configured_exception :: http_exception where
  "not_configured_exception =
     \<lparr>hx_status_code = 503, hx_detail = ''Authentication is not configured on this deployment.'', hx_headers = []\<rparr>"

definition get_principal ::
  "'k jwt_library \<Rightarrow> (nat \<Rightarrow> seconds) \<Rightarrow> string option \<Rightarrow> 'k verifier \<Rightarrow> (auth_failure + principal) \<times> 'k verifier" where
  "get_principal lib clock credentials v =
     (case verifier_require_configured (vf_settings v) of
        Inl _ \<Rightarrow> (Inl (AuthRefused not_configured_exception), v)
      | Inr _ \<Rightarrow>
          if credentials = None \<or> credentials = Some []
          then (Inl (AuthRefused (unauthorized (MissingTokenError ''this endpoint requires an access token''))), v)
          else (case verify lib clock (the credentials) v of
                  (Inr p, v') \<Rightarrow> (Inr p, v')
                | (Inl e, v') \<Rightarrow>
                    (Inl (if is_token_error e then AuthRefused (unauthorized e) else AuthCrashed), v')))"

subsection \<open>Lemmas\<close>

lemma quotable_clean: "set (quotable s) \<inter> {quote_mark, CHR 0x5C, CHR 0x0A} = {}"
proof -
  have "set (replace_char CHR 0x0A CHR '' '' (replace_char quote_mark CHR 0x27 (replace_char CHR 0x5C CHR '' '' s)))
      \<inter> {quote_mark, CHR 0x5C, CHR 0x0A} = {}"
    by (auto simp: replace_char_def quote_mark_def)
  with set_strip show ?thesis
    unfolding quotable_def by blast
qed

lemma verify_settings: "verify lib clock token v = (r, v') \<Longrightarrow> vf_settings v' = vf_settings v"
  by (auto simp: verify_def split: sum.splits prod.splits)

lemma get_principal_settings: "get_principal lib clock c v = (r, v') \<Longrightarrow> vf_settings v' = vf_settings v"
  by (auto simp: get_principal_def verify_settings split: sum.splits prod.splits if_splits)

subsection \<open>Properties\<close>

text \<open>
  Every refusal is a challenge a client can parse.  A refused token is a 401 whose \<^verbatim>\<open>WWW-Authenticate\<close> is the
  \<^verbatim>\<open>Bearer\<close> scheme, the realm, and -- unless no token was sent at all -- the error code and a description; between the
  quotes of the description there is no quote, backslash or newline, so the quoted string ends where it should.
\<close>

theorem refusal_is_a_challenge:
  "hx_status_code (unauthorized e) = 401 \<and>
   (\<exists>d. set d \<inter> {quote_mark, CHR 0x5C, CHR 0x0A} = {} \<and>
      hx_headers (unauthorized e) = [(''WWW-Authenticate'', ''Bearer '' @ parameter ''realm'' REALM @
        (if error_code e = [] then []
         else '', '' @ parameter ''error'' (error_code e) @ '', '' @ parameter ''error_description'' d))]) \<and>
   (is_token_error e \<longrightarrow> (error_code e = [] \<longleftrightarrow> (\<exists>s. e = MissingTokenError s)))"
proof (intro conjI)
  show "\<exists>d. set d \<inter> {quote_mark, CHR 0x5C, CHR 0x0A} = {} \<and>
      hx_headers (unauthorized e) = [(''WWW-Authenticate'', ''Bearer '' @ parameter ''realm'' REALM @
        (if error_code e = [] then []
         else '', '' @ parameter ''error'' (error_code e) @ '', '' @ parameter ''error_description'' d))]"
    by (rule exI[of _ "quotable (error_description e)"], rule conjI[OF quotable_clean])
      (simp add: unauthorized_def challenge_parts_def)
  show "is_token_error e \<longrightarrow> (error_code e = [] \<longleftrightarrow> (\<exists>s. e = MissingTokenError s))"
    by (cases e) simp_all
qed (simp add: unauthorized_def)

theorem refusal_is_a_challenge_witness:
  "error_code (MissingTokenError ''none'') = [] \<and> hx_status_code (unauthorized (MissingTokenError ''none'')) = 401"
  using refusal_is_a_challenge[of "MissingTokenError ''none''"] by simp

text \<open>
  The order of the refusals.  A deployment without a tenant answers 503 whatever the header says, and asks nobody
  anything; with a tenant, a missing token is a 401 without an error code, again without any request to the tenant; and a
  principal is returned exactly when the verifier returns one for the token.
\<close>

theorem get_principal_order:
  "(verifier_require_configured (vf_settings v) \<noteq> Inr () \<longrightarrow>
      get_principal lib clock c v = (Inl (AuthRefused not_configured_exception), v)) \<and>
   (verifier_require_configured (vf_settings v) = Inr () \<and> (c = None \<or> c = Some []) \<longrightarrow>
      (\<exists>x. get_principal lib clock c v = (Inl (AuthRefused x), v) \<and> hx_status_code x = 401 \<and>
         hx_headers x = [(''WWW-Authenticate'', ''Bearer '' @ parameter ''realm'' REALM)])) \<and>
   (\<forall>p v'. get_principal lib clock c v = (Inr p, v') \<longleftrightarrow>
      (\<exists>token. c = Some token \<and> verify lib clock token v = (Inr p, v')))"
proof (intro conjI)
  have configured: "\<exists>u. verifier_require_configured (vf_settings v) = Inr u" if "verify lib clock token v = (Inr p, v')"
    for token p v'
    using that by (auto simp: verify_def check_header_def bind_sum_def split: sum.splits prod.splits)
  have empty: "verify lib clock [] v \<noteq> (Inr p, v')" for p v'
    by (auto simp: verify_def check_header_def bind_sum_def split: sum.splits prod.splits)
  show "\<forall>p v'. get_principal lib clock c v = (Inr p, v') \<longleftrightarrow>
      (\<exists>token. c = Some token \<and> verify lib clock token v = (Inr p, v'))"
  proof (intro allI)
    fix p v'
    show "get_principal lib clock c v = (Inr p, v') \<longleftrightarrow> (\<exists>token. c = Some token \<and> verify lib clock token v = (Inr p, v'))"
    proof (cases "verifier_require_configured (vf_settings v)")
      case (Inl e)
      then show ?thesis
        using configured[of _ p v'] by (auto simp: get_principal_def)
    next
      case (Inr u)
      show ?thesis
      proof (cases "c = None \<or> c = Some []")
        case True
        then show ?thesis
          using Inr empty[of p v'] by (auto simp: get_principal_def)
      next
        case False
        then obtain token where c: "c = Some token" "token \<noteq> []"
          by auto
        obtain r v1 where "verify lib clock token v = (r, v1)"
          by (cases "verify lib clock token v")
        then show ?thesis
          using Inr c by (cases r) (auto simp: get_principal_def)
      qed
    qed
  qed
qed (auto simp: get_principal_def unauthorized_def challenge_parts_def split: sum.splits)

theorem get_principal_order_witness:
  "get_principal example_lib (\<lambda>_. 0) (Some ''t'') (new_verifier (example_auth_settings\<lparr>st_entra_tenant_id := []\<rparr>)) =
     (Inl (AuthRefused not_configured_exception), new_verifier (example_auth_settings\<lparr>st_entra_tenant_id := []\<rparr>))"
proof -
  let ?v = "new_verifier (example_auth_settings\<lparr>st_entra_tenant_id := []\<rparr>) :: nat verifier"
  have "verifier_require_configured (vf_settings ?v) \<noteq> Inr ()"
    by code_simp
  then show ?thesis
    using get_principal_order[of ?v example_lib "\<lambda>_. 0" "Some ''t''"] by blast
qed

end
