(* ===== verification/Api_Service.thy ===== *)
theory Api_Service
  imports Api_Schemas Api_Security
begin

section \<open>The service\<close>

text \<open>
  The model of \<^verbatim>\<open>src/kitchensense/api/\<close> (\<^verbatim>\<open>dependencies.py\<close>, \<^verbatim>\<open>inventory.py\<close>, \<^verbatim>\<open>uploads.py\<close>, \<^verbatim>\<open>health.py\<close>) and of
  \<^verbatim>\<open>main.py\<close>: the dependencies a request goes through, the handlers, and the exception handlers that turn what they raise
  into a response.

  \<open>app\<close> is the state the process and the database keep between requests: \<^verbatim>\<open>app.state\<close> -- the verifier with its key
  cache, the database provider, the blob store with its delegation key, each \<open>None\<close> until first needed -- and the
  committed contents of the database.  A session's uncommitted statements are a local value that becomes the
  committed contents at \<^verbatim>\<open>commit()\<close> and is dropped otherwise, which is the rollback.

  \<open>world\<close> is what one request meets outside the repository: the libraries, the readings of the clocks, the ids the
  server and \<^verbatim>\<open>uuid4()\<close> generate, whether the database answers.  The order of the steps is FastAPI's: the body is read
  as JSON, the router's dependencies run, then the endpoint's in the order of its parameters, then the body and the
  parameters are validated, then the handler runs.
\<close>

datatype connection = Connected | ConnectionFailed | ConnectFailedOtherwise

record ('k, 'd) world =
  w_float_of :: "string \<Rightarrow> seconds option"
  w_lib :: "'k jwt_library"
  w_clock :: "nat \<Rightarrow> seconds"
  w_outside :: outside
  w_provider_now :: seconds
  w_provider_failed_at :: seconds
  w_sign :: "'d sas_request \<Rightarrow> string"
  w_fetch_key :: "datetime \<Rightarrow> datetime \<Rightarrow> 'd fetched"
  w_pydantic :: pydantic
  w_connection :: connection
  w_now :: datetime
  w_household_now :: datetime
  w_transaction_now :: datetime
  w_new_id :: uuid
  w_uuid4 :: uuid

record ('k, 'd) app =
  app_verifier :: "'k verifier option"
  app_database :: "database option"
  app_receipt_store :: "'d blob_store option"
  app_db :: kitchen_db

subsection \<open>Failures and replies\<close>

datatype failure =
    Http http_exception
  | Validation
  | Storage storage_error
  | ConnectionError
  | DatabaseUnavailable string
  | Unhandled

datatype reply_body =
    EventBody event_response
  | SnapshotBody snapshot_response
  | TicketBody ticket_response
  | ConfirmationBody upload_confirmation
  | HealthBody string
  | DeepHealthBody deep_health
  | RootBody string string
  | Detail string
  | ValidationErrors
  | InternalError

record reply =
  rp_status :: nat
  rp_headers :: "(string \<times> string) list"
  rp_body :: reply_body

definition respond :: "nat \<Rightarrow> reply_body \<Rightarrow> reply" where
  "respond status body = \<lparr>rp_status = status, rp_headers = [], rp_body = body\<rparr>"

text \<open>The exception handlers of \<^verbatim>\<open>main.py\<close> and FastAPI's own.\<close>

fun exception_response :: "failure \<Rightarrow> reply" where
  "exception_response (Http x) = \<lparr>rp_status = hx_status_code x, rp_headers = hx_headers x, rp_body = Detail (hx_detail x)\<rparr>"
| "exception_response Validation = respond 422 ValidationErrors"
| "exception_response (Storage e) = respond 503 (Detail ''Receipt uploads are unavailable. Please try again shortly.'')"
| "exception_response ConnectionError = respond 503 (Detail ''The database is unavailable. Please try again shortly.'')"
| "exception_response (DatabaseUnavailable e) = respond 503 (Detail ''The database is not configured yet.'')"
| "exception_response Unhandled = respond 500 InternalError"

definition http_exception_of :: "nat \<Rightarrow> string \<Rightarrow> http_exception" where
  "http_exception_of status detail = \<lparr>hx_status_code = status, hx_detail = detail, hx_headers = []\<rparr>"

subsection \<open>Dependencies\<close>

definition settings_of :: "('k, 'd) world \<Rightarrow> failure + settings" where
  "settings_of w = (case from_env (w_float_of w) (ow_environ (w_outside w)) of None \<Rightarrow> Inl Unhandled | Some s \<Rightarrow> Inr s)"

definition ensure_database :: "('k, 'd) world \<Rightarrow> ('k, 'd) app \<Rightarrow> failure + database \<times> ('k, 'd) app" where
  "ensure_database w app =
     (case app_database app of
        Some d \<Rightarrow> Inr (d, app)
      | None \<Rightarrow> bind_sum (settings_of w) (\<lambda>s. Inr (new_database s, app\<lparr>app_database := Some (new_database s)\<rparr>)))"

definition ensure_verifier :: "('k, 'd) world \<Rightarrow> ('k, 'd) app \<Rightarrow> failure + 'k verifier \<times> ('k, 'd) app" where
  "ensure_verifier w app =
     (case app_verifier app of
        Some v \<Rightarrow> Inr (v, app)
      | None \<Rightarrow> bind_sum (settings_of w) (\<lambda>s. Inr (new_verifier s, app\<lparr>app_verifier := Some (new_verifier s)\<rparr>)))"

definition ensure_receipt_store :: "('k, 'd) world \<Rightarrow> ('k, 'd) app \<Rightarrow> failure + 'd blob_store \<times> ('k, 'd) app" where
  "ensure_receipt_store w app =
     (case app_receipt_store app of
        Some st \<Rightarrow> Inr (st, app)
      | None \<Rightarrow> bind_sum (settings_of w) (\<lambda>s. Inr (new_store s, app\<lparr>app_receipt_store := Some (new_store s)\<rparr>)))"

fun auth_failure_of :: "auth_failure \<Rightarrow> failure" where
  "auth_failure_of (AuthRefused x) = Http x"
| "auth_failure_of AuthCrashed = Unhandled"

definition authenticate ::
  "('k, 'd) world \<Rightarrow> string option \<Rightarrow> ('k, 'd) app \<Rightarrow> (failure + principal) \<times> ('k, 'd) app" where
  "authenticate w credentials app =
     (case ensure_verifier w app of
        Inl e \<Rightarrow> (Inl e, app)
      | Inr (v, app') \<Rightarrow>
          (case get_principal (w_lib w) (w_clock w) credentials v of
             (Inl e, v') \<Rightarrow> (Inl (auth_failure_of e), app'\<lparr>app_verifier := Some v'\<rparr>)
           | (Inr p, v') \<Rightarrow> (Inr p, app'\<lparr>app_verifier := Some v'\<rparr>)))"

definition get_session :: "('k, 'd) world \<Rightarrow> ('k, 'd) app \<Rightarrow> (failure + unit) \<times> ('k, 'd) app" where
  "get_session w app =
     (case ensure_database w app of
        Inl e \<Rightarrow> (Inl e, app)
      | Inr (d, app') \<Rightarrow>
          (case sessionmaker (w_outside w) (w_provider_now w) (w_provider_failed_at w) d of
             (Inr _, d') \<Rightarrow> (Inr (), app'\<lparr>app_database := Some d'\<rparr>)
           | (Inl (DatabaseUnavailableError _), d') \<Rightarrow>
               (Inl (Http (http_exception_of 503 ''The database is not configured yet.'')),
                app'\<lparr>app_database := Some d'\<rparr>)
           | (Inl _, d') \<Rightarrow> (Inl Unhandled, app'\<lparr>app_database := Some d'\<rparr>)))"

text \<open>The first statement of the session is the one that connects.\<close>

definition get_household_id ::
  "('k, 'd) world \<Rightarrow> principal \<Rightarrow> ('k, 'd) app \<Rightarrow> (failure + uuid) \<times> ('k, 'd) app" where
  "get_household_id w p app =
     (case principal_household_id p of
        Inl _ \<Rightarrow> (Inl Unhandled, app)
      | Inr household_id \<Rightarrow>
          (case w_connection w of
             ConnectionFailed \<Rightarrow> (Inl ConnectionError, app)
           | ConnectFailedOtherwise \<Rightarrow> (Inl Unhandled, app)
           | Connected \<Rightarrow>
               (case ensure (w_household_now w) household_id (household_name p) ''Europe/London'' (app_db app) of
                  Inl _ \<Rightarrow> (Inl Unhandled, app)
                | Inr (created, db) \<Rightarrow>
                    (Inr household_id, if created then app\<lparr>app_db := db\<rparr> else app))))"

text \<open>What every protected endpoint starts with: the principal, the session, the household.\<close>

definition dependencies ::
  "('k, 'd) world \<Rightarrow> string option \<Rightarrow> ('k, 'd) app \<Rightarrow> (failure + uuid) \<times> ('k, 'd) app" where
  "dependencies w credentials app =
     (case authenticate w credentials app of
        (Inl e, app1) \<Rightarrow> (Inl e, app1)
      | (Inr p, app1) \<Rightarrow>
          (case get_session w app1 of
             (Inl e, app2) \<Rightarrow> (Inl e, app2)
           | (Inr _, app2) \<Rightarrow> get_household_id w p app2))"

subsection \<open>Handlers\<close>

definition append_event ::
  "('k, 'd) world \<Rightarrow> event_create \<Rightarrow> uuid \<Rightarrow> ('k, 'd) app \<Rightarrow> (failure + reply) \<times> ('k, 'd) app" where
  "append_event w payload household_id app =
     (case append_if_new (w_new_id w) (w_transaction_now w) household_id (create_to_domain payload) (app_db app) of
        Inl IdempotencyKeyConflictError \<Rightarrow>
          (Inl (Http (http_exception_of 409
             (''That idempotency_key is already in use by another household. '' @
              ''Keys are unique across all households, so namespace them by '' @ ''whatever produced them.''))), app)
      | Inl (DbError IntegrityError) \<Rightarrow>
          (Inl (Http (http_exception_of 422
             (''The event could not be stored. Check that canonical_product_id '' @
              ''refers to a product that exists.''))), app)
      | Inl _ \<Rightarrow> (Inl Unhandled, app)
      | Inr ((event, created), db) \<Rightarrow>
          (Inr (respond (if \<not> created then 200 else 201) (EventBody (event_response_from_domain (w_pydantic w) event))),
           app\<lparr>app_db := db\<rparr>))"

definition snapshot_at ::
  "('k, 'd) world \<Rightarrow> datetime \<Rightarrow> uuid \<Rightarrow> ('k, 'd) app \<Rightarrow> (failure + reply) \<times> ('k, 'd) app" where
  "snapshot_at w as_of household_id app =
     (case project_known_as_of (app_db app) household_id as_of of
        Inl _ \<Rightarrow> (Inl Unhandled, app)
      | Inr snapshot \<Rightarrow> (Inr (respond 200 (SnapshotBody (snapshot_response_from_domain (w_pydantic w) snapshot))), app))"

definition current_snapshot ::
  "('k, 'd) world \<Rightarrow> uuid \<Rightarrow> ('k, 'd) app \<Rightarrow> (failure + reply) \<times> ('k, 'd) app" where
  "current_snapshot w household_id app = snapshot_at w (w_now w) household_id app"

definition snapshot_as_of ::
  "('k, 'd) world \<Rightarrow> datetime \<Rightarrow> uuid \<Rightarrow> ('k, 'd) app \<Rightarrow> (failure + reply) \<times> ('k, 'd) app" where
  "snapshot_as_of w timestamp household_id app = snapshot_at w timestamp household_id app"

definition ticket_response_of :: "receipt_upload \<Rightarrow> receipt_content_type \<Rightarrow> ticket \<Rightarrow> pydantic \<Rightarrow> ticket_response" where
  "ticket_response_of upload content_type t pd =
     \<lparr>rt_upload_id = ru_id upload, rt_household_id = ru_household_id upload,
      rt_blob_name = pd_strip pd (ru_blob_name upload), rt_content_type = content_type,
      rt_upload_url = pd_strip pd (ut_url t), rt_method = pd_strip pd (ut_method t),
      rt_headers = map (\<lambda>(k, v). (pd_strip pd k, pd_strip pd v)) (ticket_headers t),
      rt_expires_at = ut_expires_at t\<rparr>"

definition request_upload ::
  "('k, 'd) world \<Rightarrow> receipt_content_type \<Rightarrow> uuid \<Rightarrow> 'd blob_store \<Rightarrow> ('k, 'd) app \<Rightarrow> (failure + reply) \<times> ('k, 'd) app" where
  "request_upload w content_type household_id st app =
     (let upload_id = w_uuid4 w; requested_at = w_now w in
      case upload_ticket (w_sign w) (w_fetch_key w) household_id upload_id requested_at content_type st of
        (Inl e, st') \<Rightarrow> (Inl (Storage e), app\<lparr>app_receipt_store := Some st'\<rparr>)
      | (Inr t, st') \<Rightarrow>
          (case record_request household_id upload_id (ut_blob_name t) (content_type_value (ut_content_type t))
                  requested_at (ut_expires_at t) (app_db app) of
             Inl _ \<Rightarrow> (Inl Unhandled, app\<lparr>app_receipt_store := Some st'\<rparr>)
           | Inr (upload, db) \<Rightarrow>
               (Inr (respond 201 (TicketBody (ticket_response_of upload content_type t (w_pydantic w)))),
                app\<lparr>app_receipt_store := Some st', app_db := db\<rparr>)))"

definition confirm_upload ::
  "('k, 'd) world \<Rightarrow> uuid \<Rightarrow> uuid \<Rightarrow> ('k, 'd) app \<Rightarrow> (failure + reply) \<times> ('k, 'd) app" where
  "confirm_upload w upload_id household_id app =
     (case confirm household_id upload_id (w_now w) (app_db app) of
        Inl _ \<Rightarrow> (Inl Unhandled, app)
      | Inr (None, _) \<Rightarrow>
          (Inl (Http (http_exception_of 404
             (''No upload was requested with that id. Ask for an upload URL '' @
              ''first, then confirm the id it returns.''))), app)
      | Inr (Some upload, db) \<Rightarrow>
          (case confirmation_from_domain (w_pydantic w) upload of
             None \<Rightarrow> (Inl Unhandled, app\<lparr>app_db := db\<rparr>)
           | Some c \<Rightarrow> (Inr (respond 200 (ConfirmationBody c)), app\<lparr>app_db := db\<rparr>)))"

definition health_deep :: "('k, 'd) world \<Rightarrow> ('k, 'd) app \<Rightarrow> (failure + reply) \<times> ('k, 'd) app" where
  "health_deep w app =
     (case ensure_database w app of
        Inl e \<Rightarrow> (Inl e, app)
      | Inr (d, app') \<Rightarrow>
          (case check (w_outside w) (w_provider_now w) (w_provider_failed_at w) d of
             (Inl _, d') \<Rightarrow> (Inl Unhandled, app'\<lparr>app_database := Some d'\<rparr>)
           | (Inr status, d') \<Rightarrow>
               (Inr (respond 200 (DeepHealthBody (deep_health_from_status (w_pydantic w) status))),
                app'\<lparr>app_database := Some d'\<rparr>)))"

definition health :: "('k, 'd) world \<Rightarrow> reply" where
  "health w = respond 200 (HealthBody (pd_strip (w_pydantic w) ''ok''))"

definition root :: "('k, 'd) world \<Rightarrow> reply" where
  "root w = respond 200 (RootBody (pd_strip (w_pydantic w) ''KitchenSense'') (pd_strip (w_pydantic w) ''/docs''))"

subsection \<open>Routing\<close>

text \<open>
  What the bytes of a body are: not even text, text that is not JSON, absent, or a document.  FastAPI reads the body before it runs any dependency, so the
  first two are answered without authentication, although \<^verbatim>\<open>inventory.py\<close> and \<^verbatim>\<open>uploads.py\<close> say that authentication comes first.
\<close>

datatype body = Undecodable | NotJson | NoBody | Json json

fun read_body :: "body \<Rightarrow> failure + json" where
  "read_body Undecodable = Inl (Http (http_exception_of 400 ''There was an error parsing the body''))"
| "read_body NotJson = Inl Validation"
| "read_body NoBody = Inr JNull"
| "read_body (Json v) = Inr v"

datatype request =
    PostEvent body
  | GetInventory
  | GetInventoryAsOf "string option"
  | PostUpload body
  | PostConfirm string
  | GetHealth
  | GetHealthDeep
  | GetRoot

definition protected ::
  "('k, 'd) world \<Rightarrow> string option \<Rightarrow> (uuid \<Rightarrow> ('k, 'd) app \<Rightarrow> (failure + reply) \<times> ('k, 'd) app) \<Rightarrow> ('k, 'd) app
     \<Rightarrow> (failure + reply) \<times> ('k, 'd) app" where
  "protected w credentials handler app =
     (case dependencies w credentials app of
        (Inl e, app') \<Rightarrow> (Inl e, app')
      | (Inr household_id, app') \<Rightarrow> handler household_id app')"

definition validated :: "'p option \<Rightarrow> ('p \<Rightarrow> 'a \<Rightarrow> (failure + reply) \<times> 'a) \<Rightarrow> 'a \<Rightarrow> (failure + reply) \<times> 'a" where
  "validated payload handler app = (case payload of None \<Rightarrow> (Inl Validation, app) | Some p \<Rightarrow> handler p app)"

definition post_event ::
  "('k, 'd) world \<Rightarrow> json \<Rightarrow> uuid \<Rightarrow> ('k, 'd) app \<Rightarrow> (failure + reply) \<times> ('k, 'd) app" where
  "post_event w v household_id app =
     validated (inventory_event_create (w_pydantic w) v) (\<lambda>payload. append_event w payload household_id) app"

definition get_as_of ::
  "('k, 'd) world \<Rightarrow> string option \<Rightarrow> uuid \<Rightarrow> ('k, 'd) app \<Rightarrow> (failure + reply) \<times> ('k, 'd) app" where
  "get_as_of w timestamp household_id app =
     validated (Option.bind timestamp (\<lambda>s. pd_aware_datetime (w_pydantic w) (JStr s)))
       (\<lambda>t. snapshot_as_of w t household_id) app"

definition post_upload ::
  "('k, 'd) world \<Rightarrow> json \<Rightarrow> uuid \<Rightarrow> ('k, 'd) app \<Rightarrow> (failure + reply) \<times> ('k, 'd) app" where
  "post_upload w v household_id app =
     (case ensure_receipt_store w app of
        Inl e \<Rightarrow> (Inl e, app)
      | Inr (st, app') \<Rightarrow>
          validated (upload_request v) (\<lambda>content_type. request_upload w content_type household_id st) app')"

definition post_confirm ::
  "('k, 'd) world \<Rightarrow> string \<Rightarrow> uuid \<Rightarrow> ('k, 'd) app \<Rightarrow> (failure + reply) \<times> ('k, 'd) app" where
  "post_confirm w upload_id household_id app =
     validated (pd_uuid (w_pydantic w) (JStr upload_id)) (\<lambda>i. confirm_upload w i household_id) app"

fun handle ::
  "('k, 'd) world \<Rightarrow> string option \<Rightarrow> request \<Rightarrow> ('k, 'd) app \<Rightarrow> (failure + reply) \<times> ('k, 'd) app" where
  "handle w credentials (PostEvent b) app =
     (case read_body b of Inl e \<Rightarrow> (Inl e, app) | Inr v \<Rightarrow> protected w credentials (post_event w v) app)"
| "handle w credentials GetInventory app = protected w credentials (current_snapshot w) app"
| "handle w credentials (GetInventoryAsOf timestamp) app = protected w credentials (get_as_of w timestamp) app"
| "handle w credentials (PostUpload b) app =
     (case read_body b of Inl e \<Rightarrow> (Inl e, app) | Inr v \<Rightarrow> protected w credentials (post_upload w v) app)"
| "handle w credentials (PostConfirm upload_id) app = protected w credentials (post_confirm w upload_id) app"
| "handle w credentials GetHealth app = (Inr (health w), app)"
| "handle w credentials GetHealthDeep app = health_deep w app"
| "handle w credentials GetRoot app = (Inr (root w), app)"

text \<open>The endpoints of the two routers that depend on a principal, and the request whose body cannot be read.\<close>

fun is_protected :: "request \<Rightarrow> bool" where
  "is_protected GetHealth = False"
| "is_protected GetHealthDeep = False"
| "is_protected GetRoot = False"
| "is_protected _ = True"

fun body_failure :: "request \<Rightarrow> failure option" where
  "body_failure (PostEvent b) = (case read_body b of Inl e \<Rightarrow> Some e | Inr _ \<Rightarrow> None)"
| "body_failure (PostUpload b) = (case read_body b of Inl e \<Rightarrow> Some e | Inr _ \<Rightarrow> None)"
| "body_failure _ = None"

definition serve ::
  "('k, 'd) world \<Rightarrow> string option \<Rightarrow> request \<Rightarrow> ('k, 'd) app \<Rightarrow> reply \<times> ('k, 'd) app" where
  "serve w credentials req app =
     (case handle w credentials req app of
        (Inl e, app') \<Rightarrow> (exception_response e, app')
      | (Inr r, app') \<Rightarrow> (r, app'))"

subsection \<open>Starting and stopping\<close>

definition startup :: "('k, 'd) world \<Rightarrow> ('k, 'd) app \<Rightarrow> failure + ('k, 'd) app" where
  "startup w app =
     bind_sum (settings_of w) (\<lambda>_.
     bind_sum (ensure_database w app) (\<lambda>(d, app).
     bind_sum (ensure_verifier w app) (\<lambda>(v, app).
     bind_sum (ensure_receipt_store w app) (\<lambda>(st, app).
       case warm (w_outside w) (w_provider_now w) (w_provider_failed_at w) d of
         (Inl _, _) \<Rightarrow> Inl Unhandled
       | (Inr _, d') \<Rightarrow> Inr (app\<lparr>app_database := Some d'\<rparr>)))))"

definition shutdown :: "('k, 'd) app \<Rightarrow> ('k, 'd) app" where
  "shutdown app = app\<lparr>app_database := map_option dispose (app_database app)\<rparr>"

subsection \<open>What each dependency leaves alone\<close>

lemma authenticate_frame:
  assumes "authenticate w c app = (r, app')"
  shows "app_db app' = app_db app" "app_database app' = app_database app" "app_receipt_store app' = app_receipt_store app"
  using assms
  by (auto simp: authenticate_def ensure_verifier_def bind_sum_def split: sum.splits prod.splits option.splits)

lemma get_session_frame:
  assumes "get_session w app = (r, app')"
  shows "app_db app' = app_db app" "app_verifier app' = app_verifier app" "app_receipt_store app' = app_receipt_store app"
  using assms
  by (auto simp: get_session_def ensure_database_def bind_sum_def
      split: sum.splits prod.splits option.splits provider_error.splits)

lemma get_household_id_Inr:
  assumes "get_household_id w p app = (Inr h, app')"
  obtains created db where "principal_household_id p = Inr h" "w_connection w = Connected"
    "ensure (w_household_now w) h (household_name p) ''Europe/London'' (app_db app) = Inr (created, db)"
    "app' = (if created then app\<lparr>app_db := db\<rparr> else app)"
  using assms by (auto simp: get_household_id_def split: sum.splits prod.splits connection.splits)

lemma get_household_id_Inl: "get_household_id w p app = (Inl e, app') \<Longrightarrow> app' = app"
  by (auto simp: get_household_id_def split: sum.splits prod.splits connection.splits)

lemma dependencies_Inr:
  assumes "dependencies w c app = (Inr h, app')"
  obtains p app1 app2 where "authenticate w c app = (Inr p, app1)" "get_session w app1 = (Inr (), app2)"
    "get_household_id w p app2 = (Inr h, app')" "app_db app2 = app_db app"
proof -
  obtain p app1 where 1: "authenticate w c app = (Inr p, app1)"
    using assms by (auto simp: dependencies_def split: prod.splits sum.splits)
  moreover obtain app2 where 2: "get_session w app1 = (Inr (), app2)"
    using assms 1 by (auto simp: dependencies_def split: prod.splits sum.splits)
  moreover have "get_household_id w p app2 = (Inr h, app')"
    using assms 1 2 by (simp add: dependencies_def)
  ultimately show thesis
    using that authenticate_frame(1)[OF 1] get_session_frame(1)[OF 2] by simp
qed

lemma dependencies_Inl: "dependencies w c app = (Inl e, app') \<Longrightarrow> app_db app' = app_db app"
proof -
  assume e: "dependencies w c app = (Inl e, app')"
  obtain r app1 where 1: "authenticate w c app = (r, app1)"
    by (cases "authenticate w c app")
  obtain s app2 where 2: "get_session w app1 = (s, app2)"
    by (cases "get_session w app1")
  have "app' = app1 \<or> app' = app2"
    using e 1 2 by (auto simp: dependencies_def get_household_id_Inl split: sum.splits)
  then show ?thesis
    using authenticate_frame(1)[OF 1] get_session_frame(1)[OF 2] by auto
qed

end
