(* ===== verification/Service_Tenancy.thy ===== *)
theory Service_Tenancy
  imports Api_Service
begin

section \<open>Requests and tenancy\<close>

text \<open>
  What a request may do to the database and to whom.  \<open>tenant_view\<close> is everything the tables hold of one household.  The
  locale \<open>household_handler\<close> is the contract every protected handler meets -- it changes the database only through the
  tables' statements, and only what belongs to the household it is given -- and what follows for a request: the
  dependencies in front of the handler decide the household from the token, so a request of one household is
  invisible to every other.
\<close>

definition tenant_view ::
  "uuid \<Rightarrow> kitchen_db \<Rightarrow> household_row list \<times> event_row list \<times> snapshot_row list \<times> upload_row list" where
  "tenant_view g db =
     (filter (\<lambda>r. hr_id r = g) (db_households db), filter (\<lambda>r. er_household_id r = g) (db_events db),
      filter (\<lambda>r. sr_household_id r = g) (db_snapshots db), filter (\<lambda>r. ur_household_id r = g) (db_uploads db))"

subsection \<open>The repositories' writes, seen by others\<close>

lemma ensure_write:
  assumes "db_ok db" and "ensure now h name tz db = Inr (created, db')"
  shows "db_step\<^sup>*\<^sup>* db db'" and "g \<noteq> h \<Longrightarrow> tenant_view g db' = tenant_view g db" and "\<not> created \<Longrightarrow> db' = db"
    and "db_events db' = db_events db"
proof -
  let ?row = "\<lparr>hr_id = h, hr_name = name, hr_timezone = tz, hr_created_at = now\<rparr>"
  have "db_step\<^sup>*\<^sup>* db db' \<and> (g \<noteq> h \<longrightarrow> tenant_view g db' = tenant_view g db) \<and> (\<not> created \<longrightarrow> db' = db) \<and>
      db_events db' = db_events db"
  proof (cases "household_exists db h")
    case True
    with assms show ?thesis by (simp add: ensure_unfold)
  next
    case False
    then obtain r where ins: "insert_household_if_new ?row db = Inr (r, db')" and created: "created \<longleftrightarrow> r \<noteq> None"
      using assms by (auto simp: ensure_unfold ensure_insert_def bind_sum_Inr_iff)
    then have "db_step db db'"
      by (intro db_step.intros[of "InsertHousehold ?row"]) simp
    moreover obtain q where q: "store_household ?row = Inr q" and res: "if household_exists db (hr_id q)
        then r = None \<and> db' = db else r = Some (hr_id q) \<and> db' = db\<lparr>db_households := db_households db @ [q]\<rparr>"
      using ins by (auto simp: insert_household_if_new_Inr)
    moreover have "hr_id q = h"
      using store_household_stored[OF q] by simp
    ultimately show ?thesis
      using created by (auto simp: tenant_view_def split: if_splits)
  qed
  then show "db_step\<^sup>*\<^sup>* db db'" and "g \<noteq> h \<Longrightarrow> tenant_view g db' = tenant_view g db" and "\<not> created \<Longrightarrow> db' = db"
    and "db_events db' = db_events db"
    by simp_all
qed

lemma append_if_new_write:
  assumes "append_if_new i now h e db = Inr ((event, created), db')"
  shows "db_step\<^sup>*\<^sup>* db db'" and "g \<noteq> h \<Longrightarrow> tenant_view g db' = tenant_view g db"
proof -
  show "db_step\<^sup>*\<^sup>* db db'"
    using append_if_new_step[OF assms] by blast
  show "tenant_view g db' = tenant_view g db" if "g \<noteq> h"
    using assms
  proof (cases rule: append_if_new_cases)
    case (1 r)
    then show ?thesis
      using that by (auto simp: insert_event_if_new_Inr tenant_view_def dest: store_event_same(2) split: if_splits)
  qed simp
qed

lemma record_request_write:
  assumes "record_request h i b ct req exp db = Inr (u, db')"
  shows "db_step\<^sup>*\<^sup>* db db'" and "g \<noteq> h \<Longrightarrow> tenant_view g db' = tenant_view g db" and "db_events db' = db_events db"
    and "ru_id u = i" and "ru_household_id u = h" and "ru_blob_name u = b"
proof -
  let ?row = "\<lparr>ur_id = i, ur_household_id = h, ur_blob_name = b, ur_content_type = ct, ur_requested_at = req,
      ur_expires_at = exp, ur_confirmed_at = None\<rparr>"
  obtain r where ins: "insert_upload ?row db = Inr (r, db')" and u: "u = upload_to_domain ?row"
    using assms by (auto simp: record_request_def bind_sum_Inr_iff)
  have "db_step db db'"
    by (rule db_step.intros[of "InsertUpload ?row"]) (simp add: ins)
  then show "db_step\<^sup>*\<^sup>* db db'"
    by blast
  have "ur_household_id r = h"
    using ins by (auto simp: insert_upload_Inr store_upload_def bind_sum_Inr_iff)
  with ins show "g \<noteq> h \<Longrightarrow> tenant_view g db' = tenant_view g db" and "db_events db' = db_events db"
    by (auto simp: insert_upload_Inr tenant_view_def)
  show "ru_id u = i" and "ru_household_id u = h" and "ru_blob_name u = b"
    by (simp_all add: u upload_to_domain_def)
qed

lemma confirm_write:
  assumes ok: "db_ok db" and "confirm h i at db = Inr (res, db')"
  shows "db_step\<^sup>*\<^sup>* db db'" and "g \<noteq> h \<Longrightarrow> tenant_view g db' = tenant_view g db" and "db_events db' = db_events db"
    and "res = None \<Longrightarrow> db' = db"
proof -
  have "db_step\<^sup>*\<^sup>* db db' \<and> (g \<noteq> h \<longrightarrow> tenant_view g db' = tenant_view g db) \<and> db_events db' = db_events db \<and>
      (res = None \<longrightarrow> db' = db)"
  proof (cases "find (\<lambda>r. ur_id r = i) (scoped_uploads db h)")
    case None
    then show ?thesis
      using assms by (simp add: confirm_cases[OF ok])
  next
    case (Some r)
    note r = find_upload[OF Some]
    show ?thesis
    proof (cases "db' = db")
      case False
      then have upd: "update_confirmed_at i at db = Inr db'" and res: "res \<noteq> None"
        using assms(2) r Some by (auto simp: confirm_def upload_row_find[OF ok] bind_sum_Inr_iff split: if_splits)
      have "db_step db db'"
        by (rule db_step.intros[of "ConfirmUpload i at"]) (simp add: upd)
      moreover have db': "db' = db\<lparr>db_uploads := map (set_confirmed i at) (db_uploads db)\<rparr>"
        using upd by (simp add: update_confirmed_at_Inr)
      moreover have "map (set_confirmed i at) (filter (\<lambda>q. ur_household_id q = g) (db_uploads db)) =
          filter (\<lambda>q. ur_household_id q = g) (db_uploads db)" if "g \<noteq> h"
      proof (rule map_idI)
        fix q
        assume q: "q \<in> set (filter (\<lambda>q. ur_household_id q = g) (db_uploads db))"
        have "q = r" if "ur_id q = i"
          using ok q r that by (auto simp: db_ok_def uploads_ok_def distinct_map intro: inj_onD[of ur_id])
        then show "set_confirmed i at q = q"
          using q r \<open>g \<noteq> h\<close> by (cases "ur_id q = i") auto
      qed
      ultimately show ?thesis
        using res by (auto simp: tenant_view_def filter_map comp_def)
    qed (use assms(2) in \<open>simp add: rtranclp.rtrancl_refl\<close>)
  qed
  then show "db_step\<^sup>*\<^sup>* db db'" and "g \<noteq> h \<Longrightarrow> tenant_view g db' = tenant_view g db" and "db_events db' = db_events db"
    and "res = None \<Longrightarrow> db' = db"
    by simp_all
qed

subsection \<open>The contract of a protected handler\<close>

locale household_handler =
  fixes run :: "uuid \<Rightarrow> ('k, 'd) app \<Rightarrow> (failure + reply) \<times> ('k, 'd) app"
  assumes run_steps: "db_ok (app_db app) \<Longrightarrow> run h app = (r, app') \<Longrightarrow> db_step\<^sup>*\<^sup>* (app_db app) (app_db app')"
    and run_isolated: "db_ok (app_db app) \<Longrightarrow> run h app = (r, app') \<Longrightarrow> g \<noteq> h \<Longrightarrow>
      tenant_view g (app_db app') = tenant_view g (app_db app)"
begin

lemma protected_cases:
  assumes ok: "db_ok (app_db app)" and "protected w c run app = (r, app')"
  obtains e where "dependencies w c app = (Inl e, app')" "r = Inl e" "app_db app' = app_db app"
  | h p app1 app3 where "dependencies w c app = (Inr h, app3)" "authenticate w c app = (Inr p, app1)"
      "principal_household_id p = Inr h" "run h app3 = (r, app')" "db_step\<^sup>*\<^sup>* (app_db app) (app_db app3)"
      "\<And>g. g \<noteq> h \<Longrightarrow> tenant_view g (app_db app3) = tenant_view g (app_db app)"
proof -
  obtain d app3 where d: "dependencies w c app = (d, app3)"
    by (cases "dependencies w c app")
  show thesis
  proof (cases d)
    case (Inl e)
    with d assms(2) show thesis
      by (intro that(1)[of e]) (auto simp: protected_def dest: dependencies_Inl)
  next
    case (Inr h)
    from dependencies_Inr[OF d[unfolded Inr]] obtain p app1 app2 where
      1: "authenticate w c app = (Inr p, app1)" and 2: "get_household_id w p app2 = (Inr h, app3)"
      and 3: "app_db app2 = app_db app"
      by blast
    from get_household_id_Inr[OF 2] obtain created db where h: "principal_household_id p = Inr h"
      and ens: "ensure (w_household_now w) h (household_name p) ''Europe/London'' (app_db app) = Inr (created, db)"
      and app3: "app3 = (if created then app2\<lparr>app_db := db\<rparr> else app2)"
      unfolding 3 by blast
    have "app_db app3 = db"
      using app3 ensure_write(3)[OF ok ens] 3 by auto
    with Inr d 1 h ensure_write(1,2)[OF ok ens] assms(2) show thesis
      by (intro that(2)[of h app3 p app1]) (simp_all add: protected_def)
  qed
qed

lemma protected_steps:
  assumes "db_ok (app_db app)" and "protected w c run app = (r, app')"
  shows "db_step\<^sup>*\<^sup>* (app_db app) (app_db app')"
  using assms
proof (cases rule: protected_cases)
  case (2 h p app1 app3)
  then have "db_step\<^sup>*\<^sup>* (app_db app3) (app_db app')"
    using run_steps db_steps_ok assms(1) by blast
  with 2 show ?thesis
    by (meson rtranclp_trans)
qed simp

lemma protected_isolated:
  assumes "db_ok (app_db app)" and "protected w c run app = (r, app')"
    and "\<And>p. fst (authenticate w c app) = Inr p \<Longrightarrow> principal_household_id p \<noteq> Inr g"
  shows "tenant_view g (app_db app') = tenant_view g (app_db app)"
  using assms(1,2)
proof (cases rule: protected_cases)
  case (2 h p app1 app3)
  then have "g \<noteq> h"
    using assms(3)[of p] by auto
  with 2 run_isolated[of app3 h r app' g] db_steps_ok[OF 2(5) assms(1)] show ?thesis
    by simp
qed simp

end

subsection \<open>The handlers meet it\<close>

lemma append_event_cases:
  assumes "append_event w p h app = (r, app')"
  obtains event created db where
    "append_if_new (w_new_id w) (w_transaction_now w) h (create_to_domain p) (app_db app) = Inr ((event, created), db)"
    "app' = app\<lparr>app_db := db\<rparr>"
    "r = Inr (respond (if \<not> created then 200 else 201) (EventBody (event_response_from_domain (w_pydantic w) event)))"
  | e where "append_if_new (w_new_id w) (w_transaction_now w) h (create_to_domain p) (app_db app) = Inl e"
    "app' = app" "isl r"
proof (cases "append_if_new (w_new_id w) (w_transaction_now w) h (create_to_domain p) (app_db app)")
  case (Inl e)
  have "app' = app \<and> isl r"
    using assms Inl by (cases e) (auto simp: append_event_def split: db_error.splits)
  with Inl show thesis
    using that(2) by blast
next
  case (Inr x)
  obtain event created db where x: "x = ((event, created), db)"
    by (metis prod.exhaust)
  show thesis
    by (rule that(1)[OF Inr[unfolded x]]) (use assms Inr x in \<open>auto simp: append_event_def\<close>)
qed

lemma snapshot_at_frame: "snapshot_at w t h app = (r, app') \<Longrightarrow> app' = app"
  by (auto simp: snapshot_at_def split: sum.splits)

lemma ensure_receipt_store_frame:
  "ensure_receipt_store w app = Inr (st, app') \<Longrightarrow> app_db app' = app_db app \<and> app_verifier app' = app_verifier app"
  by (auto simp: ensure_receipt_store_def bind_sum_Inr_iff split: option.splits)

lemma request_upload_cases:
  assumes "request_upload w ct h st app = (r, app')"
  obtains t st' u db where
    "upload_ticket (w_sign w) (w_fetch_key w) h (w_uuid4 w) (w_now w) ct st = (Inr t, st')"
    "record_request h (w_uuid4 w) (ut_blob_name t) (content_type_value (ut_content_type t)) (w_now w) (ut_expires_at t)
       (app_db app) = Inr (u, db)"
    "app' = app\<lparr>app_receipt_store := Some st', app_db := db\<rparr>"
    "r = Inr (respond 201 (TicketBody (ticket_response_of u ct t (w_pydantic w))))"
  | "app_db app' = app_db app" "isl r"
proof -
  obtain x st' where ticket: "upload_ticket (w_sign w) (w_fetch_key w) h (w_uuid4 w) (w_now w) ct st = (x, st')"
    by (cases "upload_ticket (w_sign w) (w_fetch_key w) h (w_uuid4 w) (w_now w) ct st")
  show thesis
  proof (cases x)
    case (Inl e)
    with assms ticket show thesis by (intro that(2)) (auto simp: request_upload_def Let_def)
  next
    case (Inr t)
    note defs = request_upload_def Let_def ticket Inr
    let ?rec = "record_request h (w_uuid4 w) (ut_blob_name t) (content_type_value (ut_content_type t)) (w_now w)
        (ut_expires_at t) (app_db app)"
    show thesis
    proof (cases ?rec)
      case (Inl e)
      with assms show thesis by (intro that(2)) (auto simp: defs)
    next
      case rec: (Inr y)
      obtain u db where y: "y = (u, db)" by (cases y)
      show thesis
        using assms rec[unfolded y]
        by (intro that(1)[OF ticket[unfolded Inr] rec[unfolded y]]) (simp_all add: request_upload_def Let_def ticket[unfolded Inr])
    qed
  qed
qed

lemma confirm_upload_cases:
  assumes "confirm_upload w i h app = (r, app')"
  obtains u db where "confirm h i (w_now w) (app_db app) = Inr (Some u, db)" "app' = app\<lparr>app_db := db\<rparr>"
    "r = (case confirmation_from_domain (w_pydantic w) u of None \<Rightarrow> Inl Unhandled | Some c \<Rightarrow> Inr (respond 200 (ConfirmationBody c)))"
  | db where "confirm h i (w_now w) (app_db app) = Inr (None, db)" "app' = app"
    "r = Inl (Http (http_exception_of 404 (''No upload was requested with that id. Ask for an upload URL '' @
              ''first, then confirm the id it returns.'')))"
  | e where "confirm h i (w_now w) (app_db app) = Inl e" "app' = app" "r = Inl Unhandled"
proof (cases "confirm h i (w_now w) (app_db app)")
  case (Inl e)
  with assms show thesis by (intro that(3)[of e]) (simp_all add: confirm_upload_def)
next
  case (Inr x)
  obtain res db where x: "x = (res, db)" by (cases x)
  show thesis
  proof (cases res)
    case None
    with assms Inr x show thesis by (intro that(2)[of db]) (simp_all add: confirm_upload_def)
  next
    case (Some u)
    with assms Inr x show thesis
      by (intro that(1)[of u db]) (simp_all add: confirm_upload_def split: option.splits)
  qed
qed

lemma validated_cases:
  assumes "validated payload run app = (r, app')"
  obtains "payload = None" "r = Inl Validation" "app' = app" | p where "payload = Some p" "run p app = (r, app')"
  using assms by (auto simp: validated_def split: option.splits)

interpretation posted: household_handler "post_event w v" for w :: "('k, 'd) world" and v
proof
  fix h r g and app app' :: "('k, 'd) app"
  assume ok: "db_ok (app_db app)" and run: "post_event w v h app = (r, app')"
  then have "app' = app \<or> (\<exists>p e. append_if_new (w_new_id w) (w_transaction_now w) h (create_to_domain p) (app_db app) =
      Inr (e, app_db app'))"
    by (auto simp: post_event_def elim!: validated_cases append_event_cases)
  then show "db_step\<^sup>*\<^sup>* (app_db app) (app_db app')" and "g \<noteq> h \<Longrightarrow> tenant_view g (app_db app') = tenant_view g (app_db app)"
    by (auto intro: append_if_new_write)
qed

interpretation current: household_handler "current_snapshot w" for w :: "('k, 'd) world"
  by unfold_locales (auto simp: current_snapshot_def dest!: snapshot_at_frame)

interpretation dated: household_handler "get_as_of w timestamp" for w :: "('k, 'd) world" and timestamp
  by unfold_locales (auto simp: get_as_of_def snapshot_as_of_def elim!: validated_cases dest!: snapshot_at_frame)

lemma post_upload_cases:
  assumes "post_upload w v h app = (r, app')"
  obtains ct st app1 where "ensure_receipt_store w app = Inr (st, app1)" "upload_request v = Some ct"
    "request_upload w ct h st app1 = (r, app')" "app_db app1 = app_db app"
  | "app_db app' = app_db app" "isl r"
proof (cases "ensure_receipt_store w app")
  case (Inl e)
  then show thesis
    using assms by (intro that(2)) (auto simp: post_upload_def)
next
  case (Inr x)
  obtain st app1 where x: "x = (st, app1)" by (cases x)
  note frame = ensure_receipt_store_frame[OF Inr[unfolded x]]
  show thesis
  proof (cases "upload_request v")
    case None
    with assms Inr x frame show thesis by (intro that(2)) (auto simp: post_upload_def validated_def)
  next
    case (Some ct)
    with assms Inr x frame show thesis by (intro that(1)[of st app1 ct]) (simp_all add: post_upload_def validated_def)
  qed
qed

interpretation requested: household_handler "post_upload w v" for w :: "('k, 'd) world" and v
proof
  fix h r g and app app' :: "('k, 'd) app"
  assume ok: "db_ok (app_db app)" and run: "post_upload w v h app = (r, app')"
  then have "app_db app' = app_db app \<or> (\<exists>i b c t e u. record_request h i b c t e (app_db app) = Inr (u, app_db app'))"
    by (auto elim!: post_upload_cases request_upload_cases)
  then show "db_step\<^sup>*\<^sup>* (app_db app) (app_db app')" and "g \<noteq> h \<Longrightarrow> tenant_view g (app_db app') = tenant_view g (app_db app)"
    by (auto intro: record_request_write)
qed

interpretation confirmed: household_handler "post_confirm w upload_id" for w :: "('k, 'd) world" and upload_id
proof
  fix h r g and app app' :: "('k, 'd) app"
  assume ok: "db_ok (app_db app)" and run: "post_confirm w upload_id h app = (r, app')"
  then have "app' = app \<or> (\<exists>i res. confirm h i (w_now w) (app_db app) = Inr (res, app_db app'))"
    by (auto simp: post_confirm_def elim!: validated_cases confirm_upload_cases)
  then show "db_step\<^sup>*\<^sup>* (app_db app) (app_db app')" and "g \<noteq> h \<Longrightarrow> tenant_view g (app_db app') = tenant_view g (app_db app)"
    using confirm_write[OF ok] by blast+
qed

subsection \<open>Requests\<close>

lemma health_deep_frame: "health_deep w app = (r, app') \<Longrightarrow> app_db app' = app_db app"
  by (auto simp: health_deep_def ensure_database_def bind_sum_def split: sum.splits prod.splits option.splits)

lemmas protected_steps = posted.protected_steps current.protected_steps dated.protected_steps requested.protected_steps
  confirmed.protected_steps

lemma handle_steps:
  assumes "db_ok (app_db app)" and "handle w c req app = (r, app')"
  shows "db_step\<^sup>*\<^sup>* (app_db app) (app_db app')"
  using assms
  by (cases req) (auto split: sum.splits intro: protected_steps dest: health_deep_frame)

lemma handle_isolated:
  assumes "db_ok (app_db app)" and "handle w c req app = (r, app')"
    and "\<And>p. fst (authenticate w c app) = Inr p \<Longrightarrow> principal_household_id p \<noteq> Inr g"
  shows "tenant_view g (app_db app') = tenant_view g (app_db app)"
  using assms(2)
  by (cases req)
    (auto split: sum.splits dest: health_deep_frame
      intro: posted.protected_isolated[OF assms(1) _ assms(3)] current.protected_isolated[OF assms(1) _ assms(3)]
        dated.protected_isolated[OF assms(1) _ assms(3)] requested.protected_isolated[OF assms(1) _ assms(3)]
        confirmed.protected_isolated[OF assms(1) _ assms(3)])

lemma serve_handle: "serve w c req app = (rp, app') \<Longrightarrow> \<exists>r. handle w c req app = (r, app')"
  by (auto simp: serve_def split: prod.splits sum.splits)

text \<open>The life of the service: it starts, answers requests in any order, and stops.\<close>

inductive service_step :: "('k, 'd) app \<Rightarrow> ('k, 'd) app \<Rightarrow> bool" where
  starts: "startup w app = Inr app' \<Longrightarrow> service_step app app'"
| answers: "serve w c req app = (rp, app') \<Longrightarrow> service_step app app'"
| stops: "service_step app (shutdown app)"

lemma ensure_frames:
  "ensure_database w app = Inr (d, app') \<Longrightarrow> app_db app' = app_db app"
  "ensure_verifier w app = Inr (v, app') \<Longrightarrow> app_db app' = app_db app"
  by (auto simp: ensure_database_def ensure_verifier_def bind_sum_Inr_iff split: option.splits)

lemma startup_frame:
  assumes "startup w app = Inr app'"
  shows "app_db app' = app_db app"
proof -
  let ?warm = "\<lambda>d. warm (w_outside w) (w_provider_now w) (w_provider_failed_at w) d"
  obtain x y z where xyz: "ensure_database w app = Inr x" "ensure_verifier w (snd x) = Inr y"
    "ensure_receipt_store w (snd y) = Inr z"
    and res: "(case fst (?warm (fst x)) of Inl _ \<Rightarrow> Inl Unhandled
        | Inr _ \<Rightarrow> Inr ((snd z)\<lparr>app_database := Some (snd (?warm (fst x)))\<rparr>)) = Inr app'"
    using assms unfolding startup_def split_beta bind_sum_Inr_iff by blast
  have "app_db (snd z) = app_db app"
    using ensure_frames(1)[of w app "fst x" "snd x"] ensure_frames(2)[of w "snd x" "fst y" "snd y"]
      ensure_receipt_store_frame[of w "snd y" "fst z" "snd z"] xyz by simp
  moreover have "app_db app' = app_db (snd z)"
    using res by (auto split: sum.splits)
  ultimately show ?thesis by simp
qed

lemma service_step_db:
  assumes "service_step app app'" and "db_ok (app_db app)"
  shows "db_step\<^sup>*\<^sup>* (app_db app) (app_db app')"
  using assms
proof (induction rule: service_step.induct)
  case (answers w c req app rp app')
  then show ?case
    using serve_handle handle_steps by blast
qed (auto simp: shutdown_def dest: startup_frame)

lemma service_steps_db:
  assumes "service_step\<^sup>*\<^sup>* app app'" and "db_ok (app_db app)"
  shows "db_step\<^sup>*\<^sup>* (app_db app) (app_db app')"
  using assms
proof (induction rule: rtranclp_induct)
  case (step app1 app2)
  then have "db_step\<^sup>*\<^sup>* (app_db app1) (app_db app2)"
    using service_step_db db_steps_ok by blast
  with step show ?case
    by (meson rtranclp_trans)
qed simp

end
