(* ===== verification/Service_Behaviour.thy ===== *)
theory Service_Behaviour
  imports Service_Tenancy
begin

section \<open>Sequences of requests\<close>

text \<open>
  What one request finds of what earlier ones did: which status codes there are, a retried POST, a snapshot as of a past
  instant asked for again, an upload confirmed by its own household and by another.
\<close>

subsection \<open>Status codes\<close>

lemma get_principal_status:
  assumes "get_principal lib clock c v = (Inl (AuthRefused x), v')"
  shows "hx_status_code x \<in> {401, 503}"
  using assms
  by (auto simp: get_principal_def not_configured_exception_def unauthorized_def split: sum.splits prod.splits if_splits)

lemma authenticate_status:
  assumes "authenticate w c app = (Inl e, app')"
  shows "rp_status (exception_response e) \<in> {401, 500, 503}"
proof -
  consider "e = Unhandled" | x v v' where "e = Http x" "get_principal (w_lib w) (w_clock w) c v = (Inl (AuthRefused x), v')"
  proof (cases "ensure_verifier w app")
    case (Inl f)
    with assms show thesis
      by (intro that(1)) (auto simp: authenticate_def ensure_verifier_def settings_of_def bind_sum_def split: option.splits sum.splits)
  next
    case (Inr x)
    obtain v app1 where x: "x = (v, app1)" by (cases x)
    obtain g v' where g: "get_principal (w_lib w) (w_clock w) c v = (g, v')"
      by (cases "get_principal (w_lib w) (w_clock w) c v")
    obtain f where f: "g = Inl f" "e = auth_failure_of f"
      using assms Inr x g by (cases g) (auto simp: authenticate_def)
    show thesis
      using f g by (cases f) (auto intro: that)
  qed
  then show ?thesis
    using get_principal_status by cases (force simp: respond_def)+
qed

lemma dependencies_status:
  assumes "dependencies w c app = (Inl e, app')"
  shows "rp_status (exception_response e) \<in> {401, 500, 503}"
proof -
  obtain r app1 where 1: "authenticate w c app = (r, app1)"
    by (cases "authenticate w c app")
  obtain s app2 where 2: "get_session w app1 = (s, app2)"
    by (cases "get_session w app1")
  have s: "rp_status (exception_response f) \<in> {500, 503}" if "s = Inl f" for f
    using 2 that
    by (auto simp: get_session_def ensure_database_def settings_of_def http_exception_of_def respond_def bind_sum_def
        split: sum.splits prod.splits option.splits provider_error.splits)
  have h: "rp_status (exception_response f) \<in> {500, 503}" if "get_household_id w p app2 = (Inl f, app')" for p f
    using that by (auto simp: get_household_id_def respond_def split: sum.splits prod.splits connection.splits)
  consider "r = Inl e" | p where "r = Inr p" "s = Inl e" | p u where "r = Inr p" "s = Inr u" "get_household_id w p app2 = (Inl e, app')"
    using assms by (cases r; cases s) (auto simp: dependencies_def 1 2)
  then show ?thesis
    using s h authenticate_status 1 by cases fastforce+
qed

lemma post_event_status:
  assumes "post_event w v h app = (Inl e, app')"
  shows "rp_status (exception_response e) \<in> {409, 422, 500}"
  using assms
  by (auto simp: post_event_def validated_def append_event_def http_exception_of_def respond_def
      split: option.splits sum.splits repo_error.splits db_error.splits)

lemma protected_Inl:
  assumes "protected w c run app = (Inl e, app')"
  obtains "dependencies w c app = (Inl e, app')" | h app1 where "dependencies w c app = (Inr h, app1)" "run h app1 = (Inl e, app')"
proof -
  obtain d app1 where "dependencies w c app = (d, app1)"
    by (cases "dependencies w c app")
  with assms that show thesis
    by (cases d) (auto simp: protected_def)
qed

subsection \<open>A retried POST\<close>

lemma dependencies_known_household:
  assumes "db_ok (app_db app)" and "household_exists (app_db app) h" and "dependencies w c app = (Inr h, app')"
  shows "app_db app' = app_db app"
proof -
  from dependencies_Inr[OF assms(3)] obtain p app1 app2 where
    h: "get_household_id w p app2 = (Inr h, app')" and db: "app_db app2 = app_db app"
    by blast
  from get_household_id_Inr[OF h] assms(1,2) db show ?thesis
    by (auto simp: ensure_unfold)
qed

lemma dependencies_household_exists:
  assumes "db_ok (app_db app)" and "dependencies w c app = (Inr h, app')"
  shows "household_exists (app_db app') h" and "db_ok (app_db app')" and "db_events (app_db app') = db_events (app_db app)"
    and "db_uploads (app_db app') = db_uploads (app_db app)"
proof -
  from dependencies_Inr[OF assms(2)] obtain p app1 app2 where
    h: "get_household_id w p app2 = (Inr h, app')" and db: "app_db app2 = app_db app"
    by blast
  from get_household_id_Inr[OF h] db obtain created d where
    ens: "ensure (w_household_now w) h (household_name p) ''Europe/London'' (app_db app) = Inr (created, d)"
    and app': "app' = (if created then app2\<lparr>app_db := d\<rparr> else app2)"
    by metis
  have d: "app_db app' = d"
    using app' ensure_write(3)[OF assms(1) ens] db by auto
  have ok: "db_ok d"
    using ensure_write(1)[OF assms(1) ens] db_steps_ok assms(1) by blast
  with d show "db_ok (app_db app')" by simp
  show "household_exists (app_db app') h"
    using ens assms(1) ensure_insert_Inr(1) unfolding d by (auto simp: ensure_unfold split: if_splits)
  show "db_events (app_db app') = db_events (app_db app)"
    unfolding d by (rule ensure_write(4)[OF assms(1) ens])
  show "db_uploads (app_db app') = db_uploads (app_db app)"
    unfolding d using ens assms(1)
    by (auto simp: ensure_unfold ensure_insert_def bind_sum_Inr_iff insert_household_if_new_Inr split: if_splits)
qed

lemma create_key_length: "inventory_event_create pd v = Some p \<Longrightarrow> length (ne_idempotency_key (create_to_domain p)) \<le> 200"
  by (erule event_create_SomeE) (auto simp: create_to_domain_def dest!: str_field_SomeD)

lemma post_event_again:
  assumes ok: "db_ok (app_db app)" and first: "post_event w v h app = (Inr rp, app1)"
    and pd: "w_pydantic w' = w_pydantic w" and db: "app_db app2 = app_db app1"
  shows "\<exists>app3. post_event w' v h app2 = (Inr (rp\<lparr>rp_status := 200\<rparr>), app3) \<and> app_db app3 = app_db app1"
proof -
  obtain p where p: "inventory_event_create (w_pydantic w) v = Some p" "append_event w p h app = (Inr rp, app1)"
    using first by (auto simp: post_event_def elim: validated_cases)
  from p(2) obtain event created d where
    d: "append_if_new (w_new_id w) (w_transaction_now w) h (create_to_domain p) (app_db app) = Inr ((event, created), d)"
      "app1 = app\<lparr>app_db := d\<rparr>"
      "rp = respond (if \<not> created then 200 else 201) (EventBody (event_response_from_domain (w_pydantic w) event))"
    by (rule append_event_cases) auto
  have "append_if_new (w_new_id w') (w_transaction_now w') h (create_to_domain p) d = Inr ((event, False), d)"
    by (rule append_if_new_again[OF ok create_key_length[OF p(1)] d(1)])
  then show ?thesis
    using p(1) d pd db by (auto simp: post_event_def validated_def append_event_def respond_def)
qed

subsection \<open>The stamps of appended events\<close>

definition stamped_growth :: "datetime \<Rightarrow> kitchen_db \<Rightarrow> kitchen_db \<Rightarrow> bool" where
  "stamped_growth now db db' \<longleftrightarrow>
     (\<exists>new. db_events db' = db_events db @ new \<and> list_all (\<lambda>r. er_recorded_at r = now) new)"

lemma stamped_growth_same [simp]: "db_events db' = db_events db \<Longrightarrow> stamped_growth now db db'"
  by (simp add: stamped_growth_def)

lemma append_stamp:
  assumes "append_if_new i now h (create_to_domain p) db = Inr (res, db')"
  shows "stamped_growth now db db'"
proof -
  obtain event created where res: "res = (event, created)" by (cases res)
  show ?thesis
    using assms unfolding res
  proof (cases rule: append_if_new_cases)
    case (1 r)
    then have "db' = db\<lparr>db_events := db_events db @ [r]\<rparr>" "store_event (row_of_values i now (to_values h (create_to_domain p))) = Inr r"
      by (auto simp: insert_event_if_new_Inr split: if_splits)
    then show ?thesis
      using store_event_same(3) by (auto simp: stamped_growth_def row_of_values_def create_to_domain_def)
  qed simp
qed

lemma protected_stamp:
  assumes ok: "db_ok (app_db app)" and run: "protected w c run app = (r, app')"
    and handler: "\<And>h a r a'. db_ok (app_db a) \<Longrightarrow> run h a = (r, a') \<Longrightarrow> stamped_growth now (app_db a) (app_db a')"
  shows "stamped_growth now (app_db app) (app_db app')"
proof -
  obtain d app1 where d: "dependencies w c app = (d, app1)"
    by (cases "dependencies w c app")
  show ?thesis
  proof (cases d)
    case (Inl e)
    then show ?thesis
      using run d by (auto simp: protected_def dest!: dependencies_Inl)
  next
    case (Inr h)
    note deps = dependencies_household_exists[OF ok d[unfolded Inr]]
    have "run h app1 = (r, app')"
      using run d Inr by (simp add: protected_def)
    from handler[OF deps(2) this] deps(3) show ?thesis
      by (simp add: stamped_growth_def)
  qed
qed

lemma post_event_stamp: "post_event w v h app = (r, app') \<Longrightarrow> stamped_growth (w_transaction_now w) (app_db app) (app_db app')"
  by (auto simp: post_event_def elim!: validated_cases append_event_cases dest: append_stamp)

lemma post_upload_events: "post_upload w v h app = (r, app') \<Longrightarrow> db_events (app_db app') = db_events (app_db app)"
  by (auto elim!: post_upload_cases request_upload_cases dest: record_request_write(3))

lemma post_confirm_events:
  assumes "db_ok (app_db app)" and "post_confirm w i h app = (r, app')"
  shows "db_events (app_db app') = db_events (app_db app)"
  using assms(2) confirm_write(3)[OF assms(1)] by (auto simp: post_confirm_def elim!: validated_cases confirm_upload_cases)

lemma get_frames:
  "current_snapshot w h app = (r, app') \<Longrightarrow> app' = app" "get_as_of w ts h app = (r, app') \<Longrightarrow> app' = app"
  by (auto simp: current_snapshot_def get_as_of_def snapshot_as_of_def elim!: validated_cases dest: snapshot_at_frame)

lemma handle_stamp:
  assumes "db_ok (app_db app)" and "handle w c req app = (r, app')"
  shows "stamped_growth (w_transaction_now w) (app_db app) (app_db app')"
proof (cases req)
  case (PostEvent b)
  with assms show ?thesis
    by (auto split: sum.splits intro: protected_stamp post_event_stamp)
next
  case GetInventory
  with assms show ?thesis
    by (auto intro!: protected_stamp[OF assms(1), of w c "current_snapshot w"] dest!: get_frames)
next
  case (GetInventoryAsOf ts)
  with assms show ?thesis
    by (auto intro!: protected_stamp[OF assms(1), of w c "get_as_of w ts"] dest!: get_frames)
next
  case (PostUpload b)
  with assms show ?thesis
    by (auto split: sum.splits intro!: protected_stamp[OF assms(1)] dest!: post_upload_events)
next
  case (PostConfirm i)
  with assms show ?thesis
    by (auto intro!: protected_stamp[OF assms(1), of w c "post_confirm w i"] dest!: post_confirm_events)
next
  case GetHealthDeep
  with assms show ?thesis
    by (auto dest: health_deep_frame)
qed (use assms in auto)

text \<open>Requests whose transactions the database's clock stamps after an instant.\<close>

inductive later_step :: "datetime \<Rightarrow> ('k, 'd) app \<Rightarrow> ('k, 'd) app \<Rightarrow> bool" for t where
  "serve w c req app = (rp, app') \<Longrightarrow> t < w_transaction_now w \<Longrightarrow> later_step t app app'"

lemma later_steps_known:
  assumes "(later_step t)\<^sup>*\<^sup>* app app'" and "db_ok (app_db app)"
  shows "events_known_as_of (app_db app') h t p = events_known_as_of (app_db app) h t p \<and> db_ok (app_db app') \<and>
    (\<exists>new. db_events (app_db app') = db_events (app_db app) @ new)"
  using assms
proof (induction rule: rtranclp_induct)
  case (step app1 app2)
  then obtain w c req rp where s: "serve w c req app1 = (rp, app2)" "t < w_transaction_now w" and ok: "db_ok (app_db app1)"
    by (auto elim: later_step.cases)
  from serve_handle[OF s(1)] obtain r where r: "handle w c req app1 = (r, app2)"
    by blast
  from handle_stamp[OF ok r] obtain new where
    new: "db_events (app_db app2) = db_events (app_db app1) @ new" "list_all (\<lambda>r. er_recorded_at r = w_transaction_now w) new"
    by (auto simp: stamped_growth_def)
  have "events_known_as_of (app_db app2) h t p = events_known_as_of (app_db app1) h t p"
    by (rule known_as_of_later_rows[OF new(1)]) (use new(2) s(2) in \<open>auto simp: list_all_iff\<close>)
  moreover have "db_ok (app_db app2)"
    using handle_steps[OF ok r] db_steps_ok ok by blast
  ultimately show ?case
    using step new by auto
qed simp

lemma get_as_of_reply:
  assumes "pd_aware_datetime (w_pydantic w) (JStr ts) = Some t"
  shows "get_as_of w (Some ts) h app =
    (Inr (respond 200 (SnapshotBody (snapshot_response_from_domain (w_pydantic w) (projr (project_known_as_of (app_db app) h t))))), app)"
proof -
  obtain s where "project_known_as_of (app_db app) h t = Inr s"
    using project_total by blast
  then show ?thesis
    using assms by (simp add: get_as_of_def validated_def snapshot_as_of_def snapshot_at_def)
qed

subsection \<open>What a reply depends on\<close>

text \<open>The dependencies before the household do not look at the database's contents.\<close>

lemma authenticate_db:
  "authenticate w c (app\<lparr>app_db := d\<rparr>) = (fst (authenticate w c app), (snd (authenticate w c app))\<lparr>app_db := d\<rparr>)"
  by (auto simp: authenticate_def ensure_verifier_def bind_sum_def split: option.split sum.split prod.split)

lemma get_session_db:
  "get_session w (app\<lparr>app_db := d\<rparr>) = (fst (get_session w app), (snd (get_session w app))\<lparr>app_db := d\<rparr>)"
proof (cases "app_database app")
  case None
  then show ?thesis
    by (cases "settings_of w") (auto simp: get_session_def ensure_database_def split: prod.split sum.split provider_error.split)
next
  case (Some x)
  then show ?thesis
    by (auto simp: get_session_def ensure_database_def split: prod.split sum.split provider_error.split)
qed

lemma view_exists: "tenant_view h db = tenant_view h db' \<Longrightarrow> household_exists db h = household_exists db' h"
proof -
  have "household_exists db h \<longleftrightarrow> filter (\<lambda>r. hr_id r = h) (db_households db) \<noteq> []" for db
    by (force simp: household_exists_def filter_empty_conv)
  then show "tenant_view h db = tenant_view h db' \<Longrightarrow> household_exists db h = household_exists db' h"
    by (simp add: tenant_view_def)
qed

lemma ensure_same_result:
  assumes "db_ok db" "db_ok d" "household_exists db h = household_exists d h"
  shows "map_sum id fst (ensure now h name tz db) = map_sum id fst (ensure now h name tz d)"
proof (cases "household_exists db h")
  case True
  then show ?thesis
    using assms by (simp add: ensure_unfold)
next
  case False
  let ?row = "\<lparr>hr_id = h, hr_name = name, hr_timezone = tz, hr_created_at = now\<rparr>"
  show ?thesis
  proof (cases "store_household ?row")
    case (Inl e)
    then show ?thesis
      using assms False by (simp add: ensure_unfold ensure_insert_def insert_household_if_new_def)
  next
    case (Inr r)
    moreover have "hr_id r = h"
      using store_household_stored[OF Inr] by simp
    ultimately show ?thesis
      using assms False by (simp add: ensure_unfold ensure_insert_def insert_household_if_new_def)
  qed
qed

lemma get_household_id_same_result:
  assumes "db_ok (app_db app)" "db_ok d" "\<And>h. principal_household_id p = Inr h \<Longrightarrow> household_exists (app_db app) h = household_exists d h"
  shows "fst (get_household_id w p (app\<lparr>app_db := d\<rparr>)) = fst (get_household_id w p app)"
proof (cases "principal_household_id p")
  case (Inl e)
  then show ?thesis by (simp add: get_household_id_def)
next
  case (Inr h)
  note same = ensure_same_result[OF assms(1,2) assms(3)[OF Inr], of "w_household_now w" "household_name p" "''Europe/London''"]
  show ?thesis
    using same Inr
    by (cases "w_connection w"; cases "ensure (w_household_now w) h (household_name p) ''Europe/London'' (app_db app)";
        cases "ensure (w_household_now w) h (household_name p) ''Europe/London'' d")
      (auto simp: get_household_id_def split: prod.splits)
qed

definition same_household_view :: "('k, 'd) world \<Rightarrow> string option \<Rightarrow> ('k, 'd) app \<Rightarrow> kitchen_db \<Rightarrow> bool" where
  "same_household_view w c app d \<longleftrightarrow>
     (\<forall>p h. fst (authenticate w c app) = Inr p \<and> principal_household_id p = Inr h \<longrightarrow>
        tenant_view h (app_db app) = tenant_view h d)"

lemma dependencies_same_result:
  assumes ok: "db_ok (app_db app)" "db_ok d" and view: "same_household_view w c app d"
  shows "fst (dependencies w c (app\<lparr>app_db := d\<rparr>)) = fst (dependencies w c app)"
proof -
  obtain r app1 where 1: "authenticate w c app = (r, app1)"
    by (cases "authenticate w c app")
  obtain s app2 where 2: "get_session w app1 = (s, app2)"
    by (cases "get_session w app1")
  have db: "app_db app2 = app_db app"
    using authenticate_frame(1)[OF 1] get_session_frame(1)[OF 2] by simp
  have "fst (get_household_id w p (app2\<lparr>app_db := d\<rparr>)) = fst (get_household_id w p app2)" if "r = Inr p" for p
  proof (rule get_household_id_same_result)
    show "household_exists (app_db app2) h = household_exists d h" if "principal_household_id p = Inr h" for h
    proof -
      have "tenant_view h (app_db app) = tenant_view h d"
        using view 1 \<open>r = Inr p\<close> that by (simp add: same_household_view_def)
      from view_exists[OF this] show ?thesis
        by (simp add: db)
    qed
  qed (use ok db in simp_all)
  then show ?thesis
    using 1 2 by (cases r; cases s) (simp_all add: dependencies_def authenticate_db get_session_db)
qed

text \<open>What the household of a request sees of the tables once the dependencies have run.\<close>

lemma dependencies_same_rows:
  assumes ok: "db_ok (app_db app)" "db_ok d" and view: "same_household_view w c app d"
    and a: "dependencies w c app = (Inr h, app1)" and b: "dependencies w c (app\<lparr>app_db := d\<rparr>) = (Inr h, app2)"
  shows "scoped_events (app_db app1) h = scoped_events (app_db app2) h"
    and "scoped_uploads (app_db app1) h = scoped_uploads (app_db app2) h"
proof -
  from dependencies_Inr[OF a] obtain p app3 app4 where p: "authenticate w c app = (Inr p, app3)"
    and h: "get_household_id w p app4 = (Inr h, app1)"
    by blast
  from get_household_id_Inr[OF h] have "principal_household_id p = Inr h" .
  then have "tenant_view h (app_db app) = tenant_view h d"
    using view p by (auto simp: same_household_view_def)
  then show "scoped_events (app_db app1) h = scoped_events (app_db app2) h"
    and "scoped_uploads (app_db app1) h = scoped_uploads (app_db app2) h"
    using dependencies_household_exists(3,4)[OF ok(1) a] dependencies_household_exists(3,4)[of "app\<lparr>app_db := d\<rparr>", OF _ b] ok(2)
    by (simp_all add: tenant_view_def scoped_events_def scoped_uploads_def)
qed

lemma protected_same_reply:
  assumes ok: "db_ok (app_db app)" "db_ok d" and view: "same_household_view w c app d"
    and handler: "\<And>h a b. db_ok (app_db a) \<Longrightarrow> db_ok (app_db b) \<Longrightarrow> scoped_events (app_db a) h = scoped_events (app_db b) h \<Longrightarrow>
      scoped_uploads (app_db a) h = scoped_uploads (app_db b) h \<Longrightarrow> fst (run h a) = fst (run h b)"
  shows "fst (protected w c run (app\<lparr>app_db := d\<rparr>)) = fst (protected w c run app)"
proof -
  obtain r app1 where a: "dependencies w c app = (r, app1)"
    by (cases "dependencies w c app")
  obtain app2 where b: "dependencies w c (app\<lparr>app_db := d\<rparr>) = (r, app2)"
    using dependencies_same_result[OF ok view] a by (metis fst_conv prod.collapse)
  show ?thesis
  proof (cases r)
    case (Inl e)
    with a b show ?thesis by (simp add: protected_def)
  next
    case (Inr h)
    note rows = dependencies_same_rows[OF ok view a[unfolded Inr] b[unfolded Inr]]
    have "fst (run h app1) = fst (run h app2)"
      using dependencies_household_exists(2)[OF ok(1) a[unfolded Inr]]
        dependencies_household_exists(2)[of "app\<lparr>app_db := d\<rparr>", OF _ b[unfolded Inr]] ok(2) rows
      by (intro handler) simp_all
    with a b Inr show ?thesis by (simp add: protected_def)
  qed
qed

lemma snapshot_at_rows:
  "scoped_events (app_db a) h = scoped_events (app_db b) h \<Longrightarrow> fst (snapshot_at w t h a) = fst (snapshot_at w t h b)"
  by (auto simp: snapshot_at_def project_known_as_of_def events_known_as_of_def split: sum.split)

lemma confirm_upload_rows:
  assumes "db_ok (app_db a)" "db_ok (app_db b)" "scoped_uploads (app_db a) h = scoped_uploads (app_db b) h"
  shows "fst (confirm_upload w i h a) = fst (confirm_upload w i h b)"
  using assms by (auto simp: confirm_upload_def confirm_cases split: option.split)

subsection \<open>Uploads\<close>

lemma post_upload_status:
  assumes "post_upload w v h app = (Inl e, app')"
  shows "rp_status (exception_response e) \<in> {422, 500, 503}"
proof (cases "ensure_receipt_store w app")
  case (Inl f)
  with assms show ?thesis
    by (auto simp: post_upload_def ensure_receipt_store_def settings_of_def bind_sum_def respond_def split: option.splits sum.splits)
next
  case (Inr x)
  with assms show ?thesis
    by (auto simp: post_upload_def validated_def request_upload_def Let_def respond_def
        split: option.splits sum.splits prod.splits)
qed

lemma blob_name_no_space: "CHR '' '' \<notin> set (receipt_blob_name h u t)"
  using set_blob_name[of h u t] by (auto simp: uuid_alphabet_eval)

lemma varchar_no_space: "varchar n s = Inr s' \<Longrightarrow> CHR '' '' \<notin> set s \<Longrightarrow> s' = s"
proof -
  assume v: "varchar n s = Inr s'" and s: "CHR '' '' \<notin> set s"
  have "drop n s = []" if "list_all (\<lambda>c. c = CHR '' '') (drop n s)"
    using that s in_set_dropD[of _ n s] by (cases "drop n s") auto
  with v show "s' = s"
    by (auto simp: varchar_def split: if_splits)
qed

lemma post_upload_recorded:
  assumes "post_upload w v h app = (Inr rp, app1)"
  obtains row t where "db_uploads (app_db app1) = db_uploads (app_db app) @ [row]"
    "ur_id row = w_uuid4 w" "ur_household_id row = h" "ur_requested_at row = w_now w" "ur_confirmed_at row = None"
    "ur_blob_name row = receipt_blob_name h (w_uuid4 w) (w_now w)"
    "rp = respond 201 (TicketBody t)" "rt_upload_id t = w_uuid4 w" "rt_household_id t = h"
    "rt_expires_at t = ur_expires_at row" "household_exists (app_db app1) h"
proof -
  from assms obtain ct st app2 where req: "request_upload w ct h st app2 = (Inr rp, app1)" "app_db app2 = app_db app"
    by (rule post_upload_cases) auto
  from req(1) obtain t st' u db where tk: "upload_ticket (w_sign w) (w_fetch_key w) h (w_uuid4 w) (w_now w) ct st = (Inr t, st')"
    and rec: "record_request h (w_uuid4 w) (ut_blob_name t) (content_type_value (ut_content_type t)) (w_now w) (ut_expires_at t)
       (app_db app2) = Inr (u, db)"
    and app1: "app1 = app2\<lparr>app_receipt_store := Some st', app_db := db\<rparr>"
    and rp: "rp = respond 201 (TicketBody (ticket_response_of u ct t (w_pydantic w)))"
    by (rule request_upload_cases) auto
  have name: "ut_blob_name t = receipt_blob_name h (w_uuid4 w) (w_now w)"
    using tk by (auto simp: upload_ticket_Inr)
  let ?row = "\<lparr>ur_id = w_uuid4 w, ur_household_id = h, ur_blob_name = ut_blob_name t,
      ur_content_type = content_type_value (ut_content_type t), ur_requested_at = w_now w,
      ur_expires_at = ut_expires_at t, ur_confirmed_at = None\<rparr>"
  obtain r where r: "insert_upload ?row (app_db app) = Inr (r, db)"
    using rec req(2) by (auto simp: record_request_def bind_sum_Inr_iff)
  then have "store_upload ?row = Inr r" "upload_refs (app_db app) r"
    and db: "db = (app_db app)\<lparr>db_uploads := db_uploads (app_db app) @ [r]\<rparr>"
    by (auto simp: insert_upload_Inr)
  moreover from this have "ur_blob_name r = ut_blob_name t"
    using varchar_no_space[of 400 "ut_blob_name t"] blob_name_no_space[of h "w_uuid4 w" "w_now w"]
    by (auto simp: store_upload_def bind_sum_Inr_iff name)
  ultimately show thesis
    using record_request_write(4,5)[OF rec] app1 rp name
    by (intro that[of r "ticket_response_of u ct t (w_pydantic w)"])
      (auto simp: store_upload_def bind_sum_Inr_iff ticket_response_of_def upload_refs_def household_exists_def)
qed

lemma post_confirm_found:
  assumes ok: "db_ok (app_db app)" and row: "row \<in> set (db_uploads (app_db app))" "ur_household_id row = h"
    and fresh: "ur_confirmed_at row = None" "ur_requested_at row \<le> w_now w"
    and i: "pd_uuid (w_pydantic w) (JStr i) = Some (ur_id row)"
  shows "\<exists>c app'. post_confirm w i h app = (Inr (respond 200 (ConfirmationBody c)), app') \<and>
    rc_upload_id c = ur_id row \<and> rc_household_id c = h \<and> rc_confirmed_at c = w_now w"
proof -
  have "row \<in> set (scoped_uploads (app_db app) h)"
    using row by (simp add: scoped_uploads_def)
  then have "find (\<lambda>r. ur_id r = ur_id row) (scoped_uploads (app_db app) h) = Some row"
    by (rule find_unique[OF scoped_uploads_ids[OF ok]])
  then show ?thesis
    using fresh i row(2)
    by (simp add: post_confirm_def validated_def confirm_upload_def confirm_cases[OF ok] confirmation_from_domain_def
        upload_to_domain_def respond_def)
qed

lemma post_confirm_foreign:
  assumes ok: "db_ok (app_db app)" and row: "row \<in> set (db_uploads (app_db app))" "ur_household_id row \<noteq> g"
    and i: "pd_uuid (w_pydantic w) (JStr i) = Some (ur_id row)"
  shows "\<exists>x. post_confirm w i g app = (Inl (Http x), app) \<and> hx_status_code x = 404"
proof -
  have "q = row" if "q \<in> set (db_uploads (app_db app))" "ur_id q = ur_id row" for q
    using ok row that by (auto simp: db_ok_def uploads_ok_def distinct_map intro: inj_onD[of ur_id])
  then have "find (\<lambda>r. ur_id r = ur_id row) (scoped_uploads (app_db app) g) = None"
    using row(2) by (auto simp: find_None_iff scoped_uploads_def)
  then show ?thesis
    using i by (simp add: post_confirm_def validated_def confirm_upload_def confirm_cases[OF ok] http_exception_of_def)
qed

end
