(* ===== verification/Migrations.thy ===== *)
theory Migrations
  imports Kitchen_Tables
begin

section \<open>The data migrations\<close>

text \<open>
  The model of \<^verbatim>\<open>alembic/versions\<close> as changes of the stored rows.  Revisions 0001 and 0004 create and drop tables,
  which start empty; 0002 and 0003 write and remove the placeholder household.  A revision whose table
  does not exist yet has no rows in it, \<open>at_revision\<close>.  Alembic runs them in the order of \<open>down_revision\<close>;
  \<open>now\<close> is the server's clock for the default of \<^verbatim>\<open>created_at\<close>.

  The lemmas show that no migration can fail halfway on the RESTRICT foreign keys, and that none ever
  touches an event or any household that has one.
\<close>

definition placeholder_row :: "datetime \<Rightarrow> household_row" where
  "placeholder_row now =
     \<lparr>hr_id = PLACEHOLDER_HOUSEHOLD_ID, hr_name = ''Placeholder household'', hr_timezone = ''Europe/London'',
      hr_created_at = now\<rparr>"

definition insert_placeholder :: "datetime \<Rightarrow> kitchen_db \<Rightarrow> db_error + kitchen_db" where
  "insert_placeholder now db = bind_sum (insert_household_if_new (placeholder_row now) db) (\<lambda>(_, db'). Inr db')"

subsection \<open>The revisions\<close>

definition upgrade_0001 :: "kitchen_db \<Rightarrow> db_error + kitchen_db" where
  "upgrade_0001 db = Inr (db\<lparr>db_households := [], db_products := [], db_events := [], db_snapshots := []\<rparr>)"

definition downgrade_0001 :: "kitchen_db \<Rightarrow> db_error + kitchen_db" where
  "downgrade_0001 db = Inr (db\<lparr>db_snapshots := [], db_events := [], db_products := [], db_households := []\<rparr>)"

definition upgrade_0002 :: "datetime \<Rightarrow> kitchen_db \<Rightarrow> db_error + kitchen_db" where
  "upgrade_0002 now db = insert_placeholder now db"

definition downgrade_0002 :: "kitchen_db \<Rightarrow> db_error + kitchen_db" where
  "downgrade_0002 db =
     (if PLACEHOLDER_HOUSEHOLD_ID \<in> set (map er_household_id (db_events db)) then Inr db
      else delete_household PLACEHOLDER_HOUSEHOLD_ID db)"

definition upgrade_0003 :: "kitchen_db \<Rightarrow> db_error + kitchen_db" where
  "upgrade_0003 db =
     (let events = length (filter (\<lambda>r. er_household_id r = PLACEHOLDER_HOUSEHOLD_ID) (db_events db))
      in if events \<noteq> 0 then Inr db else delete_household PLACEHOLDER_HOUSEHOLD_ID db)"

definition downgrade_0003 :: "datetime \<Rightarrow> kitchen_db \<Rightarrow> db_error + kitchen_db" where
  "downgrade_0003 now db = insert_placeholder now db"

definition upgrade_0004 :: "kitchen_db \<Rightarrow> db_error + kitchen_db" where
  "upgrade_0004 db = Inr (db\<lparr>db_uploads := []\<rparr>)"

definition downgrade_0004 :: "kitchen_db \<Rightarrow> db_error + kitchen_db" where
  "downgrade_0004 db = Inr (db\<lparr>db_uploads := []\<rparr>)"

text \<open>Revision \<open>n\<close> is the \<open>n\<close>-th of the chain; 0 is the empty database.\<close>

definition upgrade :: "datetime \<Rightarrow> nat \<Rightarrow> kitchen_db \<Rightarrow> db_error + kitchen_db" where
  "upgrade now n db =
     (if n = 0 then upgrade_0001 db else if n = 1 then upgrade_0002 now db
      else if n = 2 then upgrade_0003 db else upgrade_0004 db)"

definition downgrade :: "datetime \<Rightarrow> nat \<Rightarrow> kitchen_db \<Rightarrow> db_error + kitchen_db" where
  "downgrade now n db =
     (if n = 0 then downgrade_0001 db else if n = 1 then downgrade_0002 db
      else if n = 2 then downgrade_0003 now db else downgrade_0004 db)"

definition at_revision :: "nat \<Rightarrow> kitchen_db \<Rightarrow> bool" where
  "at_revision n db \<longleftrightarrow>
     (n = 0 \<longrightarrow> db_households db = [] \<and> db_products db = [] \<and> db_events db = [] \<and> db_snapshots db = []) \<and>
     (n < 4 \<longrightarrow> db_uploads db = [])"

text \<open>The upgrades from revision \<open>n\<close> on, oldest first, and the downgrades from \<open>n\<close>, newest first.\<close>

fun upgrade_all :: "datetime \<Rightarrow> nat \<Rightarrow> nat \<Rightarrow> kitchen_db \<Rightarrow> db_error + kitchen_db" where
  "upgrade_all now n 0 db = Inr db"
| "upgrade_all now n (Suc k) db = bind_sum (upgrade now n db) (upgrade_all now (Suc n) k)"

fun downgrade_all :: "datetime \<Rightarrow> nat \<Rightarrow> kitchen_db \<Rightarrow> db_error + kitchen_db" where
  "downgrade_all now 0 db = Inr db"
| "downgrade_all now (Suc n) db = bind_sum (downgrade now n db) (downgrade_all now n)"

subsection \<open>Lemmas\<close>

lemma store_placeholder: "store_household (placeholder_row now) = Inr (placeholder_row now)"
  "household_checks (placeholder_row now)"
  by (simp_all add: placeholder_row_def store_household_def varchar_def household_checks_def not_blank_def btrim_def)

lemma insert_placeholder_unfold:
  "insert_placeholder now db =
     Inr (if household_exists db PLACEHOLDER_HOUSEHOLD_ID then db
          else db\<lparr>db_households := db_households db @ [placeholder_row now]\<rparr>)"
  by (simp add: insert_placeholder_def insert_household_if_new_def store_placeholder)
    (simp add: placeholder_row_def)

lemma delete_unreferenced:
  "h \<notin> er_household_id ` set (db_events db) \<Longrightarrow> h \<notin> ur_household_id ` set (db_uploads db) \<Longrightarrow>
     delete_household h db = Inr ((delete_snapshots h db)\<lparr>db_households := filter (\<lambda>r. hr_id r \<noteq> h) (db_households db)\<rparr>)"
  by (simp add: delete_household_def)

lemma upgrade_0003_is_downgrade_0002: "upgrade_0003 = downgrade_0002"
proof
  fix db :: kitchen_db
  have "filter (\<lambda>r. er_household_id r = PLACEHOLDER_HOUSEHOLD_ID) (db_events db) = [] \<longleftrightarrow>
      PLACEHOLDER_HOUSEHOLD_ID \<notin> er_household_id ` set (db_events db)"
    by (force simp: filter_empty_conv)
  then show "upgrade_0003 db = downgrade_0002 db"
    by (simp add: upgrade_0003_def downgrade_0002_def)
qed

lemma insert_placeholder_ok: "db_ok db \<Longrightarrow> insert_placeholder now db = Inr db' \<Longrightarrow> db_ok db'"
  by (auto simp: insert_placeholder_def bind_sum_Inr_iff dest: insert_household_if_new_ok)

definition placeholder_dropped :: "kitchen_db \<Rightarrow> kitchen_db \<Rightarrow> bool" where
  "placeholder_dropped db db' \<longleftrightarrow>
     db_ok db' \<and> db_events db' = db_events db \<and> db_products db' = db_products db \<and> db_uploads db' = [] \<and>
     (\<forall>h. household_exists db' h \<longleftrightarrow> household_exists db h \<and>
        (h \<noteq> PLACEHOLDER_HOUSEHOLD_ID \<or> h \<in> er_household_id ` set (db_events db)))"

lemma drop_placeholder:
  assumes "db_ok db" and "db_uploads db = []"
  shows "\<exists>db'. downgrade_0002 db = Inr db' \<and> placeholder_dropped db db'"
proof (cases "PLACEHOLDER_HOUSEHOLD_ID \<in> er_household_id ` set (db_events db)")
  case True
  then show ?thesis
    using assms by (auto simp: downgrade_0002_def placeholder_dropped_def)
next
  case False
  let ?db = "(delete_snapshots PLACEHOLDER_HOUSEHOLD_ID db)
      \<lparr>db_households := filter (\<lambda>r. hr_id r \<noteq> PLACEHOLDER_HOUSEHOLD_ID) (db_households db)\<rparr>"
  have del: "delete_household PLACEHOLDER_HOUSEHOLD_ID db = Inr ?db"
    using False assms(2) by (simp add: delete_unreferenced)
  have "household_exists ?db h \<longleftrightarrow> household_exists db h \<and>
       (h \<noteq> PLACEHOLDER_HOUSEHOLD_ID \<or> h \<in> er_household_id ` set (db_events db))" for h
    using False by (auto simp: household_exists_def)
  with delete_household_ok[OF assms(1) del] assms(2) have "placeholder_dropped db ?db"
    by (simp add: placeholder_dropped_def delete_snapshots_def)
  with False del show ?thesis
    by (simp add: downgrade_0002_def)
qed

text \<open>One step of the chain: it succeeds, lands on the next revision, and keeps the constraints.\<close>

lemma upgrade_step:
  assumes "db_ok db" and "at_revision n db" and "n < 4"
  obtains db' where "upgrade now n db = Inr db'" "db_ok db'" "at_revision (Suc n) db'"
    "db_events db' = db_events db" "db_products db' = db_products db"
proof -
  have uploads: "db_uploads db = []"
    using assms(2,3) by (simp add: at_revision_def)
  consider "n = 0" | "n = 1" | "n = 2" | "n = 3"
    using assms(3) by linarith
  then show thesis
  proof cases
    case 1
    with assms uploads show thesis
      by (intro that[of db]) (auto simp: upgrade_def upgrade_0001_def at_revision_def)
  next
    case 2
    define db' where "db' = projr (insert_placeholder now db)"
    then have ins: "insert_placeholder now db = Inr db'" and same: "db_events db' = db_events db"
        "db_products db' = db_products db" "db_uploads db' = db_uploads db"
      by (simp_all add: insert_placeholder_unfold)
    with 2 uploads insert_placeholder_ok[OF assms(1) ins] show thesis
      by (intro that[of db']) (simp_all add: upgrade_def upgrade_0002_def at_revision_def)
  next
    case 3
    from drop_placeholder[OF assms(1) uploads] obtain db' where "downgrade_0002 db = Inr db'"
      "placeholder_dropped db db'" by blast
    with 3 show thesis
      by (intro that[of db'])
        (simp_all add: upgrade_def upgrade_0003_is_downgrade_0002 at_revision_def placeholder_dropped_def)
  next
    case 4
    with assms uploads show thesis
      by (intro that[of db]) (auto simp: upgrade_def upgrade_0004_def at_revision_def)
  qed
qed

lemma upgrade_all_total:
  assumes "db_ok db" and "at_revision n db" and "n + k \<le> 4"
  obtains db' where "upgrade_all now n k db = Inr db'" "db_ok db'" "at_revision (n + k) db'"
    "db_events db' = db_events db" "db_products db' = db_products db"
  using assms
proof (induction k arbitrary: n db thesis)
  case 0
  then show ?case by simp
next
  case (Suc k)
  then have "n < 4" by simp
  with Suc.prems obtain db1 where db1: "upgrade now n db = Inr db1" "db_ok db1" "at_revision (Suc n) db1"
      "db_events db1 = db_events db" "db_products db1 = db_products db"
    using upgrade_step[of db n] by blast
  moreover have "Suc n + k \<le> 4"
    using Suc.prems by simp
  ultimately obtain db' where "upgrade_all now (Suc n) k db1 = Inr db'" "db_ok db'" "at_revision (Suc n + k) db'"
      "db_events db' = db_events db1" "db_products db' = db_products db1"
    using Suc.IH[of "Suc n" db1] by blast
  with db1 show ?case
    by (intro Suc.prems(1)[of db']) simp_all
qed

lemma downgrade_step:
  assumes "db_ok db" and "at_revision (Suc n) db" and "n < 4"
  obtains db' where "downgrade now n db = Inr db'" "db_ok db'" "at_revision n db'"
proof -
  have uploads: "n < 3 \<Longrightarrow> db_uploads db = []"
    using assms(2) by (simp add: at_revision_def)
  consider "n = 0" | "n = 1" | "n = 2" | "n = 3"
    using assms(3) by linarith
  then show thesis
  proof cases
    case 1
    with uploads show thesis
      by (intro that[of empty_db])
        (simp_all add: downgrade_def downgrade_0001_def at_revision_def, simp_all add: empty_db_def)
  next
    case 2
    with drop_placeholder[OF assms(1)] uploads obtain db' where "downgrade_0002 db = Inr db'" "placeholder_dropped db db'"
      by fastforce
    with 2 show thesis
      by (intro that[of db']) (simp_all add: downgrade_def at_revision_def placeholder_dropped_def)
  next
    case 3
    define db' where "db' = projr (insert_placeholder now db)"
    then have ins: "insert_placeholder now db = Inr db'" and same: "db_events db' = db_events db"
        "db_products db' = db_products db" "db_uploads db' = db_uploads db"
      by (simp_all add: insert_placeholder_unfold)
    with 3 uploads insert_placeholder_ok[OF assms(1) ins] show thesis
      by (intro that[of db']) (simp_all add: downgrade_def downgrade_0003_def at_revision_def)
  next
    case 4
    have "db_ok (db\<lparr>db_uploads := []\<rparr>)"
      using assms(1) by (auto simp: db_ok_def tables_ok_defs)
    with 4 show thesis
      by (intro that[of "db\<lparr>db_uploads := []\<rparr>"]) (auto simp: downgrade_def downgrade_0004_def at_revision_def)
  qed
qed

lemma downgrade_all_total:
  "db_ok db \<Longrightarrow> at_revision n db \<Longrightarrow> n \<le> 4 \<Longrightarrow> \<exists>db'. downgrade_all now n db = Inr db' \<and> db_ok db' \<and> at_revision 0 db'"
proof (induction n arbitrary: db)
  case (Suc n)
  then have "n < 4" by simp
  with Suc.prems obtain db1 where "downgrade now n db = Inr db1" "db_ok db1" "at_revision n db1"
    using downgrade_step[of db n] by blast
  with Suc.IH[of db1] \<open>n < 4\<close> show ?case
    by auto
qed simp

subsection \<open>Properties\<close>

text \<open>
  C37: migrating never fails halfway.  From any revision, on any data that satisfies the constraints, upgrading to the
  newest revision succeeds and keeps every event and product, and downgrading to nothing succeeds; no
  step is stopped by a RESTRICT foreign key.
\<close>

theorem migrations_never_fail:
  assumes "db_ok db" and "at_revision n db" and "n \<le> 4"
  shows "(\<exists>db'. upgrade_all now n (4 - n) db = Inr db' \<and> db_ok db' \<and>
      db_events db' = db_events db \<and> db_products db' = db_products db) \<and>
    (\<exists>db'. downgrade_all now n db = Inr db' \<and> db_households db' = [] \<and> db_events db' = [] \<and> db_uploads db' = [])"
proof
  have "n + (4 - n) \<le> 4"
    using assms(3) by simp
  from upgrade_all_total[OF assms(1,2) this, of now]
  show "\<exists>db'. upgrade_all now n (4 - n) db = Inr db' \<and> db_ok db' \<and>
      db_events db' = db_events db \<and> db_products db' = db_products db"
    by blast
  from downgrade_all_total[OF assms, of now]
  show "\<exists>db'. downgrade_all now n db = Inr db' \<and> db_households db' = [] \<and> db_events db' = [] \<and> db_uploads db' = []"
    by (auto simp: at_revision_def)
qed

theorem migrations_never_fail_witness:
  "\<exists>db'. upgrade_all 7 1 3 example_db = Inr db' \<and> db_ok db' \<and> db_events db' = db_events example_db"
proof -
  have "at_revision 1 example_db"
    by (simp add: at_revision_def example_db_def empty_db_def)
  from migrations_never_fail[OF example_db_ok this, of 7] show ?thesis
    by (auto simp: numeral_2_eq_2 numeral_3_eq_3)
qed

text \<open>
  Removing the placeholder removes nothing else.  Revision 0003 leaves every other household in place, keeps the
  placeholder exactly when an event still references it, and keeps the whole log; running it a second time
  changes nothing; and its downgrade brings the placeholder back without touching a row that was
  already there.
\<close>

theorem placeholder_removal_is_safe:
  assumes "db_ok db" and "db_uploads db = []"
  shows "\<exists>db'. upgrade_0003 db = Inr db' \<and> db_ok db' \<and> db_events db' = db_events db \<and>
    (\<forall>h. household_exists db' h \<longleftrightarrow> household_exists db h \<and>
       (h \<noteq> PLACEHOLDER_HOUSEHOLD_ID \<or> h \<in> er_household_id ` set (db_events db))) \<and>
    upgrade_0003 db' = Inr db' \<and>
    (\<exists>db''. downgrade_0003 now db' = Inr db'' \<and> household_exists db'' PLACEHOLDER_HOUSEHOLD_ID \<and>
       set (db_households db') \<subseteq> set (db_households db''))"
proof -
  from drop_placeholder[OF assms] obtain db' where drop: "downgrade_0002 db = Inr db'" "placeholder_dropped db db'"
    by blast
  then have db': "db_ok db'" "db_events db' = db_events db" "db_uploads db' = []"
    and exists: "\<forall>h. household_exists db' h \<longleftrightarrow> household_exists db h \<and>
       (h \<noteq> PLACEHOLDER_HOUSEHOLD_ID \<or> h \<in> er_household_id ` set (db_events db))"
    by (simp_all add: placeholder_dropped_def)
  have again: "downgrade_0002 db' = Inr db'"
  proof (cases "PLACEHOLDER_HOUSEHOLD_ID \<in> er_household_id ` set (db_events db)")
    case False
    then have "\<not> household_exists db' PLACEHOLDER_HOUSEHOLD_ID"
      by (simp add: exists)
    then have "filter (\<lambda>r. hr_id r \<noteq> PLACEHOLDER_HOUSEHOLD_ID) (db_households db') = db_households db'"
      and "filter (\<lambda>r. sr_household_id r \<noteq> PLACEHOLDER_HOUSEHOLD_ID) (db_snapshots db') = db_snapshots db'"
      using db'(1) by (force simp: filter_id_conv household_exists_def db_ok_def snapshots_ok_def list_all_iff snapshot_refs_def)+
    with False db'(2,3) show ?thesis
      by (simp add: downgrade_0002_def delete_unreferenced delete_snapshots_def)
  qed (simp add: downgrade_0002_def db'(2))
  have "\<exists>db''. downgrade_0003 now db' = Inr db'' \<and> household_exists db'' PLACEHOLDER_HOUSEHOLD_ID \<and>
       set (db_households db') \<subseteq> set (db_households db'')"
    by (auto simp: downgrade_0003_def insert_placeholder_unfold household_exists_def placeholder_row_def)
  then show ?thesis
    unfolding upgrade_0003_is_downgrade_0002 using drop(1) db'(1,2) exists again by - (rule exI[of _ db'], intro conjI)
qed

theorem placeholder_removal_is_safe_witness:
  "\<exists>db'. upgrade_0003 (projr (upgrade_0002 7 example_db)) = Inr db' \<and>
     household_exists db' example_household \<and> \<not> household_exists db' PLACEHOLDER_HOUSEHOLD_ID"
proof -
  have eq: "insert_placeholder 7 example_db = Inr (projr (upgrade_0002 7 example_db))"
    by (simp add: upgrade_0002_def insert_placeholder_unfold)
  have "db_uploads (projr (upgrade_0002 7 example_db)) = []" "db_events (projr (upgrade_0002 7 example_db)) = []"
    "household_exists (projr (upgrade_0002 7 example_db)) example_household" "example_household \<noteq> PLACEHOLDER_HOUSEHOLD_ID"
    by code_simp+
  with placeholder_removal_is_safe[OF insert_placeholder_ok[OF example_db_ok eq], of 7] show ?thesis
    by auto
qed

end
