(* ===== verification/Alembic_Env.thy ===== *)
theory Alembic_Env
  imports Db_Provider Migrations
begin

section \<open>The migration environment\<close>

text \<open>
  The model of \<^verbatim>\<open>alembic/env.py\<close>, which \<^verbatim>\<open>alembic upgrade head\<close> runs in every deployment.  It hands the service's own database URL to
  Alembic through \<^verbatim>\<open>config.set_main_option\<close>, and reads it back with \<^verbatim>\<open>config.get_section\<close> or \<^verbatim>\<open>get_main_option\<close>: a
  \<^verbatim>\<open>ConfigParser\<close> of the standard library with its interpolation of \<^verbatim>\<open>%%\<close> and \<^verbatim>\<open>%(name)s\<close>, modelled here on the way in and on the way out.
  Arguments are the values of the other options (\<open>option_value\<close>, expanded), whether a URL can be connected to, and what the
  revisions to be run do to the database, as \<open>Migrations.upgrade_all\<close> does.

  The lemmas show that the migrations run against the URL the service itself uses, in one transaction, and for which URLs they
  do not run at all.
\<close>

datatype env_error =
    UrlError provider_error
  | InvalidInterpolation
  | InterpolationError
  | ConnectionFailed
  | MigrationFailed db_error

subsection \<open>Options of a ConfigParser\<close>

text \<open>\<^verbatim>\<open>value.replace('%%', '')\<close>.\<close>

fun drop_escaped :: "string \<Rightarrow> string" where
  "drop_escaped [] = []"
| "drop_escaped [c] = [c]"
| "drop_escaped (c # d # s) =
     (if c = CHR ''%'' \<and> d = CHR ''%'' then drop_escaped s else c # drop_escaped (d # s))"

text \<open>The pattern \<^verbatim>\<open>%\([^)]+\)s\<close> at the beginning of a string: the name, and what follows.\<close>

definition match_reference :: "string \<Rightarrow> (string \<times> string) option" where
  "match_reference s =
     (let name = takeWhile (\<lambda>c. c \<noteq> CHR '')'') (drop 2 s);
          rest = dropWhile (\<lambda>c. c \<noteq> CHR '')'') (drop 2 s)
      in if take 2 s = ''%('' \<and> name \<noteq> [] \<and> take 2 rest = '')s'' then Some (name, drop 2 rest) else None)"

lemma match_reference_shorter:
  assumes "match_reference s = Some (name, rest)"
  shows "length rest < length s"
proof -
  have "take 2 s = ''%(''" "rest = drop 2 (dropWhile (\<lambda>c. c \<noteq> CHR '')'') (drop 2 s))"
    using assms by (auto simp: match_reference_def Let_def split: if_splits)
  then have "s \<noteq> []" "length rest \<le> length s - 2"
    using length_dropWhile_le[of "\<lambda>c. c \<noteq> CHR '')''" "drop 2 s"] by auto
  then show ?thesis
    by (cases s) auto
qed

function drop_references :: "string \<Rightarrow> string" where
  "drop_references [] = []"
| "drop_references (c # s) =
     (case match_reference (c # s) of Some (_, rest) \<Rightarrow> drop_references rest | None \<Rightarrow> c # drop_references s)"
  by pat_completeness auto
termination
  by (relation "measure length") (auto dest: match_reference_shorter)

definition before_set :: "string \<Rightarrow> env_error + string" where
  "before_set value =
     (if CHR ''%'' \<in> set (drop_references (drop_escaped value)) then Inl InvalidInterpolation else Inr value)"

function before_get :: "(string \<Rightarrow> string option) \<Rightarrow> string \<Rightarrow> env_error + string" where
  "before_get option_value [] = Inr []"
| "before_get option_value (c # s) =
     (if c \<noteq> CHR ''%'' then map_sum id (Cons c) (before_get option_value s)
      else if take 1 s = ''%'' then map_sum id (Cons c) (before_get option_value (drop 1 s))
      else case match_reference (c # s) of
             None \<Rightarrow> Inl InterpolationError
           | Some (name, rest) \<Rightarrow>
               (case option_value (lower name) of
                  None \<Rightarrow> Inl InterpolationError
                | Some v \<Rightarrow> map_sum id (append v) (before_get option_value rest)))"
  by pat_completeness auto
termination
  by (relation "measure (length \<circ> snd)") (auto dest: match_reference_shorter)

subsection \<open>The script\<close>

definition set_main_option :: "outside \<Rightarrow> env_error + string" where
  "set_main_option w = bind_sum (map_sum UrlError id (database_url w)) before_set"

text \<open>\<^verbatim>\<open>with context.begin_transaction(): context.run_migrations()\<close>.\<close>

definition run_in_transaction :: "(kitchen_db \<Rightarrow> db_error + kitchen_db) \<Rightarrow> kitchen_db \<Rightarrow> (env_error + unit) \<times> kitchen_db" where
  "run_in_transaction migrate =
     session_scope (\<lambda>db. case migrate db of Inl e \<Rightarrow> (Inl (MigrationFailed e), db) | Inr db' \<Rightarrow> (Inr (), db'))"

text \<open>The URL connected to is returned.\<close>

definition run_migrations_online ::
  "(string \<Rightarrow> string option) \<Rightarrow> (string \<Rightarrow> bool) \<Rightarrow> (kitchen_db \<Rightarrow> db_error + kitchen_db) \<Rightarrow> string \<Rightarrow> kitchen_db \<Rightarrow>
     (env_error + string) \<times> kitchen_db" where
  "run_migrations_online option_value connects migrate option db =
     (case before_get option_value option of
        Inl e \<Rightarrow> (Inl e, db)
      | Inr url \<Rightarrow>
          if \<not> connects url then (Inl ConnectionFailed, db)
          else map_prod (map_sum id (\<lambda>_. url)) id (run_in_transaction migrate db))"

text \<open>Offline, the statements are printed for the URL's dialect and no database is touched.\<close>

definition run_migrations_offline :: "(string \<Rightarrow> string option) \<Rightarrow> string \<Rightarrow> env_error + string" where
  "run_migrations_offline option_value option = before_get option_value option"

definition alembic_env ::
  "bool \<Rightarrow> outside \<Rightarrow> (string \<Rightarrow> string option) \<Rightarrow> (string \<Rightarrow> bool) \<Rightarrow> (kitchen_db \<Rightarrow> db_error + kitchen_db) \<Rightarrow> kitchen_db \<Rightarrow>
     (env_error + string) \<times> kitchen_db" where
  "alembic_env offline w option_value connects migrate db =
     (case set_main_option w of
        Inl e \<Rightarrow> (Inl e, db)
      | Inr option \<Rightarrow>
          if offline then (run_migrations_offline option_value option, db)
          else run_migrations_online option_value connects migrate option db)"

subsection \<open>URLs through the options\<close>

lemma drop_escaped_plain: "CHR ''%'' \<notin> set s \<Longrightarrow> drop_escaped s = s"
  by (induction s rule: drop_escaped.induct) auto

lemma match_reference_plain: "c \<noteq> CHR ''%'' \<Longrightarrow> match_reference (c # s) = None"
  by (simp add: match_reference_def Let_def take_Suc numeral_2_eq_2)

lemma drop_references_plain: "CHR ''%'' \<notin> set s \<Longrightarrow> drop_references s = s"
  by (induction s) (auto simp: match_reference_plain)

lemma before_get_plain: "CHR ''%'' \<notin> set s \<Longrightarrow> before_get option_value s = Inr s"
  by (induction s) auto

lemma before_set_plain: "CHR ''%'' \<notin> set s \<Longrightarrow> before_set s = Inr s"
  by (simp add: before_set_def drop_escaped_plain drop_references_plain)

lemma drop_escaped_prefix:
  "CHR ''%'' \<notin> set a \<Longrightarrow> drop_escaped (a @ s) = a @ drop_escaped s"
proof (induction a)
  case (Cons c a)
  then show ?case
    by (cases "a @ s") (auto split: if_splits)
qed simp

lemma before_set_percent:
  assumes "CHR ''%'' \<notin> set a" and "c \<noteq> CHR ''%''" "c \<noteq> CHR ''(''"
  shows "before_set (a @ CHR ''%'' # c # b) = Inl InvalidInterpolation"
proof -
  obtain b' where b': "drop_escaped (c # b) = c # b'"
    using assms(2) by (cases b) auto
  then have "drop_escaped (a @ CHR ''%'' # c # b) = a @ CHR ''%'' # c # b'"
    using assms by (simp add: drop_escaped_prefix)
  moreover have "match_reference (CHR ''%'' # c # b') = None"
    using assms(3) by (simp add: match_reference_def Let_def numeral_2_eq_2)
  then have "CHR ''%'' \<in> set (drop_references (a @ CHR ''%'' # c # b'))"
    using assms(1) by (induction a) (auto simp: match_reference_plain)
  ultimately show ?thesis
    by (simp add: before_set_def)
qed

subsection \<open>Properties\<close>

text \<open>
  A deployment migrates the database the service uses, or leaves it alone.  For a URL without a percent sign that can be
  connected to, the revisions run against exactly the URL the service builds its engine for; their effect is kept when all of
  them succeed, and when one is refused nothing of the earlier ones is.  Offline, and when the URL cannot be read or connected
  to, the database is as it was.
\<close>

theorem migrations_run_as_a_whole:
  "(\<forall>url. database_url w = Inr url \<and> CHR ''%'' \<notin> set url \<and> connects url \<longrightarrow>
      alembic_env False w option_value connects migrate db =
        (case migrate db of Inl e \<Rightarrow> (Inl (MigrationFailed e), db) | Inr db' \<Rightarrow> (Inr url, db'))) \<and>
   snd (alembic_env True w option_value connects migrate db) = db \<and>
   (\<forall>offline e db'. alembic_env offline w option_value connects migrate db = (Inl e, db') \<longrightarrow> db' = db)"
  by (auto simp: alembic_env_def set_main_option_def before_set_plain before_get_plain bind_sum_def run_migrations_online_def
      run_migrations_offline_def run_in_transaction_def session_scope_def split: sum.splits if_splits prod.splits)

theorem migrations_run_as_a_whole_witness:
  "\<exists>db'. alembic_env False example_outside (\<lambda>_. None) (\<lambda>_. True) (upgrade_all 7 1 3) example_db = (Inr DEFAULT_DATABASE_URL, db') \<and>
     db_events db' = db_events example_db"
proof -
  have "at_revision 1 example_db"
    by (simp add: at_revision_def example_db_def empty_db_def)
  then obtain db' where up: "upgrade_all 7 1 3 example_db = Inr db'" "db_events db' = db_events example_db"
    by (rule upgrade_all_total[OF example_db_ok, where k = 3]) simp
  have "database_url example_outside = Inr DEFAULT_DATABASE_URL \<and> CHR ''%'' \<notin> set DEFAULT_DATABASE_URL"
    by code_simp
  then show ?thesis
    using migrations_run_as_a_whole[of example_outside "\<lambda>_. True" "\<lambda>_. None" "upgrade_all 7 1 3" example_db] up by simp
qed

text \<open>
  C38: a percent-encoded URL stops every deployment.  When the URL has a character written as a percent sign and its code, as a password with
  a reserved character must be, the service builds its engine for it, but \<^verbatim>\<open>set_main_option\<close> raises \<^verbatim>\<open>ValueError\<close> and no
  migration runs, whatever the revisions, the other options and the database.
\<close>

theorem percent_url_stops_migrations:
  assumes "database_url w = Inr url" and "url = a @ CHR ''%'' # c # b" and "CHR ''%'' \<notin> set a"
    and "c \<noteq> CHR ''%''" "c \<noteq> CHR ''(''"
  shows "alembic_env offline w option_value connects migrate db = (Inl InvalidInterpolation, db) \<and>
    (ow_accepts w url \<longrightarrow> create_engine w url = Inr url)"
  using assms
  by (simp add: alembic_env_def set_main_option_def before_set_percent bind_sum_def create_engine_def)

definition encoded_url :: string where
  "encoded_url = ''postgresql+asyncpg://app:p%40ss@db/kitchen''"

theorem percent_url_stops_migrations_witness:
  "let w = example_outside\<lparr>ow_environ := [''DATABASE_URL'' \<mapsto> encoded_url], ow_make_url := (\<lambda>_. Some example_url), ow_render := (\<lambda>_. encoded_url)\<rparr> in
     alembic_env False w (\<lambda>_. None) (\<lambda>_. True) (upgrade_all 7 1 3) example_db = (Inl InvalidInterpolation, example_db) \<and>
     create_engine w encoded_url = Inr encoded_url"
proof -
  let ?w = "example_outside\<lparr>ow_environ := [''DATABASE_URL'' \<mapsto> encoded_url], ow_make_url := (\<lambda>_. Some example_url), ow_render := (\<lambda>_. encoded_url)\<rparr>"
  have "database_url ?w = Inr encoded_url" "ow_accepts ?w encoded_url"
    "encoded_url = ''postgresql+asyncpg://app:p'' @ CHR ''%'' # CHR ''4'' # ''0ss@db/kitchen''"
    by code_simp+
  from percent_url_stops_migrations[OF this(1,3)] this(2) show ?thesis
    by (simp add: Let_def)
qed

end
