(* ===== verification/Async_Lock.thy ===== *)
theory Async_Lock
  imports Settings
begin

section \<open>Coroutines that share a lock\<close>

text \<open>
  How an event loop runs the coroutines that guard a cache with an \<^verbatim>\<open>asyncio.Lock\<close>: \<^verbatim>\<open>Database.sessionmaker\<close>,
  \<^verbatim>\<open>ReceiptBlobStore._delegation_key\<close> and \<^verbatim>\<open>KeySource.signing_key\<close>.  A coroutine runs undisturbed from one \<^verbatim>\<open>await\<close> to the
  next; \<open>resume\<close> is that run, from a program counter, with the answer the coroutine was waiting for, the clock and the
  shared state.  It ends at \<^verbatim>\<open>async with self._lock\<close> (\<open>Acquire\<close>), at an \<^verbatim>\<open>await\<close> of
  something outside the process (\<open>Ask\<close>), or by returning or raising (\<open>Return\<close>).  A run that came to the end of its \<^verbatim>\<open>async with\<close> block, which
  releases the lock, says so: it then waits for the lock again (\<open>Reacquire\<close>) or has ended (\<open>Leave\<close>).  Nothing else releases it: the lock is not
  reentrant, so a coroutine at \<open>Acquire\<close> that holds it already waits for itself, and one that would \<open>Return\<close> with it leaves it taken for ever.

  The event loop may continue any coroutine that is able to continue, in any order, and the outside may answer anything at any
  time: the order in which an \<^verbatim>\<open>asyncio.Lock\<close> admits its waiters is one of those considered.

  The locale \<open>lock_discipline\<close> is what such code promises of its sections -- it never asks for the lock inside one, and leaves one on every way
  out -- and its lemmas are mutual exclusion, that the coroutines cannot block each other or themselves for ever, and a bound on the length of every schedule.  The locale \<open>double_checked\<close> adds that the
  section does what a function on the shared state says, and shows that every schedule is a sequence of calls of that
  function.
\<close>

datatype ('p, 'w, 'q, 'r) suspension =
    Acquire 'p
  | Reacquire 'p
  | Ask 'q 'w
  | Return 'r
  | Leave 'r

datatype ('p, 'w, 'q, 'r) task = Ready 'p | Waiting 'p | Asking 'q 'w | Done 'r

record ('s, 'p, 'w, 'q, 'a, 'r) loop =
  lp_state :: 's
  lp_owner :: "nat option"
  lp_tasks :: "('p, 'w, 'q, 'r) task list"
  lp_now :: seconds
  lp_asked :: "'q list"
  lp_answers :: "('q \<times> 'a) list"

definition launch :: "'s \<Rightarrow> seconds \<Rightarrow> 'p list \<Rightarrow> ('s, 'p, 'w, 'q, 'a, 'r) loop" where
  "launch s now ps =
     \<lparr>lp_state = s, lp_owner = None, lp_tasks = map Ready ps, lp_now = now, lp_asked = [], lp_answers = []\<rparr>"

definition release :: "nat \<Rightarrow> nat option \<Rightarrow> nat option" where
  "release i owner = (if owner = Some i then None else owner)"

fun suspend ::
  "nat \<Rightarrow> ('p, 'w, 'q, 'r) suspension \<times> 's \<Rightarrow> ('s, 'p, 'w, 'q, 'a, 'r) loop \<Rightarrow> ('s, 'p, 'w, 'q, 'a, 'r) loop" where
  "suspend i (Acquire p, s) l = l\<lparr>lp_state := s, lp_tasks := (lp_tasks l)[i := Waiting p]\<rparr>"
| "suspend i (Reacquire p, s) l =
     l\<lparr>lp_state := s, lp_owner := release i (lp_owner l), lp_tasks := (lp_tasks l)[i := Waiting p]\<rparr>"
| "suspend i (Ask q w, s) l =
     l\<lparr>lp_state := s, lp_tasks := (lp_tasks l)[i := Asking q w], lp_asked := lp_asked l @ [q]\<rparr>"
| "suspend i (Return r, s) l = l\<lparr>lp_state := s, lp_tasks := (lp_tasks l)[i := Done r]\<rparr>"
| "suspend i (Leave r, s) l =
     l\<lparr>lp_state := s, lp_owner := release i (lp_owner l), lp_tasks := (lp_tasks l)[i := Done r]\<rparr>"

text \<open>Where a coroutine is continued: at a point it may be scheduled at, or behind an \<^verbatim>\<open>await\<close> with the answer.\<close>

datatype ('p, 'w, 'a) wake = Run 'p | Wake 'w 'a

fun point :: "('p, 'w, 'a) wake \<Rightarrow> 'p + 'w" where
  "point (Run p) = Inl p"
| "point (Wake w a) = Inr w"

text \<open>Whether the coroutine holds the lock there, by the program counters that are inside a section.\<close>

fun holds :: "('p \<Rightarrow> bool) \<Rightarrow> ('p, 'w, 'a) wake \<Rightarrow> bool" where
  "holds inside (Run p) = inside p"
| "holds inside (Wake w a) = True"

type_synonym ('s, 'p, 'w, 'q, 'a, 'r) coroutine = "('p, 'w, 'a) wake \<Rightarrow> seconds \<Rightarrow> 's \<Rightarrow> ('p, 'w, 'q, 'r) suspension \<times> 's"

text \<open>One move of the event loop: it lets a new coroutine run, hands the free lock to a waiting one, or delivers an answer.\<close>

datatype 'a move = Start nat seconds | Enter nat seconds | Answer nat seconds 'a

fun perform ::
  "('s, 'p, 'w, 'q, 'a, 'r) coroutine \<Rightarrow> 'a move \<Rightarrow> ('s, 'p, 'w, 'q, 'a, 'r) loop \<Rightarrow> ('s, 'p, 'w, 'q, 'a, 'r) loop option" where
  "perform resume (Start i now) l =
     (if i < length (lp_tasks l) \<and> lp_now l \<le> now then
        (case lp_tasks l ! i of
           Ready p \<Rightarrow> Some (suspend i (resume (Run p) now (lp_state l)) (l\<lparr>lp_now := now\<rparr>))
         | _ \<Rightarrow> None)
      else None)"
| "perform resume (Enter i now) l =
     (if i < length (lp_tasks l) \<and> lp_now l \<le> now \<and> lp_owner l = None then
        (case lp_tasks l ! i of
           Waiting p \<Rightarrow> Some (suspend i (resume (Run p) now (lp_state l)) (l\<lparr>lp_now := now, lp_owner := Some i\<rparr>))
         | _ \<Rightarrow> None)
      else None)"
| "perform resume (Answer i now a) l =
     (if i < length (lp_tasks l) \<and> lp_now l \<le> now then
        (case lp_tasks l ! i of
           Asking q w \<Rightarrow> Some (suspend i (resume (Wake w a) now (lp_state l))
             (l\<lparr>lp_now := now, lp_answers := lp_answers l @ [(q, a)]\<rparr>))
         | _ \<Rightarrow> None)
      else None)"

inductive schedule ::
  "('s, 'p, 'w, 'q, 'a, 'r) coroutine \<Rightarrow> ('s, 'p, 'w, 'q, 'a, 'r) loop \<Rightarrow> 'a move list \<Rightarrow> ('s, 'p, 'w, 'q, 'a, 'r) loop \<Rightarrow> bool"
  for resume l0 where
  idle: "schedule resume l0 [] l0"
| moved: "schedule resume l0 ms l \<Longrightarrow> perform resume m l = Some l' \<Longrightarrow> schedule resume l0 (ms @ [m]) l'"

text \<open>A schedule, executed.\<close>

fun replay ::
  "('s, 'p, 'w, 'q, 'a, 'r) coroutine \<Rightarrow> 'a move list \<Rightarrow> ('s, 'p, 'w, 'q, 'a, 'r) loop \<Rightarrow> ('s, 'p, 'w, 'q, 'a, 'r) loop option" where
  "replay resume [] l = Some l"
| "replay resume (m # ms) l = Option.bind (perform resume m l) (replay resume ms)"

text \<open>A coroutine with nobody beside it: the lock and what it asks for come at once; \<open>n\<close> bounds its suspensions.\<close>

fun solo ::
  "('s, 'p, 'w, 'q, 'a, 'r) coroutine \<Rightarrow> ('q \<Rightarrow> 'a) \<Rightarrow> ('p + 'w \<Rightarrow> seconds) \<Rightarrow> nat \<Rightarrow> ('p, 'w, 'a) wake \<Rightarrow> 's \<Rightarrow> ('r \<times> 's) option" where
  "solo resume reply clock 0 k s = None"
| "solo resume reply clock (Suc n) k s =
     (case resume k (clock (point k)) s of
        (Return r, s') \<Rightarrow> Some (r, s')
      | (Leave r, s') \<Rightarrow> Some (r, s')
      | (Acquire p, s') \<Rightarrow> solo resume reply clock n (Run p) s'
      | (Reacquire p, s') \<Rightarrow> solo resume reply clock n (Run p) s'
      | (Ask q w, s') \<Rightarrow> solo resume reply clock n (Wake w (reply q)) s')"

fun unfinished :: "('p, 'w, 'q, 'r) task \<Rightarrow> bool" where
  "unfinished (Done r) = False"
| "unfinished _ = True"

fun is_asking :: "('p, 'w, 'q, 'r) task \<Rightarrow> bool" where
  "is_asking (Asking q w) = True"
| "is_asking _ = False"

subsection \<open>Moves\<close>

lemma launch_sel [simp]:
  "lp_state (launch s now ps) = s" "lp_owner (launch s now ps) = None" "lp_tasks (launch s now ps) = map Ready ps"
  "lp_now (launch s now ps) = now" "lp_asked (launch s now ps) = []" "lp_answers (launch s now ps) = []"
  by (simp_all add: launch_def)

text \<open>The three moves, with what each of them requires.\<close>

lemma perform_cases:
  assumes "perform resume m l = Some l'"
  obtains i p now where "i < length (lp_tasks l)" "lp_now l \<le> now" "lp_tasks l ! i = Ready p"
      "l' = suspend i (resume (Run p) now (lp_state l)) (l\<lparr>lp_now := now\<rparr>)"
  | i p now where "i < length (lp_tasks l)" "lp_now l \<le> now" "lp_owner l = None" "lp_tasks l ! i = Waiting p"
      "l' = suspend i (resume (Run p) now (lp_state l)) (l\<lparr>lp_now := now, lp_owner := Some i\<rparr>)"
  | i q w a now where "i < length (lp_tasks l)" "lp_now l \<le> now" "lp_tasks l ! i = Asking q w"
      "l' = suspend i (resume (Wake w a) now (lp_state l)) (l\<lparr>lp_now := now, lp_answers := lp_answers l @ [(q, a)]\<rparr>)"
  using assms by (cases m) (auto split: if_splits task.splits)

lemma suspend_frame [simp]:
  "length (lp_tasks (suspend i x l)) = length (lp_tasks l)" "lp_now (suspend i x l) = lp_now l"
  "lp_answers (suspend i x l) = lp_answers l" "lp_state (suspend i x l) = snd x"
  by (cases "(i, x, l)" rule: suspend.cases; simp)+

lemma replay_schedule:
  assumes "replay resume ms l0 \<noteq> None"
  shows "schedule resume l0 ms (the (replay resume ms l0))"
proof -
  have "schedule resume l0 (ns @ ms) l'" if "schedule resume l0 ns l" "replay resume ms l = Some l'" for ns l l'
    using that
  proof (induction ms arbitrary: ns l)
    case (Cons m ms)
    then obtain l1 where "perform resume m l = Some l1" "replay resume ms l1 = Some l'"
      by (auto split: Option.bind_splits)
    with Cons.IH[of "ns @ [m]" l1] Cons.prems(1) show ?case
      by (auto intro: schedule.moved)
  qed simp
  from this[OF schedule.idle] assms show ?thesis
    by auto
qed

lemma finished_is_stuck: "list_all (\<lambda>t. \<not> unfinished t) (lp_tasks l) \<Longrightarrow> perform resume m l = None"
  by (cases m) (auto simp: list_all_length split: task.split)

lemma schedule_length: "schedule resume l0 ms l \<Longrightarrow> length (lp_tasks l) = length (lp_tasks l0)"
  by (induction rule: schedule.induct) (auto elim!: perform_cases)

lemma schedule_now: "schedule resume l0 ms l \<Longrightarrow> lp_now l0 \<le> lp_now l"
  by (induction rule: schedule.induct) (auto elim!: perform_cases)

subsection \<open>Lock discipline\<close>

text \<open>
  \<open>inside\<close> says which program counters are continued with the lock held.  A coroutine asks for the lock only where it does not hold it or has just
  left its section, and never ends inside one.  Outside, it only reads, and asks nothing; every run between two suspensions takes it
  nearer to its end, which \<open>gas\<close> counts.
\<close>

locale lock_discipline =
  fixes resume :: "('s, 'p, 'w, 'q, 'a, 'r) coroutine"
    and inside :: "'p \<Rightarrow> bool"
    and gas :: "'p + 'w \<Rightarrow> nat"
  assumes acquire_inside: "resume k now s = (Acquire p, s') \<Longrightarrow> \<not> holds inside k \<and> inside p \<and> gas (Inl p) < gas (point k)"
    and reacquire_inside: "resume k now s = (Reacquire p, s') \<Longrightarrow> holds inside k \<and> inside p \<and> gas (Inl p) < gas (point k)"
    and ask_inside: "resume k now s = (Ask q w, s') \<Longrightarrow> holds inside k \<and> gas (Inr w) < gas (point k)"
    and return_outside: "resume k now s = (Return r, s') \<Longrightarrow> \<not> holds inside k"
    and leave_inside: "resume k now s = (Leave r, s') \<Longrightarrow> holds inside k"
    and outside_reads: "\<not> inside p \<Longrightarrow> snd (resume (Run p) now s) = s"
begin

text \<open>Left alone, a coroutine ends, within its gas.\<close>

lemma solo_ends: "gas (point k) < n \<Longrightarrow> \<exists>r s'. solo resume reply clock n k s = Some (r, s')"
proof (induction n arbitrary: k s)
  case (Suc n)
  obtain y s' where y: "resume k (clock (point k)) s = (y, s')"
    by (cases "resume k (clock (point k)) s")
  show ?case
  proof (cases y)
    case (Acquire p)
    with y acquire_inside[of k "clock (point k)" s p s'] Suc.prems have "gas (point (Run p)) < n"
      by simp
    from Suc.IH[OF this] y Acquire show ?thesis
      by simp
  next
    case (Reacquire p)
    with y reacquire_inside[of k "clock (point k)" s p s'] Suc.prems have "gas (point (Run p)) < n"
      by simp
    from Suc.IH[OF this] y Reacquire show ?thesis
      by simp
  next
    case (Ask q w)
    with y ask_inside[of k "clock (point k)" s q w s'] Suc.prems have "gas (point (Wake w (reply q))) < n"
      by simp
    from Suc.IH[OF this] y Ask show ?thesis
      by simp
  qed (use y in simp_all)
qed simp

fun weight :: "('p, 'w, 'q, 'r) task \<Rightarrow> nat" where
  "weight (Done r) = 0"
| "weight (Ready p) = Suc (gas (Inl p))"
| "weight (Waiting p) = Suc (gas (Inl p))"
| "weight (Asking q w) = Suc (gas (Inr w))"

fun placed :: "nat option \<Rightarrow> nat \<Rightarrow> ('p, 'w, 'q, 'r) task \<Rightarrow> bool" where
  "placed owner i (Ready p) = (\<not> inside p \<and> owner \<noteq> Some i)"
| "placed owner i (Waiting p) = (inside p \<and> owner \<noteq> Some i)"
| "placed owner i (Asking q w) = (owner = Some i)"
| "placed owner i (Done r) = (owner \<noteq> Some i)"

definition lock_inv :: "('s, 'p, 'w, 'q, 'a, 'r) loop \<Rightarrow> bool" where
  "lock_inv l \<longleftrightarrow>
     (\<forall>i < length (lp_tasks l). placed (lp_owner l) i (lp_tasks l ! i)) \<and>
     pred_option (\<lambda>i. i < length (lp_tasks l)) (lp_owner l)"

lemma lock_inv_launch: "list_all (\<lambda>p. \<not> inside p) ps \<Longrightarrow> lock_inv (launch s now ps)"
  by (auto simp: lock_inv_def list_all_length)

lemma placed_owner: "owner \<noteq> Some j \<Longrightarrow> owner' \<noteq> Some j \<Longrightarrow> placed owner j t = placed owner' j t"
  by (cases t) auto

text \<open>A coroutine that holds the lock runs to its next suspension.\<close>

lemma lock_inv_suspend:
  assumes others: "\<And>j. j < length (lp_tasks l) \<Longrightarrow> j \<noteq> i \<Longrightarrow> placed (lp_owner l) j (lp_tasks l ! j)"
    and own: "holds inside k \<longleftrightarrow> lp_owner l = Some i"
    and i: "i < length (lp_tasks l)" "pred_option (\<lambda>i. i < length (lp_tasks l)) (lp_owner l)"
  shows "lock_inv (suspend i (resume k now s) l)"
proof -
  have rel: "placed (release i (lp_owner l)) j (lp_tasks l ! j)" if "j < length (lp_tasks l)" "j \<noteq> i" for j
    using others[OF that] placed_owner[of "lp_owner l" j "release i (lp_owner l)"] that(2)
    by (cases "lp_owner l = Some i") (auto simp: release_def)
  obtain y s' where y: "resume k now s = (y, s')"
    by (cases "resume k now s")
  show ?thesis
  proof (cases y)
    case (Acquire p')
    with y acquire_inside[of k now s p' s'] others own i show ?thesis
      by (auto simp: lock_inv_def nth_list_update)
  next
    case (Reacquire p')
    with y reacquire_inside[of k now s p' s'] rel own i show ?thesis
      by (auto simp: lock_inv_def nth_list_update release_def split: if_splits)
  next
    case (Ask q w)
    with y ask_inside[of k now s q w s'] others own i show ?thesis
      by (auto simp: lock_inv_def nth_list_update)
  next
    case (Return r)
    with y return_outside[of k now s r s'] others own i show ?thesis
      by (auto simp: lock_inv_def nth_list_update)
  next
    case (Leave r)
    with y leave_inside[of k now s r s'] rel own i show ?thesis
      by (auto simp: lock_inv_def nth_list_update release_def split: if_splits)
  qed
qed

lemma lock_inv_perform:
  assumes "lock_inv l" and "perform resume m l = Some l'"
  shows "lock_inv l'"
  using assms(2)
proof (cases rule: perform_cases)
  case (1 i p now)
  from assms(1) 1(1) have "placed (lp_owner l) i (lp_tasks l ! i)"
    by (simp add: lock_inv_def)
  with 1 assms(1) show ?thesis
    unfolding 1(4) by (intro lock_inv_suspend) (auto simp: lock_inv_def)
next
  case (2 i p now)
  with assms(1) have "inside p" "\<forall>j < length (lp_tasks l). placed None j (lp_tasks l ! j)"
    by (auto simp: lock_inv_def)
  with 2 placed_owner[of None _ "Some i"] show ?thesis
    unfolding 2(5) by (intro lock_inv_suspend) auto
next
  case (3 i q w a now)
  from assms(1) 3(1) have "placed (lp_owner l) i (lp_tasks l ! i)"
    by (simp add: lock_inv_def)
  with 3 assms(1) show ?thesis
    unfolding 3(4) by (intro lock_inv_suspend) (auto simp: lock_inv_def)
qed

lemma lock_inv_schedule: "schedule resume l0 ms l \<Longrightarrow> lock_inv l0 \<Longrightarrow> lock_inv l"
  by (induction rule: schedule.induct) (auto intro: lock_inv_perform)

text \<open>At most one coroutine waits for the outside at a time: the one that holds the lock.\<close>

lemma one_asks_at_a_time:
  assumes "lock_inv l" and "i < length (lp_tasks l)" "is_asking (lp_tasks l ! i)"
    and "j < length (lp_tasks l)" "is_asking (lp_tasks l ! j)"
  shows "i = j"
proof -
  have "lp_owner l = Some k" if "k < length (lp_tasks l)" "is_asking (lp_tasks l ! k)" for k
    using assms(1) that by (cases "lp_tasks l ! k") (force simp: lock_inv_def)+
  from this[OF assms(2,3)] this[OF assms(4,5)] show ?thesis
    by simp
qed

text \<open>While a coroutine has not finished, some coroutine can continue.\<close>

lemma never_stuck:
  assumes "lock_inv l" and "i < length (lp_tasks l)" "unfinished (lp_tasks l ! i)"
  shows "\<exists>m l'. perform resume m l = Some l'"
proof (cases "lp_tasks l ! i")
  case (Ready p)
  then show ?thesis
    using assms(2) by (intro exI[of _ "Start i (lp_now l)"]) simp
next
  case (Asking q w)
  then show ?thesis
    using assms(2) by (intro exI[of _ "Answer i (lp_now l) undefined"]) simp
next
  case (Waiting p)
  show ?thesis
  proof (cases "lp_owner l")
    case None
    then show ?thesis
      using Waiting assms(2) by (intro exI[of _ "Enter i (lp_now l)"]) simp
  next
    case (Some j)
    with assms(1) have "j < length (lp_tasks l)" "placed (Some j) j (lp_tasks l ! j)"
      by (auto simp: lock_inv_def)
    then show ?thesis
      by (cases "lp_tasks l ! j") (auto intro!: exI[of _ "Answer j (lp_now l) undefined"])
  qed
qed (use assms(3) in simp)

lemma weight_suspend:
  assumes "i < length (lp_tasks l)" and "weight (lp_tasks l ! i) = Suc (gas (point k))"
  shows "sum_list (map weight (lp_tasks (suspend i (resume k now s) l))) < sum_list (map weight (lp_tasks l))"
proof -
  note upd = sum_list_update_less[of i "lp_tasks l" weight, OF assms(1)]
  obtain y s' where y: "resume k now s = (y, s')"
    by (cases "resume k now s")
  show ?thesis
  proof (cases y)
    case (Acquire p')
    with y acquire_inside[of k now s p' s'] assms(2) show ?thesis
      by (auto intro!: upd)
  next
    case (Reacquire p')
    with y reacquire_inside[of k now s p' s'] assms(2) show ?thesis
      by (auto intro!: upd)
  next
    case (Ask q w)
    with y ask_inside[of k now s q w s'] assms(2) show ?thesis
      by (auto intro!: upd)
  qed (use y assms(2) in \<open>auto intro!: upd\<close>)
qed

lemma weight_perform:
  assumes "perform resume m l = Some l'"
  shows "sum_list (map weight (lp_tasks l')) < sum_list (map weight (lp_tasks l))"
  using assms by (cases rule: perform_cases) (auto intro!: order.strict_trans2[OF weight_suspend])

text \<open>Every schedule ends after at most so many moves.\<close>

lemma schedule_bound:
  assumes "schedule resume l0 ms l"
  shows "length ms + sum_list (map weight (lp_tasks l)) \<le> sum_list (map weight (lp_tasks l0))"
  using assms by induction (auto dest: weight_perform)

text \<open>So coroutines that begin together all finish, and where nothing can move any more they have, with the lock free.\<close>

lemma schedule_ends:
  assumes "schedule resume (launch s now ps) ms l" and "list_all (\<lambda>p. \<not> inside p \<and> gas (Inl p) = g) ps"
  shows "length ms \<le> Suc g * length ps"
    and "(\<And>m. perform resume m l = None) \<Longrightarrow> lp_owner l = None \<and> list_all (\<lambda>t. \<not> unfinished t) (lp_tasks l)"
proof -
  have "sum_list (map (weight \<circ> Ready) ps) = Suc g * length ps"
    using assms(2) by (induction ps) auto
  then show "length ms \<le> Suc g * length ps"
    using schedule_bound[OF assms(1)] by simp
  have "lock_inv l"
    using lock_inv_schedule[OF assms(1) lock_inv_launch] assms(2) by (simp add: list_all_iff)
  show "lp_owner l = None \<and> list_all (\<lambda>t. \<not> unfinished t) (lp_tasks l)" if "\<And>m. perform resume m l = None"
  proof -
    have ended: "list_all (\<lambda>t. \<not> unfinished t) (lp_tasks l)"
      using never_stuck[OF \<open>lock_inv l\<close>] that by (fastforce simp: list_all_length)
    have "lp_owner l \<noteq> Some i" if i: "i < length (lp_tasks l)" for i
    proof -
      have "placed (lp_owner l) i (lp_tasks l ! i)" "\<not> unfinished (lp_tasks l ! i)"
        using \<open>lock_inv l\<close> ended i by (simp_all add: lock_inv_def list_all_length)
      then show ?thesis
        by (cases "lp_tasks l ! i") auto
    qed
    with \<open>lock_inv l\<close> ended show ?thesis
      by (cases "lp_owner l") (auto simp: lock_inv_def)
  qed
qed

end

subsection \<open>Sections that amount to one call\<close>

text \<open>
  A sequence of calls, each run from beginning to end before the next: the number of the coroutine and what it returned.  \<open>atomic p\<close> is
  the call a coroutine begins at \<open>p\<close>, given the clock when it decides to ask, the answer, and the clock at the answer.
\<close>

inductive serial ::
  "('p \<Rightarrow> seconds \<Rightarrow> 'a \<Rightarrow> seconds \<Rightarrow> 's \<Rightarrow> 'r \<times> 's) \<Rightarrow> 'p list \<Rightarrow> 's \<Rightarrow> (nat \<times> 'r) list \<Rightarrow> 's \<Rightarrow> bool"
  for atomic ps s0 where
  none: "serial atomic ps s0 [] s0"
| called: "serial atomic ps s0 cs s \<Longrightarrow> atomic (ps ! i) now a later s = (r, s') \<Longrightarrow>
    serial atomic ps s0 (cs @ [(i, r)]) s'"

definition completed :: "(nat \<times> 'r) list \<Rightarrow> ('p, 'w, 'q, 'r) task list \<Rightarrow> bool" where
  "completed cs ts \<longleftrightarrow>
     distinct (map fst cs) \<and> (\<forall>i r. (i, r) \<in> set cs \<longleftrightarrow> i < length ts \<and> ts ! i = Done r)"

lemma completed_more:
  assumes "completed cs ts" and "i < length ts" and "unfinished (ts ! i)"
  shows "\<not> unfinished t \<Longrightarrow> t = Done r \<Longrightarrow> completed (cs @ [(i, r)]) (ts[i := t])"
    and "unfinished t \<Longrightarrow> completed cs (ts[i := t])"
proof -
  have "i \<notin> fst ` set cs"
    using assms by (auto simp: completed_def)
  then show "\<not> unfinished t \<Longrightarrow> t = Done r \<Longrightarrow> completed (cs @ [(i, r)]) (ts[i := t])"
    and "unfinished t \<Longrightarrow> completed cs (ts[i := t])"
    using assms by (fastforce simp: completed_def nth_list_update)+
qed

locale double_checked = lock_discipline resume inside gas
  for resume :: "('s, 'p, 'w, 'q, 'a, 'r) coroutine" and inside :: "'p \<Rightarrow> bool" and gas :: "'p + 'w \<Rightarrow> nat" +
  fixes call :: "'p \<Rightarrow> 'p"
    and atomic :: "'p \<Rightarrow> seconds \<Rightarrow> 'a \<Rightarrow> seconds \<Rightarrow> 's \<Rightarrow> 'r \<times> 's"
  assumes call_outside: "\<not> inside p \<Longrightarrow> call p = p"
    and acquires: "resume (Run p) now s = (Acquire p', s') \<Longrightarrow> call p' = call p \<and> s' = s"
    and once: "resume (Run p) now s \<noteq> (Reacquire p', s')"
    and returns: "resume (Run p) now s = (Return r, s') \<or> resume (Run p) now s = (Leave r, s') \<Longrightarrow>
      atomic (call p) now a later s = (r, s')"
    and asks: "resume (Run p) now s = (Ask q w, s') \<Longrightarrow>
      s' = s \<and> resume (Wake w a) later s = map_prod Leave id (atomic (call p) now a later s)"
begin

text \<open>What is known of a coroutine that began at \<open>p0\<close>, when the shared state is \<open>s\<close>.\<close>

fun tracked :: "'p \<Rightarrow> 's \<Rightarrow> ('p, 'w, 'q, 'r) task \<Rightarrow> bool" where
  "tracked p0 s (Ready p) = (call p = p0)"
| "tracked p0 s (Waiting p) = (call p = p0)"
| "tracked p0 s (Asking q w) =
     (\<exists>now. \<forall>a later. resume (Wake w a) later s = map_prod Leave id (atomic p0 now a later s))"
| "tracked p0 s (Done r) = True"

definition serialised :: "'p list \<Rightarrow> 's \<Rightarrow> ('s, 'p, 'w, 'q, 'a, 'r) loop \<Rightarrow> bool" where
  "serialised ps s0 l \<longleftrightarrow>
     lock_inv l \<and> length (lp_tasks l) = length ps \<and>
     (\<forall>i < length ps. tracked (ps ! i) (lp_state l) (lp_tasks l ! i)) \<and>
     (\<exists>cs. serial atomic ps s0 cs (lp_state l) \<and> completed cs (lp_tasks l))"

lemma tracked_state: "tracked p0 s t \<Longrightarrow> \<not> is_asking t \<or> s' = s \<Longrightarrow> tracked p0 s' t"
  by (cases t) auto

text \<open>A run of coroutine \<open>i\<close> that is the beginning of its call, or the whole of it.\<close>

lemma serialised_suspend:
  assumes inv: "serialised ps s0 l" and i: "i < length ps" "unfinished (lp_tasks l ! i)"
    and l1: "lp_tasks l1 = lp_tasks l" "lp_state l1 = lp_state l" and lock: "lock_inv (suspend i y l1)"
    and others: "\<And>j. j < length ps \<Longrightarrow> j \<noteq> i \<Longrightarrow> is_asking (lp_tasks l ! j) \<Longrightarrow> snd y = lp_state l"
    and run: "(\<exists>p. y = (Acquire p, lp_state l) \<and> call p = ps ! i) \<or>
      (\<exists>q w. y = (Ask q w, lp_state l) \<and> tracked (ps ! i) (lp_state l) (Asking q w)) \<or>
      (\<exists>e now a later. y = map_prod e id (atomic (ps ! i) now a later (lp_state l)) \<and> e \<in> {Return, Leave})"
  shows "serialised ps s0 (suspend i y l1)"
proof -
  from inv obtain cs where len: "length (lp_tasks l) = length ps"
    and tr: "\<And>j. j < length ps \<Longrightarrow> tracked (ps ! j) (lp_state l) (lp_tasks l ! j)"
    and cs: "serial atomic ps s0 cs (lp_state l)" "completed cs (lp_tasks l)"
    by (auto simp: serialised_def)
  have keep: "tracked (ps ! j) (snd y) (lp_tasks l ! j)" if "j < length ps" "j \<noteq> i" for j
    using tracked_state[OF tr[OF that(1)], of "snd y"] others[OF that] by blast
  note more = completed_more[OF cs(2) _ i(2)]
  from run consider
      (acquire) p where "y = (Acquire p, lp_state l)" "call p = ps ! i"
    | (ask) q w where "y = (Ask q w, lp_state l)" "tracked (ps ! i) (lp_state l) (Asking q w)"
    | (return) e now a later where "y = map_prod e id (atomic (ps ! i) now a later (lp_state l))" "e \<in> {Return, Leave}"
    by blast
  then show ?thesis
  proof cases
    case acquire
    with lock keep i len cs more(2)[of "Waiting p"] l1 show ?thesis
      by (auto simp: serialised_def nth_list_update)
  next
    case ask
    with lock keep i len cs more(2)[of "Asking q w"] l1 show ?thesis
      by (auto simp: serialised_def nth_list_update)
  next
    case return
    obtain r s' where r: "atomic (ps ! i) now a later (lp_state l) = (r, s')"
      by (cases "atomic (ps ! i) now a later (lp_state l)")
    with return have y: "y = (Return r, s') \<or> y = (Leave r, s')"
      by auto
    from serial.called[OF cs(1) r] more(1)[of "Done r" r] i(1) len
    have "\<exists>cs. serial atomic ps s0 cs s' \<and> completed cs ((lp_tasks l)[i := Done r])"
      by auto
    with lock keep i len l1 y show ?thesis
      by (auto simp: serialised_def nth_list_update)
  qed
qed

lemma serialised_perform:
  assumes inv: "serialised ps s0 l" and step: "perform resume m l = Some l'"
  shows "serialised ps s0 l'"
proof -
  have lock: "lock_inv l" "lock_inv l'"
    using inv lock_inv_perform[OF _ step] by (auto simp: serialised_def)
  have len: "length (lp_tasks l) = length ps"
    and tr: "\<And>j. j < length ps \<Longrightarrow> tracked (ps ! j) (lp_state l) (lp_tasks l ! j)"
    using inv by (auto simp: serialised_def)
  have run: "(\<exists>p'. resume (Run p) now s = (Acquire p', s) \<and> call p' = p0) \<or>
      (\<exists>q w. resume (Run p) now s = (Ask q w, s) \<and> tracked p0 s (Asking q w)) \<or>
      (\<exists>e t a later. resume (Run p) now s = map_prod e id (atomic p0 t a later s) \<and> e \<in> {Return, Leave})"
    if "call p = p0" for p p0 now s
  proof -
    obtain y s' where y: "resume (Run p) now s = (y, s')"
      by (cases "resume (Run p) now s")
    have "\<exists>e t a later. resume (Run p) now s = map_prod e id (atomic p0 t a later s) \<and> e \<in> {Return, Leave}"
      if "y = e r" "e \<in> {Return, Leave}" for e r
      using y returns[of p now s r s' undefined now] that \<open>call p = p0\<close>
      by (intro exI[of _ e] exI[of _ now] exI[of _ undefined]) (auto simp: id_def)
    note ended = this[of Return] this[of Leave]
    with y acquires[of p now s _ s'] asks[of p now s _ _ s'] once[of p now s _ s'] that show ?thesis
      by (cases y) auto
  qed
  from step show ?thesis
  proof (cases rule: perform_cases)
    case (1 i p now)
    have out: "\<not> inside p"
      using lock(1) 1(1,3) by (auto simp: lock_inv_def)
    have "call p = ps ! i"
      using tr[of i] 1(1,3) len by simp
    from run[OF this, of now "lp_state l"] outside_reads[OF out] 1 lock len show ?thesis
      unfolding 1(4) by (intro serialised_suspend[OF inv]) auto
  next
    case (2 i p now)
    have "call p = ps ! i"
      using tr[of i] 2(1,4) len by simp
    moreover have "\<not> is_asking (lp_tasks l ! j)" if "j < length ps" for j
      using lock(1) 2(3) that len by (cases "lp_tasks l ! j") (force simp: lock_inv_def)+
    ultimately show ?thesis
      using run[of p "ps ! i" now "lp_state l"] 2 lock len
      unfolding 2(5) by (intro serialised_suspend[OF inv]) auto
  next
    case (3 i q w a now)
    have "\<not> is_asking (lp_tasks l ! j)" if "j < length ps" "j \<noteq> i" for j
      using one_asks_at_a_time[OF lock(1), of i j] 3(1,3) that len by auto
    moreover have "\<exists>e t a' later. resume (Wake w a) now (lp_state l) = map_prod e id (atomic (ps ! i) t a' later (lp_state l)) \<and> e \<in> {Return, Leave}"
      using tr[of i] 3(1,3) len by fastforce
    ultimately show ?thesis
      using 3 lock len unfolding 3(4) by (intro serialised_suspend[OF inv]) auto
  qed
qed

text \<open>Every schedule of coroutines that have not begun is a sequence of calls, one for each that has finished.\<close>

lemma schedule_is_serial:
  assumes "schedule resume (launch s0 now ps) ms l" and "list_all (\<lambda>p. \<not> inside p) ps"
  shows "\<exists>cs. serial atomic ps s0 cs (lp_state l) \<and> completed cs (lp_tasks l)"
proof -
  have "serialised ps s0 (launch s0 now ps)"
    using lock_inv_launch[OF assms(2)] assms(2) call_outside
    by (auto simp: serialised_def list_all_length completed_def intro!: exI[of _ "[]"] serial.none)
  with assms(1) have "serialised ps s0 l"
    by induction (auto intro: serialised_perform)
  then show ?thesis
    by (simp add: serialised_def)
qed

end

end
