(* ===== verification/Provider_Tasks.thy ===== *)
theory Provider_Tasks
  imports Async_Lock Db_Provider
begin

section \<open>Concurrent calls of the session factory\<close>

text \<open>
  \<^verbatim>\<open>Database.sessionmaker\<close> of \<^verbatim>\<open>src/kitchensense/db/provider.py\<close> as a coroutine: the check without the lock, the section under the
  lock up to the Key Vault lookup, and what follows the lookup's answer.  The answer is that of \<^verbatim>\<open>asyncio.wait_for\<close>: a secret, a
  timeout or an exception.  \<open>Db_Provider.sessionmaker\<close> is the same method as one step; the interpretation \<open>provider\<close> shows that
  schedules of the coroutines are sequences of such steps.
\<close>

datatype provider_point = SessionCall | SessionLocked

datatype provider_wait = VaultAsked

definition answering :: "outside \<Rightarrow> vault_answer \<Rightarrow> outside" where
  "answering w answer = w\<lparr>ow_get_secret := (\<lambda>_. answer)\<rparr>"

text \<open>What \<^verbatim>\<open>sessionmaker\<close> does with the URL \<^verbatim>\<open>_resolve_url\<close> returned.\<close>

definition build_factory ::
  "outside \<Rightarrow> (provider_error + string) \<times> database \<Rightarrow>
     (provider_point, provider_wait, string, provider_error + string) suspension \<times> database" where
  "build_factory w resolved =
     (case resolved of
        (Inl e, db) \<Rightarrow> (Leave (Inl e), db)
      | (Inr url, db) \<Rightarrow>
          (case create_engine w url of
             Inl e \<Rightarrow> (Leave (Inl e), db)
           | Inr engine \<Rightarrow>
               (Leave (Inr (create_sessionmaker engine)),
                db\<lparr>pv_engine := Some engine, pv_sessionmaker := Some (create_sessionmaker engine)\<rparr>)))"

text \<open>\<^verbatim>\<open>_resolve_url\<close> from the answer of the lookup on.\<close>

definition vault_answered ::
  "outside \<Rightarrow> vault_answer \<Rightarrow> seconds \<Rightarrow> database \<Rightarrow> (provider_error + string) \<times> database" where
  "vault_answered w answer failed_at db =
     (let settings = pv_settings db;
          secret_at = ow_repr w (st_postgres_secret_name settings) @ '' from '' @ st_key_vault_uri settings
      in case read_secret (answering w answer) settings of
           VaultTimedOut \<Rightarrow> map_prod Inl id (vault_failed (''timed out reading '' @ secret_at) failed_at db)
         | VaultFailed exc \<Rightarrow>
             map_prod Inl id (vault_failed (''could not read '' @ secret_at @ '': '' @ exc) failed_at db)
         | Secret secret \<Rightarrow>
             (case normalize_database_url w secret of None \<Rightarrow> Inl ArgumentError | Some url \<Rightarrow> Inr url,
              db\<lparr>pv_source := KeyVault, pv_last_error := None, pv_retry_not_before := 0\<rparr>))"

fun sessionmaker_task ::
  "outside \<Rightarrow> (database, provider_point, provider_wait, string, vault_answer, provider_error + string) coroutine" where
  "sessionmaker_task w (Run SessionCall) now db =
     (case pv_sessionmaker db of
        Some factory \<Rightarrow> (Return (Inr factory), db)
      | None \<Rightarrow> (Acquire SessionLocked, db))"
| "sessionmaker_task w (Run SessionLocked) now db =
     (case pv_sessionmaker db of
        Some factory \<Rightarrow> (Leave (Inr factory), db)
      | None \<Rightarrow>
          (case configured_database_url w of
             Inl e \<Rightarrow> build_factory w (Inl e, db)
           | Inr (Some url) \<Rightarrow> build_factory w (Inr url, db\<lparr>pv_source := Environment, pv_last_error := None\<rparr>)
           | Inr None \<Rightarrow>
               if now < pv_retry_not_before db
               then build_factory w
                 (Inl (DatabaseUnavailableError
                    (case pv_last_error db of
                       Some e \<Rightarrow> or_else e ''the connection string could not be read''
                     | None \<Rightarrow> ''the connection string could not be read'')), db)
               else (Ask (st_postgres_secret_name (pv_settings db)) VaultAsked, db)))"
| "sessionmaker_task w (Wake VaultAsked answer) failed_at db = build_factory w (vault_answered w answer failed_at db)"

fun provider_inside :: "provider_point \<Rightarrow> bool" where
  "provider_inside SessionCall = False"
| "provider_inside SessionLocked = True"

fun provider_gas :: "provider_point + provider_wait \<Rightarrow> nat" where
  "provider_gas (Inl SessionCall) = 2"
| "provider_gas (Inl SessionLocked) = 1"
| "provider_gas (Inr VaultAsked) = 0"

subsection \<open>The coroutine and the method\<close>

lemma build_factory_leaves: "\<exists>r db. build_factory w x = (Leave r, db)"
  by (auto simp: build_factory_def split: prod.split sum.split)

lemma build_factory_no_return [simp]: "build_factory w x \<noteq> (Return r, db)"
  using build_factory_leaves[of w x] by auto

lemma answering_sel [simp]:
  "normalize_database_url (answering w a) = normalize_database_url w"
  "configured_database_url (answering w a) = configured_database_url w"
  "create_engine (answering w a) = create_engine w"
  "ow_repr (answering w a) = ow_repr w" "ow_get_secret (answering w a) = (\<lambda>_. a)"
proof -
  have env: "ow_environ (answering w a) = ow_environ w" "ow_accepts (answering w a) = ow_accepts w"
    by (simp_all add: answering_def)
  show url: "normalize_database_url (answering w a) = normalize_database_url w"
    by (simp add: fun_eq_iff normalize_database_url_def answering_def)
  show conf: "configured_database_url (answering w a) = configured_database_url w"
    unfolding configured_database_url_def url env ..
  show "create_engine (answering w a) = create_engine w"
    unfolding create_engine_def database_url_def fun_eq_iff conf env by simp
qed (simp_all add: answering_def)

lemma vault_resolved:
  assumes "configured_database_url w = Inr None" and "\<not> now < pv_retry_not_before db"
  shows "resolve_url (answering w a) now later db = vault_answered w a later db"
  using assms
  by (simp add: resolve_url_def vault_answered_def Let_def vault_failed_def split: vault_answer.split option.split)

lemma sessionmaker_built:
  assumes "pv_sessionmaker db = None"
  shows "map_prod Leave id (sessionmaker (answering w a) now later db) =
    build_factory w (resolve_url (answering w a) now later db)"
  using assms by (simp add: sessionmaker_def build_factory_def split: prod.split sum.split)

interpretation provider: double_checked "sessionmaker_task w" provider_inside provider_gas
  "\<lambda>_. SessionCall" "\<lambda>_ now a later db. sessionmaker (answering w a) now later db" for w
proof unfold_locales
  fix k now db p db'
  assume "sessionmaker_task w k now db = (Acquire p, db')"
  then show "\<not> holds provider_inside k \<and> provider_inside p \<and> provider_gas (Inl p) < provider_gas (point k)"
    by (cases "(w, k, now, db)" rule: sessionmaker_task.cases)
      (auto simp: build_factory_def split: option.splits sum.splits if_splits prod.splits)
next
  fix k now db p db'
  assume "sessionmaker_task w k now db = (Reacquire p, db')"
  then show "holds provider_inside k \<and> provider_inside p \<and> provider_gas (Inl p) < provider_gas (point k)"
    by (cases "(w, k, now, db)" rule: sessionmaker_task.cases)
      (auto simp: build_factory_def split: option.splits sum.splits if_splits prod.splits)
next
  fix k now db r db'
  assume "sessionmaker_task w k now db = (Return r, db')"
  then show "\<not> holds provider_inside k"
    by (cases "(w, k, now, db)" rule: sessionmaker_task.cases)
      (auto simp: build_factory_def split: option.splits sum.splits if_splits prod.splits)
next
  fix k now db r db'
  assume "sessionmaker_task w k now db = (Leave r, db')"
  then show "holds provider_inside k"
    by (cases "(w, k, now, db)" rule: sessionmaker_task.cases) (auto split: option.splits)
next
  fix p now db p' db'
  show "sessionmaker_task w (Run p) now db \<noteq> (Reacquire p', db')"
    by (cases p) (auto simp: build_factory_def split: option.splits sum.splits if_splits prod.splits)
next
  fix k now db q x db'
  assume "sessionmaker_task w k now db = (Ask q x, db')"
  then show "holds provider_inside k \<and> provider_gas (Inr x) < provider_gas (point k)"
    by (cases "(w, k, now, db)" rule: sessionmaker_task.cases; cases x)
      (auto simp: build_factory_def split: option.splits sum.splits if_splits prod.splits)
next
  fix p now db
  assume "\<not> provider_inside p"
  then show "snd (sessionmaker_task w (Run p) now db) = db"
    by (cases p) (auto split: option.split)
next
  fix p
  assume "\<not> provider_inside p"
  then show "SessionCall = p"
    by (cases p) auto
next
  fix p now db p' db'
  assume "sessionmaker_task w (Run p) now db = (Acquire p', db')"
  then show "SessionCall = SessionCall \<and> db' = db"
    by (cases p) (auto simp: build_factory_def split: option.splits sum.splits if_splits prod.splits)
next
  fix p now db r db' a later
  assume ret: "sessionmaker_task w (Run p) now db = (Return r, db') \<or> sessionmaker_task w (Run p) now db = (Leave r, db')"
  show "sessionmaker (answering w a) now later db = (r, db')"
  proof (cases "pv_sessionmaker db")
    case (Some f)
    with ret show ?thesis
      by (cases p) (auto simp: sessionmaker_def)
  next
    case None
    with ret have "build_factory w (resolve_url (answering w a) now later db) = (Leave r, db')"
      by (cases p) (auto simp: resolve_url_def split: option.splits sum.splits if_splits)
    with sessionmaker_built[OF None, of w a now later] show ?thesis
      by (cases "sessionmaker (answering w a) now later db") simp
  qed
next
  fix p now db q x db' a later
  assume ask: "sessionmaker_task w (Run p) now db = (Ask q x, db')"
  then have "pv_sessionmaker db = None" "configured_database_url w = Inr None" "\<not> now < pv_retry_not_before db" "db' = db"
    by (cases p; auto simp: build_factory_def split: option.splits sum.splits if_splits prod.splits)+
  then show "db' = db \<and> sessionmaker_task w (Wake x a) later db =
      map_prod Leave id (sessionmaker (answering w a) now later db)"
    by (cases x) (simp add: sessionmaker_built vault_resolved)
qed

subsection \<open>A cold start asks once\<close>

text \<open>
  Whether an answer of the vault spares the next caller the lookup: it is a URL the engine accepts, or it starts the cool-down.  A secret that
  is not a URL does neither; \<^verbatim>\<open>_resolve_url\<close> ends the cool-down before \<^verbatim>\<open>create_engine\<close> raises \<^verbatim>\<open>ArgumentError\<close>.
\<close>

fun settles :: "outside \<Rightarrow> vault_answer \<Rightarrow> bool" where
  "settles w (Secret s) =
     (s = [] \<or> (case normalize_database_url w s of None \<Rightarrow> False | Some url \<Rightarrow> \<not> isl (create_engine w url)))"
| "settles w _ = True"

definition malformed_secrets :: "outside \<Rightarrow>
    (database, provider_point, provider_wait, string, vault_answer, provider_error + string) loop \<Rightarrow> nat" where
  "malformed_secrets w l = length (filter (\<lambda>qa. \<not> settles w (snd qa)) (lp_answers l))"

text \<open>Until \<open>deadline\<close> nobody needs to ask again: the factory is built, or the cool-down lasts.\<close>

definition settled :: "seconds \<Rightarrow> database \<Rightarrow> bool" where
  "settled deadline db \<longleftrightarrow> pv_sessionmaker db \<noteq> None \<or> deadline \<le> pv_retry_not_before db"

lemma locked_run:
  assumes "sessionmaker_task w (Run SessionLocked) now db = (x, db')"
  shows "pv_settings db' = pv_settings db" and "settled t db \<Longrightarrow> settled t db'"
    and "x = Ask q v \<Longrightarrow> \<not> (settled t db \<and> now < t)" and "\<not> (x = Acquire p \<or> x = Reacquire p \<or> x = Return r)"
  using assms
  by (auto simp: build_factory_def settled_def split: option.splits sum.splits if_splits prod.splits)

lemma answered_run:
  assumes "sessionmaker_task w (Wake v a) now db = (x, db')"
  shows "pv_settings db' = pv_settings db"
    and "settles w a \<Longrightarrow> settled (now + st_key_vault_retry_cooldown_seconds (pv_settings db)) db'"
proof -
  obtain r where "build_factory w (vault_answered w a now db) = (Leave r, db')"
    using assms build_factory_leaves by (cases v) (metis prod.inject sessionmaker_task.simps(3))
  then show "pv_settings db' = pv_settings db"
    and "settles w a \<Longrightarrow> settled (now + st_key_vault_retry_cooldown_seconds (pv_settings db)) db'"
    by (cases a; auto simp: build_factory_def vault_answered_def vault_failed_def read_secret_def settled_def Let_def
        split: option.splits sum.splits if_splits)+
qed

definition one_lookup :: "outside \<Rightarrow> settings \<Rightarrow> seconds \<Rightarrow>
    (database, provider_point, provider_wait, string, vault_answer, provider_error + string) loop \<Rightarrow> bool" where
  "one_lookup w settings deadline l \<longleftrightarrow>
     pv_settings (lp_state l) = settings \<and> length (lp_asked l) \<le> Suc (malformed_secrets w l) \<and>
     (malformed_secrets w l < length (lp_asked l) \<longrightarrow> lp_owner l \<noteq> None \<or> settled deadline (lp_state l))"

lemma one_lookup_perform:
  assumes lock: "provider.lock_inv l" and inv: "one_lookup w settings deadline l"
    and step: "perform (sessionmaker_task w) m l = Some l'" and time: "lp_now l' < deadline"
    and start: "deadline \<le> lp_now l + st_key_vault_retry_cooldown_seconds settings"
  shows "one_lookup w settings deadline l'"
  using step
proof (cases rule: perform_cases)
  case (1 i p now)
  with lock have "p = SessionCall"
    by (cases p) (force simp: provider.lock_inv_def)+
  with 1 inv lock show ?thesis
    by (force simp: one_lookup_def malformed_secrets_def provider.lock_inv_def release_def split: option.splits)
next
  case (2 i p now)
  with lock have "p = SessionLocked"
    by (cases p) (force simp: provider.lock_inv_def)+
  moreover obtain x db' where x: "sessionmaker_task w (Run SessionLocked) now (lp_state l) = (x, db')"
    by (cases "sessionmaker_task w (Run SessionLocked) now (lp_state l)")
  moreover have "now < deadline"
    using time 2(5) by simp
  ultimately show ?thesis
    using inv 2 locked_run(1)[OF x] locked_run(2)[OF x, of deadline] locked_run(3)[OF x, where t = deadline] locked_run(4)[OF x]
    by (cases x) (auto simp: one_lookup_def malformed_secrets_def release_def)
next
  case (3 i q v a now)
  obtain x db' where x: "sessionmaker_task w (Wake v a) now (lp_state l) = (x, db')"
    by (cases "sessionmaker_task w (Wake v a) now (lp_state l)")
  then obtain r where r: "x = Leave r"
    using build_factory_leaves by (cases v) (metis prod.inject sessionmaker_task.simps(3))
  show ?thesis
    using answered_run[OF x] inv 3 start r x
    by (cases "settles w a") (auto simp: one_lookup_def malformed_secrets_def settled_def)
qed

lemma one_lookup_schedule:
  assumes "schedule (sessionmaker_task w) (launch (new_database settings) now (replicate n SessionCall)) ms l"
    and "lp_now l < now + st_key_vault_retry_cooldown_seconds settings"
  shows "one_lookup w settings (now + st_key_vault_retry_cooldown_seconds settings) l"
  using assms
proof induction
  case idle
  then show ?case
    by (simp add: one_lookup_def malformed_secrets_def new_database_def)
next
  case (moved ms l m l')
  have "provider.lock_inv (launch (new_database settings) now (replicate n SessionCall))"
    by (rule provider.lock_inv_launch) (simp add: list_all_length)
  from provider.lock_inv_schedule[OF moved.hyps(1) this] schedule_now[OF moved.hyps(1)] moved show ?case
    by (intro one_lookup_perform[OF _ _ moved.hyps(2)]) (auto elim!: perform_cases)
qed

subsection \<open>Properties\<close>


text \<open>
  The exception is real.  A secret that is not a URL ends the cool-down and then makes \<^verbatim>\<open>create_engine\<close> raise: of any number of requests that wait together,
  each asks the vault again, at the very same instant.
\<close>

theorem malformed_secret_is_asked_again:
  assumes "configured_database_url w = Inr None" and "normalize_database_url w secret = None" and "secret \<noteq> []"
    and "0 \<le> now"
  shows "\<exists>ms l. schedule (sessionmaker_task w) (launch (new_database settings) now (replicate n SessionCall)) ms l \<and>
    lp_now l = now \<and> length (lp_asked l) = n \<and> list_all (\<lambda>t. t = Done (Inl ArgumentError)) (lp_tasks l)"
proof -
  let ?run = "sessionmaker_task w"
  let ?l0 = "launch (new_database settings) now (replicate n SessionCall)"
  let ?name = "st_postgres_secret_name settings"
  let ?refused = "(new_database settings)\<lparr>pv_source := KeyVault\<rparr>"
  define after :: "nat \<Rightarrow> (database, provider_point, provider_wait, string, vault_answer, provider_error + string) loop"
    where "after m = \<lparr>lp_state = (if m = 0 then new_database settings else ?refused), lp_owner = None,
    lp_tasks = replicate m (Done (Inl ArgumentError)) @ replicate (n - m) (Ready SessionCall), lp_now = now,
    lp_asked = replicate m ?name, lp_answers = replicate m (?name, Secret secret)\<rparr>" for m
  have "\<exists>ms. schedule ?run ?l0 ms (after m)" if "m \<le> n" for m
    using that
  proof (induction m)
    case 0
    have "after 0 = ?l0"
      by (simp add: after_def launch_def)
    then show ?case
      using schedule.idle by metis
  next
    case (Suc m)
    then obtain ms where "schedule ?run ?l0 ms (after m)"
      by auto
    moreover obtain j where n: "n - m = Suc j" "n - Suc m = j"
      using Suc.prems by (metis Suc_diff_Suc Suc_le_lessD)
    have "replay ?run [Start m now, Enter m now, Answer m now (Secret secret)] (after m) = Some (after (Suc m))"
      using assms unfolding after_def n
      by (simp add: nth_append list_update_append build_factory_def vault_answered_def read_secret_def answering_def
          new_database_def release_def replicate_append_same)
    ultimately show ?case
      by (auto simp del: perform.simps split: Option.bind_splits intro: schedule.moved)
  qed
  then obtain ms where "schedule ?run ?l0 ms (after n)"
    by blast
  moreover have "lp_now (after n) = now" "length (lp_asked (after n)) = n"
    "list_all (\<lambda>t. t = Done (Inl ArgumentError)) (lp_tasks (after n))"
    by (simp_all add: after_def list_all_length)
  ultimately show ?thesis
    by blast
qed

definition vault_world :: outside where
  "vault_world = example_outside\<lparr>ow_make_url := (\<lambda>_. Some example_url)\<rparr>"

definition two_callers :: "vault_answer move list" where
  "two_callers = [Start 0 100, Start 1 100, Enter 1 101, Answer 1 105 (Secret ''postgresql://app''), Enter 0 105]"

lemma two_callers_run:
  shows "replay (sessionmaker_task vault_world) two_callers
      (launch (new_database example_db_settings) 100 (replicate 2 SessionCall)) \<noteq> None"
    and "list_all (\<lambda>t. \<not> unfinished t) (lp_tasks (the (replay (sessionmaker_task vault_world) two_callers
      (launch (new_database example_db_settings) 100 (replicate 2 SessionCall)))))"
  by code_simp+


end
