(* ===== verification/Store_Tasks.thy ===== *)
theory Store_Tasks
  imports Async_Lock Storage_Receipts
begin

section \<open>Concurrent uploads and the delegation key\<close>

text \<open>
  \<^verbatim>\<open>ReceiptBlobStore._delegation_key\<close> of \<^verbatim>\<open>src/kitchensense/storage/receipts.py\<close> as a coroutine.  The instant a request was made at is the
  coroutine's argument; the answer is that of \<^verbatim>\<open>asyncio.wait_for\<close> around the fetch.  The interpretation \<open>store\<close> shows that schedules
  are sequences of calls of \<open>Storage_Receipts.delegation_key\<close>.
\<close>

datatype key_point = KeyCall datetime | KeyLocked datetime

datatype key_wait = KeyAsked datetime

definition key_window :: "settings \<Rightarrow> datetime \<Rightarrow> datetime \<times> datetime" where
  "key_window settings now =
     (now - timedelta_us (st_storage_clock_skew_seconds settings),
      now + timedelta_us (st_delegation_key_ttl_seconds settings))"

fun delegation_key_task ::
  "('k blob_store, key_point, key_wait, datetime \<times> datetime, 'k fetched, storage_error + 'k) coroutine" where
  "delegation_key_task (Run (KeyCall now)) _ st =
     (case cached_key now st of Some key \<Rightarrow> (Return (Inr key), st) | None \<Rightarrow> (Acquire (KeyLocked now), st))"
| "delegation_key_task (Run (KeyLocked now)) _ st =
     (case cached_key now st of
        Some key \<Rightarrow> (Leave (Inr key), st)
      | None \<Rightarrow> (Ask (key_window (bs_settings st) now) (KeyAsked now), st))"
| "delegation_key_task (Wake (KeyAsked now) answer) _ st =
     (case answer of
        TimedOut \<Rightarrow> (Leave (Inl KeyTimedOut), st)
      | Refused \<Rightarrow> (Leave (Inl KeyRefused), st)
      | Fetched key \<Rightarrow>
          (Leave (Inr key),
           st\<lparr>bs_key := Some key,
              bs_key_usable_until := snd (key_window (bs_settings st) now) -
                timedelta_us (st_upload_sas_ttl_seconds (bs_settings st))\<rparr>))"

fun key_inside :: "key_point \<Rightarrow> bool" where
  "key_inside (KeyCall _) = False"
| "key_inside (KeyLocked _) = True"

fun key_gas :: "key_point + key_wait \<Rightarrow> nat" where
  "key_gas (Inl (KeyCall _)) = 2"
| "key_gas (Inl (KeyLocked _)) = 1"
| "key_gas (Inr (KeyAsked _)) = 0"

fun key_instant :: "key_point \<Rightarrow> datetime" where
  "key_instant (KeyCall now) = now"
| "key_instant (KeyLocked now) = now"

interpretation store: double_checked delegation_key_task key_inside key_gas
  "\<lambda>p. KeyCall (key_instant p)" "\<lambda>p _ answer _ st. delegation_key (\<lambda>_ _. answer) (key_instant p) st"
proof unfold_locales
  fix k now and st :: "'k blob_store" and p st'
  assume "delegation_key_task k now st = (Acquire p, st')"
  then show "\<not> holds key_inside k \<and> key_inside p \<and> key_gas (Inl p) < key_gas (point k)"
    by (cases "(k, now, st)" rule: delegation_key_task.cases) (auto split: option.splits fetched.splits)
next
  fix k now and st :: "'k blob_store" and p st'
  assume "delegation_key_task k now st = (Reacquire p, st')"
  then show "holds key_inside k \<and> key_inside p \<and> key_gas (Inl p) < key_gas (point k)"
    by (cases "(k, now, st)" rule: delegation_key_task.cases) (auto split: option.splits fetched.splits)
next
  fix k now and st :: "'k blob_store" and r st'
  assume "delegation_key_task k now st = (Return r, st')"
  then show "\<not> holds key_inside k"
    by (cases "(k, now, st)" rule: delegation_key_task.cases) (auto split: option.splits fetched.splits)
next
  fix k now and st :: "'k blob_store" and r st'
  assume "delegation_key_task k now st = (Leave r, st')"
  then show "holds key_inside k"
    by (cases "(k, now, st)" rule: delegation_key_task.cases) (auto split: option.splits fetched.splits)
next
  fix p now and st :: "'k blob_store" and p' st'
  show "delegation_key_task (Run p) now st \<noteq> (Reacquire p', st')"
    by (cases p) (auto split: option.split)
next
  fix k now and st :: "'k blob_store" and q x st'
  assume "delegation_key_task k now st = (Ask q x, st')"
  then show "holds key_inside k \<and> key_gas (Inr x) < key_gas (point k)"
    by (cases "(k, now, st)" rule: delegation_key_task.cases) (auto split: option.splits fetched.splits)
next
  fix p now and st :: "'k blob_store"
  assume "\<not> key_inside p"
  then show "snd (delegation_key_task (Run p) now st) = st"
    by (cases p) (auto split: option.split)
next
  fix p
  assume "\<not> key_inside p"
  then show "KeyCall (key_instant p) = p"
    by (cases p) auto
next
  fix p now and st :: "'k blob_store" and p' st'
  assume "delegation_key_task (Run p) now st = (Acquire p', st')"
  then show "KeyCall (key_instant p') = KeyCall (key_instant p) \<and> st' = st"
    by (cases p) (auto split: option.splits)
next
  fix p now and st :: "'k blob_store" and r st' a and later :: seconds
  assume "delegation_key_task (Run p) now st = (Return r, st') \<or> delegation_key_task (Run p) now st = (Leave r, st')"
  then show "delegation_key (\<lambda>_ _. a) (key_instant (KeyCall (key_instant p))) st = (r, st')"
    by (cases p) (auto simp: delegation_key_def split: option.splits)
next
  fix p now and st :: "'k blob_store" and q x st' a later
  assume "delegation_key_task (Run p) now st = (Ask q x, st')"
  then show "st' = st \<and> delegation_key_task (Wake x a) later st =
      map_prod Leave id (delegation_key (\<lambda>_ _. a) (key_instant (KeyCall (key_instant p))) st)"
    by (cases p)
      (auto simp: delegation_key_def delegation_key_locked_def key_window_def Let_def split: option.splits fetched.splits)
qed

subsection \<open>Uploads that arrive together obtain one key\<close>

fun is_fetched :: "'k fetched \<Rightarrow> bool" where
  "is_fetched (Fetched _) = True"
| "is_fetched _ = False"

definition keys_obtained :: "('k blob_store, key_point, key_wait, datetime \<times> datetime, 'k fetched, storage_error + 'k) loop \<Rightarrow> nat" where
  "keys_obtained l = length (filter (is_fetched \<circ> snd) (lp_answers l))"

text \<open>The instants for which a key asked for at \<open>t\<close> still signs.\<close>

definition key_serves :: "settings \<Rightarrow> datetime \<Rightarrow> datetime set" where
  "key_serves settings t =
     {t ..< t + timedelta_us (st_delegation_key_ttl_seconds settings) - timedelta_us (st_upload_sas_ttl_seconds settings)}"

fun task_instant :: "(key_point, key_wait, 'q, 'r) task \<Rightarrow> datetime set" where
  "task_instant (Ready p) = {key_instant p}"
| "task_instant (Waiting p) = {key_instant p}"
| "task_instant (Asking q (KeyAsked now)) = {now}"
| "task_instant (Done r) = {}"

definition one_key :: "settings \<Rightarrow> datetime \<Rightarrow>
    ('k blob_store, key_point, key_wait, datetime \<times> datetime, 'k fetched, storage_error + 'k) loop \<Rightarrow> bool" where
  "one_key settings t l \<longleftrightarrow>
     bs_settings (lp_state l) = settings \<and> (\<forall>x \<in> set (lp_tasks l). task_instant x \<subseteq> key_serves settings t) \<and>
     (keys_obtained l = 0 \<or>
      keys_obtained l = 1 \<and> lp_owner l = None \<and> (\<forall>now \<in> key_serves settings t. cached_key now (lp_state l) \<noteq> None))"

lemma one_key_suspend:
  assumes "one_key settings t l" and "i < length (lp_tasks l)" and "task_instant x \<subseteq> key_serves settings t"
    and "lp_tasks l' = (lp_tasks l)[i := x]" and "bs_settings (lp_state l') = settings"
    and "keys_obtained l' = 0 \<or>
      keys_obtained l' = 1 \<and> lp_owner l' = None \<and> (\<forall>now \<in> key_serves settings t. cached_key now (lp_state l') \<noteq> None)"
  shows "one_key settings t l'"
  using assms by (auto simp: one_key_def dest!: set_update_subset_insert[THEN subsetD])

lemma one_key_perform:
  assumes lock: "store.lock_inv l" and inv: "one_key settings t l" and step: "perform delegation_key_task m l = Some l'"
  shows "one_key settings t l'"
  using step
proof (cases rule: perform_cases)
  case (1 i p now)
  with lock obtain u where u: "p = KeyCall u"
    by (cases p) (force simp: store.lock_inv_def)+
  have "task_instant (lp_tasks l ! i) \<subseteq> key_serves settings t"
    using inv 1(1) by (auto simp: one_key_def)
  with 1 u inv show ?thesis
    by (cases "cached_key u (lp_state l)"; intro one_key_suspend[OF inv 1(1)])
      (auto simp: one_key_def keys_obtained_def release_def)
next
  case (2 i p now)
  with lock obtain u where u: "p = KeyLocked u"
    by (cases p) (force simp: store.lock_inv_def)+
  have "task_instant (lp_tasks l ! i) \<subseteq> key_serves settings t"
    using inv 2(1) by (auto simp: one_key_def)
  with 2 u inv show ?thesis
    by (cases "cached_key u (lp_state l)"; intro one_key_suspend[OF inv 2(1)])
      (auto simp: one_key_def keys_obtained_def release_def)
next
  case (3 i q v a now)
  obtain u where u: "v = KeyAsked u"
    by (cases v)
  have "task_instant (lp_tasks l ! i) \<subseteq> key_serves settings t"
    using inv 3(1) by (auto simp: one_key_def)
  moreover have "lp_owner l = Some i"
    using lock 3(1,3) by (force simp: store.lock_inv_def)
  ultimately show ?thesis
    using 3 u inv
    by (cases a; intro one_key_suspend[OF inv 3(1)])
      (auto simp: one_key_def keys_obtained_def release_def cached_key_def key_serves_def key_window_def)
qed

subsection \<open>Properties\<close>

text \<open>
  C33: uploads that arrive together share one key.  For any number of concurrent requests whose instants lie within the time one key
  signs for, any order of their coroutines and any answers, at most one delegation key is obtained, and at no moment is
  more than one fetch under way.
\<close>

theorem one_key_for_a_burst:
  assumes "schedule delegation_key_task (launch (new_store settings) clock (map KeyCall instants)) ms l"
    and "set instants \<subseteq> key_serves settings t"
  shows "keys_obtained l \<le> 1 \<and> length (filter is_asking (lp_tasks l)) \<le> 1"
proof
  let ?l0 = "launch (new_store settings) clock (map KeyCall instants)"
  have lock0: "store.lock_inv ?l0"
    by (rule store.lock_inv_launch) (simp add: list_all_length)
  have "one_key settings t ?l0"
    using assms(2) by (auto simp: one_key_def new_store_def keys_obtained_def)
  with assms(1) have "one_key settings t l"
    by induction (auto intro: one_key_perform store.lock_inv_schedule[OF _ lock0])
  then show "keys_obtained l \<le> 1"
    by (auto simp: one_key_def)
  have "i = j" if "i < length (lp_tasks l)" "is_asking (lp_tasks l ! i)" "j < length (lp_tasks l)" "is_asking (lp_tasks l ! j)" for i j
    using store.one_asks_at_a_time[OF store.lock_inv_schedule[OF assms(1) lock0]] that by blast
  then have "card {i. i < length (lp_tasks l) \<and> is_asking (lp_tasks l ! i)} \<le> 1"
    by (auto simp: card_le_Suc0_iff_eq)
  then show "length (filter is_asking (lp_tasks l)) \<le> 1"
    by (simp add: length_filter_conv_card)
qed

definition two_uploads :: "(datetime \<times> datetime) fetched move list" where
  "two_uploads = [Start 1 1, Start 0 1, Enter 0 2, Answer 0 3 Refused, Enter 1 3, Answer 1 4 (Fetched (1, 2)), Start 2 4]"

lemma two_uploads_run:
  shows "replay delegation_key_task two_uploads
      (launch (new_store example_settings) 1 (map KeyCall [1000000, 2000000, 1000001])) \<noteq> None"
    and "lp_tasks (the (replay delegation_key_task two_uploads
      (launch (new_store example_settings) 1 (map KeyCall [1000000, 2000000, 1000001])))) =
      [Done (Inl KeyRefused), Done (Inr (1, 2)), Done (Inr (1, 2))]"
  by code_simp+

theorem one_key_for_a_burst_witness:
  "\<exists>l. replay delegation_key_task two_uploads
      (launch (new_store example_settings) 1 (map KeyCall [1000000, 2000000, 1000001])) = Some l \<and>
     lp_tasks l = [Done (Inl KeyRefused), Done (Inr (1, 2)), Done (Inr (1, 2))] \<and> keys_obtained l \<le> 1"
proof -
  let ?l0 = "launch (new_store example_settings) 1 (map KeyCall [1000000, 2000000, 1000001])"
  let ?final = "replay delegation_key_task two_uploads ?l0"
  note ended = two_uploads_run
  have "timedelta_us (st_delegation_key_ttl_seconds example_settings) = 3600000000"
    "timedelta_us (st_upload_sas_ttl_seconds example_settings) = 300000000"
    by code_simp+
  then have "set [1000000, 2000000, 1000001] \<subseteq> key_serves example_settings 1000000"
    by (simp add: key_serves_def)
  from one_key_for_a_burst[OF replay_schedule[OF ended(1)] this] ended show ?thesis
    by auto
qed

end
