(* ===== verification/Key_Tasks.thy ===== *)
theory Key_Tasks
  imports Async_Lock Auth_Tokens
begin

section \<open>Concurrent token validations and the signing keys\<close>

text \<open>
  \<^verbatim>\<open>KeySource.signing_key\<close> of \<^verbatim>\<open>src/kitchensense/auth/jwks.py\<close> as a coroutine.  It may enter the lock twice: in \<^verbatim>\<open>_cached_key\<close>, when the
  cache is empty or has expired, and in \<^verbatim>\<open>signing_key\<close> itself, for a key id the cache does not have; each time \<^verbatim>\<open>_refresh_keys\<close> awaits
  the discovery document, unless it is known, and then the key set.  A document asked for is answered with what it parses to, or
  \<open>None\<close> when reading it failed.

  The lemmas show that one coroutine left alone is \<open>Auth_Tokens.signing_key\<close>, how many requests to the tenant any schedule can
  make, and where that bound ends.
\<close>

datatype tenant_document = Discovery string | Jwks string

datatype key_section = CachedSection | UnknownSection

datatype signing_point = SigningCall string | CachedLocked string | UnknownLocked string

datatype signing_wait = AskedDiscovery key_section string | AskedJwks key_section string

type_synonym 'k signing_suspension =
  "(signing_point, signing_wait, tenant_document, auth_error + 'k) suspension \<times> 'k key_source"

type_synonym 'k signing_loop =
  "('k key_source, signing_point, signing_wait, tenant_document, json option, auth_error + 'k) loop"

definition unknown_key :: auth_error where
  "unknown_key = InvalidTokenError ''the token was signed by an unknown key''"

text \<open>\<^verbatim>\<open>_refresh_keys\<close> up to its first \<^verbatim>\<open>await\<close>.\<close>

definition begin_refresh :: "key_section \<Rightarrow> string \<Rightarrow> 'k key_source \<Rightarrow> 'k signing_suspension" where
  "begin_refresh sec kid ks =
     (case ks_configuration ks of
        None \<Rightarrow> (Ask (Discovery (ks_discovery_url ks)) (AskedDiscovery sec kid), ks)
      | Some c \<Rightarrow> (Ask (Jwks (oc_jwks_uri c)) (AskedJwks sec kid), ks))"

text \<open>The way out of a section: \<^verbatim>\<open>_cached_key\<close> returns to \<^verbatim>\<open>signing_key\<close>, which enters its own for a key it did not get.\<close>

fun leave_section :: "key_section \<Rightarrow> string \<Rightarrow> 'k key_source \<Rightarrow> 'k signing_suspension" where
  "leave_section CachedSection kid ks =
     (case lookup_key ks kid of Some key \<Rightarrow> (Leave (Inr key), ks) | None \<Rightarrow> (Reacquire (UnknownLocked kid), ks))"
| "leave_section UnknownSection kid ks =
     (case lookup_key ks kid of Some key \<Rightarrow> (Leave (Inr key), ks) | None \<Rightarrow> (Leave (Inl unknown_key), ks))"

fun signing_key_task ::
  "(json \<Rightarrow> string) \<Rightarrow> (document \<Rightarrow> 'k option) \<Rightarrow>
     ('k key_source, signing_point, signing_wait, tenant_document, json option, auth_error + 'k) coroutine" where
  "signing_key_task str_of jwk_of (Run (SigningCall kid)) now ks =
     (if kid = [] then (Return (Inl (InvalidTokenError ''the token header carries no key id'')), ks)
      else if ks_keys ks \<noteq> [] \<and> \<not> keys_expired now ks
      then (case lookup_key ks kid of Some key \<Rightarrow> (Return (Inr key), ks) | None \<Rightarrow> (Acquire (UnknownLocked kid), ks))
      else (Acquire (CachedLocked kid), ks))"
| "signing_key_task str_of jwk_of (Run (CachedLocked kid)) now ks =
     (if ks_keys ks = [] \<or> keys_expired now ks then begin_refresh CachedSection kid ks
      else leave_section CachedSection kid ks)"
| "signing_key_task str_of jwk_of (Run (UnknownLocked kid)) now ks =
     (case lookup_key ks kid of
        Some key \<Rightarrow> (Leave (Inr key), ks)
      | None \<Rightarrow>
          if now - ks_keys_fetched_at ks < ks_min_refresh_seconds ks then (Leave (Inl unknown_key), ks)
          else begin_refresh UnknownSection kid ks)"
| "signing_key_task str_of jwk_of (Wake (AskedDiscovery sec kid) answer) now ks =
     (case fetch_configuration (\<lambda>_. answer) str_of ks of
        Inl e \<Rightarrow> (Leave (Inl e), ks)
      | Inr c \<Rightarrow> (Ask (Jwks (oc_jwks_uri c)) (AskedJwks sec kid), ks\<lparr>ks_configuration := Some c\<rparr>))"
| "signing_key_task str_of jwk_of (Wake (AskedJwks sec kid) answer) now ks =
     (case published_keys (\<lambda>_. answer) jwk_of [] of
        Inl e \<Rightarrow> (Leave (Inl e), ks)
      | Inr keys \<Rightarrow> leave_section sec kid (ks\<lparr>ks_keys := keys, ks_keys_fetched_at := now\<rparr>))"

fun signing_inside :: "signing_point \<Rightarrow> bool" where
  "signing_inside (SigningCall _) = False"
| "signing_inside _ = True"

fun signing_gas :: "signing_point + signing_wait \<Rightarrow> nat" where
  "signing_gas (Inl (SigningCall _)) = 6"
| "signing_gas (Inl (CachedLocked _)) = 5"
| "signing_gas (Inr (AskedDiscovery CachedSection _)) = 4"
| "signing_gas (Inr (AskedJwks CachedSection _)) = 3"
| "signing_gas (Inl (UnknownLocked _)) = 2"
| "signing_gas (Inr (AskedDiscovery UnknownSection _)) = 1"
| "signing_gas (Inr (AskedJwks UnknownSection _)) = 0"

lemma discovery_gas [simp]: "signing_gas (Inr (AskedJwks sec kid)) < signing_gas (Inr (AskedDiscovery sec kid))"
  by (cases sec) simp_all

lemma leave_section_cases:
  assumes "leave_section sec kid ks = (x, ks')"
  obtains r where "x = Leave r" "ks' = ks" | "sec = CachedSection" "x = Reacquire (UnknownLocked kid)" "ks' = ks"
  using assms by (cases sec) (auto split: option.splits)

lemma begin_refresh_cases:
  assumes "begin_refresh sec kid ks = (x, ks')"
  obtains q where "x = Ask q (AskedDiscovery sec kid)" "ks' = ks" "ks_configuration ks = None"
  | q c where "x = Ask q (AskedJwks sec kid)" "ks' = ks" "ks_configuration ks = Some c"
  using assms by (auto simp: begin_refresh_def split: option.splits)

interpretation keys: lock_discipline "signing_key_task str_of jwk_of" signing_inside signing_gas for str_of jwk_of
proof unfold_locales
  fix k now ks p ks'
  assume "signing_key_task str_of jwk_of k now ks = (Acquire p, ks')"
  then show "\<not> holds signing_inside k \<and> signing_inside p \<and> signing_gas (Inl p) < signing_gas (point k)"
    by (cases "(str_of, jwk_of, k, now, ks)" rule: signing_key_task.cases)
      (auto split: option.splits if_splits sum.splits elim!: leave_section_cases begin_refresh_cases)
next
  fix k now ks p ks'
  assume "signing_key_task str_of jwk_of k now ks = (Reacquire p, ks')"
  then show "holds signing_inside k \<and> signing_inside p \<and> signing_gas (Inl p) < signing_gas (point k)"
    by (cases "(str_of, jwk_of, k, now, ks)" rule: signing_key_task.cases)
      (auto split: option.splits if_splits sum.splits elim!: leave_section_cases begin_refresh_cases)
next
  fix k now ks r ks'
  assume "signing_key_task str_of jwk_of k now ks = (Return r, ks')"
  then show "\<not> holds signing_inside k"
    by (cases "(str_of, jwk_of, k, now, ks)" rule: signing_key_task.cases)
      (auto split: option.splits if_splits sum.splits elim!: leave_section_cases begin_refresh_cases)
next
  fix k now ks r ks'
  assume "signing_key_task str_of jwk_of k now ks = (Leave r, ks')"
  then show "holds signing_inside k"
    by (cases "(str_of, jwk_of, k, now, ks)" rule: signing_key_task.cases)
      (auto split: option.splits if_splits sum.splits elim!: leave_section_cases begin_refresh_cases)
next
  fix k now ks q w ks'
  assume "signing_key_task str_of jwk_of k now ks = (Ask q w, ks')"
  then show "holds signing_inside k \<and> signing_gas (Inr w) < signing_gas (point k)"
    by (cases "(str_of, jwk_of, k, now, ks)" rule: signing_key_task.cases)
      (auto split: option.splits if_splits sum.splits elim!: leave_section_cases begin_refresh_cases)
next
  fix p now ks
  assume "\<not> signing_inside p"
  then show "snd (signing_key_task str_of jwk_of (Run p) now ks) = ks"
    by (cases p) (auto split: option.split)
qed

subsection \<open>One coroutine alone\<close>

definition answer_from :: "(string \<Rightarrow> json option) \<Rightarrow> tenant_document \<Rightarrow> json option" where
  "answer_from get_json q = (case q of Discovery url \<Rightarrow> get_json url | Jwks url \<Rightarrow> get_json url)"

text \<open>Which reading of the clock \<open>Auth_Tokens.signing_key\<close> takes where.\<close>

fun reading :: "(nat \<Rightarrow> seconds) \<Rightarrow> signing_point + signing_wait \<Rightarrow> seconds" where
  "reading clock (Inl (SigningCall _)) = clock 0"
| "reading clock (Inl (CachedLocked _)) = clock 1"
| "reading clock (Inr (AskedDiscovery CachedSection _)) = clock 1"
| "reading clock (Inr (AskedJwks CachedSection _)) = clock 2"
| "reading clock (Inl (UnknownLocked _)) = clock 3"
| "reading clock (Inr (AskedDiscovery UnknownSection _)) = clock 3"
| "reading clock (Inr (AskedJwks UnknownSection _)) = clock 4"

lemma published_keys_url: "published_keys (\<lambda>_. get_json url) jwk_of u = published_keys get_json jwk_of url"
  by (simp add: published_keys_def read_json_def)

lemma fetch_configuration_url:
  "fetch_configuration (\<lambda>_. get_json (ks_discovery_url ks)) str_of ks = fetch_configuration get_json str_of ks"
  by (simp add: fetch_configuration_def read_json_def)

text \<open>A refresh, from its first \<^verbatim>\<open>await\<close> to what follows it.\<close>

lemma solo_refresh:
  assumes "\<And>w. reading clock (Inr (AskedJwks sec w)) = t"
    and "ks_configuration ks = None \<Longrightarrow> k = Wake (AskedDiscovery sec kid) (get_json (ks_discovery_url ks))"
    and "\<And>c. ks_configuration ks = Some c \<Longrightarrow> k = Wake (AskedJwks sec kid) (get_json (oc_jwks_uri c))"
  shows "solo (signing_key_task str_of jwk_of) (answer_from get_json) (reading clock) (Suc (Suc n)) k ks =
    (case refresh_keys get_json str_of jwk_of t ks of
       (Inl e, ks') \<Rightarrow> Some (Inl e, ks')
     | (Inr _, ks') \<Rightarrow>
         (case leave_section sec kid ks' of
            (Leave r, ks'') \<Rightarrow> Some (r, ks'')
          | (Reacquire p, ks'') \<Rightarrow> solo (signing_key_task str_of jwk_of) (answer_from get_json) (reading clock)
              (if ks_configuration ks = None then n else Suc n) (Run p) ks''
          | _ \<Rightarrow> None))"
proof (cases "ks_configuration ks")
  case None
  have fetched: "fetch_configuration (\<lambda>_. get_json (ks_discovery_url ks)) str_of ks = fetch_configuration get_json str_of ks"
    by (rule fetch_configuration_url)
  show ?thesis
    using assms(2)[OF None] None assms(1)
    by (cases sec)
      (auto simp: fetched refresh_keys_def configuration_def answer_from_def published_keys_url
        split: sum.split option.split prod.split suspension.split)
next
  case (Some c)
  show ?thesis
    using assms(3)[OF Some] Some assms(1)
    by (cases sec)
      (auto simp: refresh_keys_def configuration_def published_keys_url
        split: sum.split option.split prod.split suspension.split)
qed

lemma solo_begin_refresh:
  assumes "\<And>w. reading clock (Inr (AskedJwks sec w)) = t"
  shows "(case begin_refresh sec kid ks of
      (Return r, s') \<Rightarrow> Some (r, s')
    | (Leave r, s') \<Rightarrow> Some (r, s')
    | (Reacquire p, s') \<Rightarrow> solo (signing_key_task str_of jwk_of) (answer_from get_json) (reading clock) (Suc (Suc n)) (Run p) s'
    | (Acquire p, s') \<Rightarrow> solo (signing_key_task str_of jwk_of) (answer_from get_json) (reading clock) (Suc (Suc n)) (Run p) s'
    | (Ask q w, s') \<Rightarrow> solo (signing_key_task str_of jwk_of) (answer_from get_json) (reading clock) (Suc (Suc n))
        (Wake w (answer_from get_json q)) s') =
    (case refresh_keys get_json str_of jwk_of t ks of
       (Inl e, ks') \<Rightarrow> Some (Inl e, ks')
     | (Inr _, ks') \<Rightarrow>
         (case leave_section sec kid ks' of
            (Leave r, ks'') \<Rightarrow> Some (r, ks'')
          | (Reacquire p, ks'') \<Rightarrow> solo (signing_key_task str_of jwk_of) (answer_from get_json) (reading clock)
              (if ks_configuration ks = None then n else Suc n) (Run p) ks''
          | _ \<Rightarrow> None))"
  by (subst solo_refresh[symmetric, where k = "case ks_configuration ks of
        None \<Rightarrow> Wake (AskedDiscovery sec kid) (get_json (ks_discovery_url ks))
      | Some c \<Rightarrow> Wake (AskedJwks sec kid) (get_json (oc_jwks_uri c))"])
    (auto simp: assms begin_refresh_def answer_from_def simp del: solo.simps split: option.splits)

lemma solo_unknown:
  "solo (signing_key_task str_of jwk_of) (answer_from get_json) (reading clock) (Suc (Suc (Suc n))) (Run (UnknownLocked kid)) ks =
     Some (signing_key_locked get_json str_of jwk_of clock kid ks)"
proof (cases "lookup_key ks kid = None \<and> \<not> clock 3 - ks_keys_fetched_at ks < ks_min_refresh_seconds ks")
  case True
  then have "solo (signing_key_task str_of jwk_of) (answer_from get_json) (reading clock) (Suc (Suc (Suc n))) (Run (UnknownLocked kid)) ks =
    (case refresh_keys get_json str_of jwk_of (clock 4) ks of
       (Inl e, ks') \<Rightarrow> Some (Inl e, ks')
     | (Inr _, ks') \<Rightarrow>
         (case leave_section UnknownSection kid ks' of
            (Leave r, ks'') \<Rightarrow> Some (r, ks'')
          | (Reacquire p, ks'') \<Rightarrow> solo (signing_key_task str_of jwk_of) (answer_from get_json) (reading clock)
              (if ks_configuration ks = None then n else Suc n) (Run p) ks''
          | _ \<Rightarrow> None))"
    by (subst solo.simps) (simp add: solo_begin_refresh[where t = "clock 4"] del: solo.simps)
  with True show ?thesis
    by (auto simp: signing_key_locked_def unknown_key_def simp del: solo.simps split: prod.split sum.split option.split)
next
  case False
  then show ?thesis
    by (auto simp: signing_key_locked_def unknown_key_def split: option.split)
qed

lemma solo_leave_cached:
  "(case leave_section CachedSection kid ks of
      (Return r, s') \<Rightarrow> Some (r, s')
    | (Leave r, s') \<Rightarrow> Some (r, s')
    | (Acquire p, s') \<Rightarrow> solo (signing_key_task str_of jwk_of) (answer_from get_json) (reading clock) (Suc (Suc (Suc n))) (Run p) s'
    | (Reacquire p, s') \<Rightarrow> solo (signing_key_task str_of jwk_of) (answer_from get_json) (reading clock) (Suc (Suc (Suc n))) (Run p) s'
    | (Ask q w, s') \<Rightarrow> y q w s') =
   Some (case lookup_key ks kid of
      Some key \<Rightarrow> (Inr key, ks)
    | None \<Rightarrow> signing_key_locked get_json str_of jwk_of clock kid ks)"
  "(case leave_section CachedSection kid ks of
      (Leave r, s') \<Rightarrow> Some (r, s')
    | (Reacquire p, s') \<Rightarrow> solo (signing_key_task str_of jwk_of) (answer_from get_json) (reading clock) (Suc (Suc (Suc n))) (Run p) s'
    | _ \<Rightarrow> None) =
   Some (case lookup_key ks kid of
      Some key \<Rightarrow> (Inr key, ks)
    | None \<Rightarrow> signing_key_locked get_json str_of jwk_of clock kid ks)"
  by (auto simp: solo_unknown simp del: solo.simps split: option.split)

lemma solo_cached:
  "solo (signing_key_task str_of jwk_of) (answer_from get_json) (reading clock) 6 (Run (CachedLocked kid)) ks =
     Some (if ks_keys ks = [] \<or> keys_expired (clock 1) ks
       then (case refresh_keys get_json str_of jwk_of (clock 2) ks of
               (Inl e, ks') \<Rightarrow> (Inl e, ks')
             | (Inr _, ks') \<Rightarrow>
                 (case lookup_key ks' kid of
                    Some key \<Rightarrow> (Inr key, ks')
                  | None \<Rightarrow> signing_key_locked get_json str_of jwk_of clock kid ks'))
       else (case lookup_key ks kid of
               Some key \<Rightarrow> (Inr key, ks)
             | None \<Rightarrow> signing_key_locked get_json str_of jwk_of clock kid ks))"
  (is "?solo = _")
proof -
  have six: "6 = Suc (Suc (Suc (Suc (Suc (Suc 0)))))"
    by simp
  show ?thesis
  proof (cases "ks_keys ks = [] \<or> keys_expired (clock 1) ks")
    case True
    then have "?solo = (case refresh_keys get_json str_of jwk_of (clock 2) ks of
       (Inl e, ks') \<Rightarrow> Some (Inl e, ks')
     | (Inr _, ks') \<Rightarrow>
         (case leave_section CachedSection kid ks' of
            (Leave r, ks'') \<Rightarrow> Some (r, ks'')
          | (Reacquire p, ks'') \<Rightarrow> solo (signing_key_task str_of jwk_of) (answer_from get_json) (reading clock)
              (if ks_configuration ks = None then Suc (Suc (Suc 0)) else Suc (Suc (Suc (Suc 0)))) (Run p) ks''
          | _ \<Rightarrow> None))"
      unfolding six by (subst solo.simps) (simp add: solo_begin_refresh[where t = "clock 2"] del: solo.simps)
    moreover obtain r ks' where "refresh_keys get_json str_of jwk_of (clock 2) ks = (r, ks')"
      by (cases "refresh_keys get_json str_of jwk_of (clock 2) ks")
    ultimately show ?thesis
      using True
      by (cases r; cases "ks_configuration ks = None") (simp_all add: solo_leave_cached del: solo.simps leave_section.simps)
  next
    case False
    then show ?thesis
      unfolding six by (subst solo.simps) (simp add: solo_leave_cached del: solo.simps leave_section.simps)
  qed
qed

subsection \<open>Requests to the tenant\<close>

definition refresh_gap :: "'k key_source \<Rightarrow> seconds" where
  "refresh_gap ks = min (ks_cache_seconds ks) (ks_min_refresh_seconds ks)"

text \<open>The answers that brought a key set, and those that did not.\<close>

definition brings_keys :: "(document \<Rightarrow> 'k option) \<Rightarrow> tenant_document \<times> json option \<Rightarrow> bool" where
  "brings_keys jwk_of qa = (\<not> isl (published_keys (\<lambda>_. snd qa) jwk_of []))"

definition refreshed :: "(document \<Rightarrow> 'k option) \<Rightarrow> 'k signing_loop \<Rightarrow> nat" where
  "refreshed jwk_of l = length (filter (brings_keys jwk_of) (lp_answers l))"

fun knows_issuer :: "(signing_point, signing_wait, 'q, 'r) task \<Rightarrow> bool" where
  "knows_issuer (Asking q w) = (\<exists>sec kid. w = AskedJwks sec kid)"
| "knows_issuer _ = True"

definition paced :: "(document \<Rightarrow> 'k option) \<Rightarrow> 'k key_source \<Rightarrow> 'k signing_loop \<Rightarrow> bool" where
  "paced jwk_of ks0 l \<longleftrightarrow>
     ks_keys (lp_state l) \<noteq> [] \<and> ks_configuration (lp_state l) \<noteq> None \<and>
     ks_cache_seconds (lp_state l) = ks_cache_seconds ks0 \<and> ks_min_refresh_seconds (lp_state l) = ks_min_refresh_seconds ks0 \<and>
     list_all knows_issuer (lp_tasks l) \<and>
     ks_keys_fetched_at ks0 + of_nat (refreshed jwk_of l) * refresh_gap ks0 \<le> ks_keys_fetched_at (lp_state l) \<and>
     ks_keys_fetched_at (lp_state l) \<le> lp_now l \<and>
     length (lp_asked l) = length (lp_answers l) + (if lp_owner l = None then 0 else 1) \<and>
     (lp_owner l \<noteq> None \<longrightarrow> ks_keys_fetched_at (lp_state l) + refresh_gap ks0 \<le> lp_now l)"

lemma refresh_gap_le: "refresh_gap ks \<le> ks_cache_seconds ks" "refresh_gap ks \<le> ks_min_refresh_seconds ks"
  by (simp_all add: refresh_gap_def)

text \<open>What a run from a point does to a key source that has keys and a configuration.\<close>

lemma warm_run:
  assumes "signing_key_task str_of jwk_of (Run p) now ks = (x, ks')" and "ks_keys ks \<noteq> []" "ks_configuration ks \<noteq> None"
  shows "ks' = ks"
    and "x = Ask q w \<Longrightarrow> signing_inside p \<and> (\<exists>sec kid. w = AskedJwks sec kid) \<and> ks_keys_fetched_at ks + refresh_gap ks \<le> now"
  using assms refresh_gap_le[of ks]
  by (cases p; auto simp: keys_expired_def split: if_splits option.splits elim!: leave_section_cases begin_refresh_cases)+

lemma jwks_run:
  assumes "signing_key_task str_of jwk_of (Wake (AskedJwks sec kid) a) now ks = (x, ks')"
  shows "(\<exists>p. x = Reacquire p) \<or> (\<exists>r. x = Leave r)"
    and "ks' = (if brings_keys jwk_of (q, a)
      then ks\<lparr>ks_keys := projr (published_keys (\<lambda>_. a) jwk_of []), ks_keys_fetched_at := now\<rparr> else ks)"
    and "brings_keys jwk_of (q, a) \<Longrightarrow> ks_keys ks' \<noteq> []"
  using assms
  by (auto simp: brings_keys_def published_keys_def bind_sum_Inr_iff split: sum.splits if_splits elim!: leave_section_cases)

lemma knows_issuer_update: "list_all knows_issuer ts \<Longrightarrow> knows_issuer t \<Longrightarrow> list_all knows_issuer (ts[i := t])"
  by (auto simp: list_all_iff dest!: set_update_subset_insert[THEN subsetD])

lemma paced_start:
  assumes lock: "keys.lock_inv l" and inv: "paced jwk_of ks0 l"
    and i: "i < length (lp_tasks l)" "lp_now l \<le> now" "lp_tasks l ! i = Ready p"
  shows "paced jwk_of ks0 (suspend i (signing_key_task str_of jwk_of (Run p) now (lp_state l)) (l\<lparr>lp_now := now\<rparr>))"
proof -
  obtain x ks' where x: "signing_key_task str_of jwk_of (Run p) now (lp_state l) = (x, ks')"
    by (cases "signing_key_task str_of jwk_of (Run p) now (lp_state l)")
  have "keys.placed (lp_owner l) i (lp_tasks l ! i)"
    using lock i(1) by (simp add: keys.lock_inv_def)
  then have p: "\<not> signing_inside p" "release i (lp_owner l) = lp_owner l"
    using i(3) by (auto simp: release_def)
  have run: "ks' = lp_state l" "\<And>q w. x \<noteq> Ask q w"
    using warm_run[OF x] inv p(1) by (auto simp: paced_def)
  with x inv i(2) p(2) show ?thesis
    by (cases x) (auto simp: paced_def refreshed_def intro!: knows_issuer_update)
qed

lemma paced_enter:
  assumes lock: "keys.lock_inv l" and inv: "paced jwk_of ks0 l"
    and i: "i < length (lp_tasks l)" "lp_now l \<le> now" "lp_owner l = None" "lp_tasks l ! i = Waiting p"
  shows "paced jwk_of ks0 (suspend i (signing_key_task str_of jwk_of (Run p) now (lp_state l))
    (l\<lparr>lp_now := now, lp_owner := Some i\<rparr>))"
proof -
  obtain x ks' where x: "signing_key_task str_of jwk_of (Run p) now (lp_state l) = (x, ks')"
    by (cases "signing_key_task str_of jwk_of (Run p) now (lp_state l)")
  have gap: "refresh_gap (lp_state l) = refresh_gap ks0"
    using inv by (simp add: paced_def refresh_gap_def)
  have "ks' = lp_state l"
    and "\<And>q w. x = Ask q w \<Longrightarrow> (\<exists>sec kid. w = AskedJwks sec kid) \<and> ks_keys_fetched_at (lp_state l) + refresh_gap ks0 \<le> now"
    using warm_run[OF x] inv gap by (auto simp: paced_def)
  moreover have "signing_inside p"
    using lock i(1,4) by (auto simp: keys.lock_inv_def)
  then have "x \<noteq> Acquire p'" "x \<noteq> Return r" for p' r
    using keys.acquire_inside[of str_of jwk_of "Run p" now "lp_state l"] keys.return_outside[of str_of jwk_of "Run p" now "lp_state l"] x
    by auto
  ultimately show ?thesis
    using x inv i
    by (cases x) (auto simp: paced_def refreshed_def release_def intro!: knows_issuer_update)
qed

lemma paced_answer:
  assumes lock: "keys.lock_inv l" and inv: "paced jwk_of ks0 l"
    and i: "i < length (lp_tasks l)" "lp_now l \<le> now" "lp_tasks l ! i = Asking q w"
  shows "paced jwk_of ks0 (suspend i (signing_key_task str_of jwk_of (Wake w a) now (lp_state l))
    (l\<lparr>lp_now := now, lp_answers := lp_answers l @ [(q, a)]\<rparr>))"
proof -
  have "knows_issuer (lp_tasks l ! i)" "keys.placed (lp_owner l) i (lp_tasks l ! i)"
    using inv lock i(1) by (auto simp: paced_def list_all_length keys.lock_inv_def)
  then obtain sec kid where w: "w = AskedJwks sec kid" and own: "lp_owner l = Some i"
    using i(3) by auto
  obtain x ks' where x: "signing_key_task str_of jwk_of (Wake w a) now (lp_state l) = (x, ks')"
    by (cases "signing_key_task str_of jwk_of (Wake w a) now (lp_state l)")
  note run = jwks_run[OF x[unfolded w]]
  have "ks_keys_fetched_at ks0 + (1 + of_nat (refreshed jwk_of l)) * refresh_gap ks0 \<le> now"
    using inv own i(2) by (simp add: paced_def algebra_simps)
  then have "paced jwk_of ks0 (suspend i (x, ks') (l\<lparr>lp_now := now, lp_answers := lp_answers l @ [(q, a)]\<rparr>))"
    using inv own i(2) run(2)[of q] run(3)[of q] run(1)
    by (cases "brings_keys jwk_of (q, a)")
      (auto simp: paced_def refreshed_def release_def intro!: knows_issuer_update)
  then show ?thesis
    by (simp only: x)
qed

lemma paced_schedule:
  assumes "schedule (signing_key_task str_of jwk_of) l0 ms l" and "keys.lock_inv l0" and "paced jwk_of ks0 l0"
  shows "paced jwk_of ks0 l"
  using assms(1)
proof induction
  case (moved ms l m l')
  note lock = keys.lock_inv_schedule[OF moved.hyps(1) assms(2)]
  from moved.hyps(2) show ?case
    by (cases rule: perform_cases)
      (simp_all add: paced_start[OF lock moved.IH] paced_enter[OF lock moved.IH] paced_answer[OF lock moved.IH])
qed (rule assms(3))

subsection \<open>Properties\<close>

text \<open>
  A validation that nobody disturbs is the method.  The coroutine left alone, with the documents the client reads and the clock
  where the method reads it, returns what \<open>signing_key\<close> returns and leaves the key source as it does.
\<close>

theorem signing_key_alone:
  "solo (signing_key_task str_of jwk_of) (answer_from get_json) (reading clock) 7 (Run (SigningCall kid)) ks =
     Some (signing_key get_json str_of jwk_of clock kid ks)"
proof -
  have seven: "7 = Suc 6" "6 = Suc (Suc (Suc (Suc (Suc (Suc 0)))))"
    by simp_all
  consider (none) "kid = []" | (fresh) "kid \<noteq> []" "ks_keys ks \<noteq> [] \<and> \<not> keys_expired (clock 0) ks"
    | (stale) "kid \<noteq> []" "\<not> (ks_keys ks \<noteq> [] \<and> \<not> keys_expired (clock 0) ks)"
    by blast
  then show ?thesis
  proof cases
    case none
    then show ?thesis
      unfolding seven by (simp add: signing_key_def)
  next
    case fresh
    then have "solo (signing_key_task str_of jwk_of) (answer_from get_json) (reading clock) 7 (Run (SigningCall kid)) ks =
        Some (case lookup_key ks kid of
          Some key \<Rightarrow> (Inr key, ks)
        | None \<Rightarrow> signing_key_locked get_json str_of jwk_of clock kid ks)"
      unfolding seven by (subst solo.simps) (auto simp: solo_unknown simp del: solo.simps split: option.split)
    with fresh show ?thesis
      by (simp add: signing_key_def cached_signing_key_def del: solo.simps split: option.split)
  next
    case stale
    then have "solo (signing_key_task str_of jwk_of) (answer_from get_json) (reading clock) 7 (Run (SigningCall kid)) ks =
        solo (signing_key_task str_of jwk_of) (answer_from get_json) (reading clock) 6 (Run (CachedLocked kid)) ks"
      unfolding seven(1) by (subst solo.simps) (auto simp del: solo.simps)
    with stale show ?thesis
      by (auto simp: solo_cached signing_key_def cached_signing_key_def simp del: solo.simps
          split: prod.split sum.split option.split)
  qed
qed

text \<open>
  C31: a flood of tokens is not a flood of requests.  From a key source that has keys, however many tokens with
  whatever key ids are validated concurrently and in whatever order, the requests made to the tenant, less those
  whose answer brought no keys, are at most one per \<open>refresh_gap\<close>, the smaller of the cache's life and the floor between
  refreshes, of the time passed since the keys were fetched.
\<close>

theorem key_requests_are_bounded:
  assumes "ks_keys ks \<noteq> []" "ks_configuration ks \<noteq> None" "ks_keys_fetched_at ks \<le> now"
    and "schedule (signing_key_task str_of jwk_of) (launch ks now (map SigningCall kids)) ms l"
  shows "(of_nat (length (lp_asked l)) - of_nat (length (filter (\<lambda>qa. \<not> brings_keys jwk_of qa) (lp_answers l)))) * refresh_gap ks
    \<le> lp_now l - ks_keys_fetched_at ks"
proof -
  let ?l0 = "launch ks now (map SigningCall kids)"
  have "keys.lock_inv ?l0"
    by (rule keys.lock_inv_launch) (simp add: list_all_length)
  moreover have "paced jwk_of ks ?l0"
    using assms(1-3) by (auto simp: paced_def refreshed_def list_all_length)
  ultimately have inv: "paced jwk_of ks l"
    by (rule paced_schedule[OF assms(4)])
  have "length (lp_answers l) = refreshed jwk_of l + length (filter (\<lambda>qa. \<not> brings_keys jwk_of qa) (lp_answers l))"
    by (simp add: refreshed_def sum_length_filter_compl)
  then show ?thesis
    using inv by (cases "lp_owner l") (auto simp: paced_def algebra_simps)
qed

text \<open>
  The floor does not hold while refreshing fails.  The time of the last refresh is only noted when a key set came
  back.  When the tenant's key set cannot be read, every token with an unknown key id makes a request of its
  own: for any \<open>n\<close>, \<open>n\<close> such tokens at one instant make \<open>n\<close> requests, all of them refused.
\<close>

theorem failing_refreshes_are_not_limited:
  assumes "ks_keys ks \<noteq> []" "ks_configuration ks = Some c" "\<not> keys_expired now ks"
    and "ks_min_refresh_seconds ks \<le> now - ks_keys_fetched_at ks" and "kid \<noteq> []" "lookup_key ks kid = None"
  shows "\<exists>ms l. schedule (signing_key_task str_of jwk_of) (launch (ks :: 'k key_source) now (replicate n (SigningCall kid))) ms l \<and>
    lp_now l = now \<and> lp_asked l = replicate n (Jwks (oc_jwks_uri c)) \<and> list_all (\<lambda>t. \<not> unfinished t) (lp_tasks l)"
proof -
  let ?e = "InvalidTokenError ''the token could not be validated against the identity provider''"
  let ?run = "signing_key_task str_of jwk_of"
  let ?l0 = "launch ks now (replicate n (SigningCall kid))"
  define after :: "nat \<Rightarrow> 'k signing_loop" where "after m = \<lparr>lp_state = ks, lp_owner = None,
    lp_tasks = replicate m (Done (Inl ?e)) @ replicate (n - m) (Ready (SigningCall kid)), lp_now = now,
    lp_asked = replicate m (Jwks (oc_jwks_uri c)), lp_answers = replicate m (Jwks (oc_jwks_uri c), None)\<rparr>" for m
  have "\<exists>ms. schedule ?run ?l0 ms (after m)" if "m \<le> n" for m
    using that
  proof (induction m)
    case 0
    have "after 0 = ?l0"
      by (simp add: after_def launch_def)
    then show ?case
      using schedule.idle by metis
  next
    case (Suc m)
    then obtain ms where "schedule ?run ?l0 ms (after m)"
      by auto
    moreover have "replay ?run [Start m now, Enter m now, Answer m now None] (after m) = Some (after (Suc m))"
    proof -
      obtain j where n: "n - m = Suc j" "n - Suc m = j"
        using Suc.prems by (metis Suc_diff_Suc Suc_le_lessD)
      show ?thesis
        using assms unfolding after_def n
        by (simp add: nth_append list_update_append begin_refresh_def published_keys_def read_json_def release_def
            replicate_append_same)
    qed
    ultimately show ?case
      by (auto simp del: perform.simps split: Option.bind_splits intro: schedule.moved)
  qed
  then obtain ms where "schedule ?run ?l0 ms (after n)"
    by blast
  moreover have "lp_now (after n) = now" "lp_asked (after n) = replicate n (Jwks (oc_jwks_uri c))"
    "list_all (\<lambda>t. \<not> unfinished t) (lp_tasks (after n))"
    by (simp_all add: after_def list_all_length)
  ultimately show ?thesis
    by blast
qed

definition two_tokens :: "json option move list" where
  "two_tokens = [Start 0 190, Start 1 190, Enter 1 200, Answer 1 201 (example_tenant ''https://idp/keys''), Enter 0 202]"

lemma two_tokens_run:
  shows "replay (signing_key_task (\<lambda>v. []) (\<lambda>e. Some (1 :: nat))) two_tokens
      (launch example_keys 190 (map SigningCall [''forged'', ''k1''])) \<noteq> None"
    and "lp_tasks (the (replay (signing_key_task (\<lambda>v. []) (\<lambda>e. Some (1 :: nat))) two_tokens
      (launch example_keys 190 (map SigningCall [''forged'', ''k1''])))) = [Done (Inl unknown_key), Done (Inr 1)]"
  by code_simp+

theorem key_requests_are_bounded_witness:
  "\<exists>l. replay (signing_key_task (\<lambda>v. []) (\<lambda>e. Some 1)) two_tokens
      (launch example_keys 190 (map SigningCall [''forged'', ''k1''])) = Some l \<and>
     lp_tasks l = [Done (Inl unknown_key), Done (Inr 1)] \<and>
     (of_nat (length (lp_asked l)) -
        of_nat (length (filter (\<lambda>qa. \<not> brings_keys (\<lambda>e. Some (1 :: nat)) qa) (lp_answers l)))) * refresh_gap example_keys
       \<le> lp_now l - ks_keys_fetched_at example_keys"
proof -
  let ?l0 = "launch example_keys 190 (map SigningCall [''forged'', ''k1''])"
  let ?final = "replay (signing_key_task (\<lambda>v. []) (\<lambda>e. Some 1)) two_tokens ?l0"
  note ended = two_tokens_run
  have warm: "ks_keys example_keys \<noteq> []" "ks_configuration example_keys \<noteq> None" "ks_keys_fetched_at example_keys \<le> 190"
    by code_simp+
  from key_requests_are_bounded[OF warm replay_schedule[OF ended(1)]] ended show ?thesis
    by auto
qed

theorem failing_refreshes_are_not_limited_witness:
  "\<exists>ms l. schedule (signing_key_task (\<lambda>v. []) (\<lambda>e. Some 1))
      (launch example_keys 200 (replicate 1000 (SigningCall ''forged''))) ms l \<and>
    lp_now l = 200 \<and> lp_asked l = replicate 1000 (Jwks ''https://idp/keys'') \<and> list_all (\<lambda>t. \<not> unfinished t) (lp_tasks l)"
proof -
  let ?c = "\<lparr>oc_issuer = ''https://idp/t/v2.0'', oc_jwks_uri = ''https://idp/keys''\<rparr>"
  have "ks_keys example_keys \<noteq> []" "ks_configuration example_keys = Some ?c" "\<not> keys_expired 200 example_keys"
    "ks_min_refresh_seconds example_keys \<le> 200 - ks_keys_fetched_at example_keys" "''forged'' \<noteq> []"
    "lookup_key example_keys ''forged'' = None"
    by code_simp+
  from failing_refreshes_are_not_limited[OF this] show ?thesis
    by simp
qed

end
