(* ===== verification/Verify_Tasks.thy ===== *)
theory Verify_Tasks
  imports Key_Tasks
begin

section \<open>Concurrent validations of whole tokens\<close>

text \<open>
  \<^verbatim>\<open>TokenVerifier.verify\<close> of \<^verbatim>\<open>src/kitchensense/auth/verifier.py\<close> as a coroutine: the checks of the header, then \<^verbatim>\<open>signing_key\<close> as in \<open>Key_Tasks\<close>, then
  \<^verbatim>\<open>configuration\<close>, which takes the same lock, then the checks of the claims.  The first and the last await nothing.

  The lemmas show that one coroutine left alone is \<open>Auth_Tokens.verify\<close>, and what a principal rests on when any number of tokens are validated
  together: a key the tenant published under the token's key id and the issuer of the one discovery document that was read.
\<close>

datatype 'k verify_point = VerifyCall string | Signing string signing_point | ConfigurationLocked string 'k

datatype 'k verify_wait = SigningWait string signing_wait | ConfigurationAsked string 'k

type_synonym 'k verify_suspension =
  "('k verify_point, 'k verify_wait, tenant_document, auth_error + principal) suspension \<times> 'k key_source"

type_synonym 'k verify_loop =
  "('k key_source, 'k verify_point, 'k verify_wait, tenant_document, json option, auth_error + principal) loop"

text \<open>\<^verbatim>\<open>configuration\<close> up to the lock, and the checks that follow it; \<open>left\<close> when this run came out of a section of \<^verbatim>\<open>signing_key\<close>.\<close>

definition begin_configuration ::
  "bool \<Rightarrow> 'k jwt_library \<Rightarrow> settings \<Rightarrow> string \<Rightarrow> 'k \<Rightarrow> 'k key_source \<Rightarrow> 'k verify_suspension" where
  "begin_configuration left lib settings token key ks =
     (case ks_configuration ks of
        Some c \<Rightarrow> ((if left then Leave else Return) (check_claims lib settings token key (oc_issuer c)), ks)
      | None \<Rightarrow> ((if left then Reacquire else Acquire) (ConfigurationLocked token key), ks))"

fun in_signing_key :: "'k jwt_library \<Rightarrow> settings \<Rightarrow> string \<Rightarrow> 'k signing_suspension \<Rightarrow> 'k verify_suspension" where
  "in_signing_key lib settings token (Acquire p, ks) = (Acquire (Signing token p), ks)"
| "in_signing_key lib settings token (Ask q w, ks) = (Ask q (SigningWait token w), ks)"
| "in_signing_key lib settings token (Reacquire p, ks) = (Reacquire (Signing token p), ks)"
| "in_signing_key lib settings token (Return (Inl e), ks) = (Return (Inl e), ks)"
| "in_signing_key lib settings token (Leave (Inl e), ks) = (Leave (Inl e), ks)"
| "in_signing_key lib settings token (Return (Inr key), ks) = begin_configuration False lib settings token key ks"
| "in_signing_key lib settings token (Leave (Inr key), ks) = begin_configuration True lib settings token key ks"

fun verify_task ::
  "'k jwt_library \<Rightarrow> settings \<Rightarrow>
     ('k key_source, 'k verify_point, 'k verify_wait, tenant_document, json option, auth_error + principal) coroutine" where
  "verify_task lib settings (Run (VerifyCall token)) now ks =
     (case check_header lib settings token of
        Inl e \<Rightarrow> (Return (Inl e), ks)
      | Inr kid \<Rightarrow>
          in_signing_key lib settings token (signing_key_task (jl_str_of lib) (jl_jwk_of lib) (Run (SigningCall kid)) now ks))"
| "verify_task lib settings (Run (Signing token p)) now ks =
     in_signing_key lib settings token (signing_key_task (jl_str_of lib) (jl_jwk_of lib) (Run p) now ks)"
| "verify_task lib settings (Wake (SigningWait token w) answer) now ks =
     in_signing_key lib settings token (signing_key_task (jl_str_of lib) (jl_jwk_of lib) (Wake w answer) now ks)"
| "verify_task lib settings (Run (ConfigurationLocked token key)) now ks =
     (case ks_configuration ks of
        Some c \<Rightarrow> (Leave (check_claims lib settings token key (oc_issuer c)), ks)
      | None \<Rightarrow> (Ask (Discovery (ks_discovery_url ks)) (ConfigurationAsked token key), ks))"
| "verify_task lib settings (Wake (ConfigurationAsked token key) answer) now ks =
     (case fetch_configuration (\<lambda>_. answer) (jl_str_of lib) ks of
        Inl e \<Rightarrow> (Leave (Inl e), ks)
      | Inr c \<Rightarrow> (Leave (check_claims lib settings token key (oc_issuer c)), ks\<lparr>ks_configuration := Some c\<rparr>))"

fun verify_inside :: "'k verify_point \<Rightarrow> bool" where
  "verify_inside (VerifyCall _) = False"
| "verify_inside (Signing _ p) = signing_inside p"
| "verify_inside (ConfigurationLocked _ _) = True"

fun verify_gas :: "'k verify_point + 'k verify_wait \<Rightarrow> nat" where
  "verify_gas (Inl (VerifyCall _)) = 8"
| "verify_gas (Inl (Signing _ p)) = signing_gas (Inl p) + 2"
| "verify_gas (Inr (SigningWait _ w)) = signing_gas (Inr w) + 2"
| "verify_gas (Inl (ConfigurationLocked _ _)) = 1"
| "verify_gas (Inr (ConfigurationAsked _ _)) = 0"

lemma in_signing_key_cases:
  assumes "in_signing_key lib settings token y = (x, ks')"
  obtains p where "y = (Acquire p, ks')" "x = Acquire (Signing token p)"
  | q w where "y = (Ask q w, ks')" "x = Ask q (SigningWait token w)"
  | e where "y = (Return (Inl e), ks')" "x = Return (Inl e)"
  | key c where "y = (Return (Inr key), ks')" "ks_configuration ks' = Some c"
      "x = Return (check_claims lib settings token key (oc_issuer c))"
  | key where "y = (Return (Inr key), ks')" "ks_configuration ks' = None" "x = Acquire (ConfigurationLocked token key)"
  | p where "y = (Reacquire p, ks')" "x = Reacquire (Signing token p)"
  | e where "y = (Leave (Inl e), ks')" "x = Leave (Inl e)"
  | key c where "y = (Leave (Inr key), ks')" "ks_configuration ks' = Some c"
      "x = Leave (check_claims lib settings token key (oc_issuer c))"
  | key where "y = (Leave (Inr key), ks')" "ks_configuration ks' = None" "x = Reacquire (ConfigurationLocked token key)"
  using assms
  by (cases "(lib, settings, token, y)" rule: in_signing_key.cases) (auto simp: begin_configuration_def split: option.splits)

lemma in_signing_key_state [simp]: "snd (in_signing_key lib settings token y) = snd y"
  by (cases "(lib, settings, token, y)" rule: in_signing_key.cases) (auto simp: begin_configuration_def split: option.split)

lemma in_signing_key_discipline:
  assumes "in_signing_key lib settings token (signing_key_task str_of jwk_of k now ks) = (x, ks')"
  shows "x = Acquire p' \<Longrightarrow> \<not> holds signing_inside k \<and> verify_inside p' \<and> verify_gas (Inl p') < signing_gas (point k) + 2"
    and "x = Reacquire p' \<Longrightarrow> holds signing_inside k \<and> verify_inside p' \<and> verify_gas (Inl p') < signing_gas (point k) + 2"
    and "x = Ask q w' \<Longrightarrow> holds signing_inside k \<and> verify_gas (Inr w') < signing_gas (point k) + 2"
    and "x = Return r \<Longrightarrow> \<not> holds signing_inside k" and "x = Leave r \<Longrightarrow> holds signing_inside k"
  using assms keys.acquire_inside[of str_of jwk_of k now ks] keys.reacquire_inside[of str_of jwk_of k now ks]
    keys.ask_inside[of str_of jwk_of k now ks] keys.return_outside[of str_of jwk_of k now ks] keys.leave_inside[of str_of jwk_of k now ks]
  by (auto elim!: in_signing_key_cases)

interpretation verifications: lock_discipline "verify_task lib settings" verify_inside verify_gas for lib settings
proof unfold_locales
  fix k now ks p ks'
  assume "verify_task lib settings k now ks = (Acquire p, ks')"
  then show "\<not> holds verify_inside k \<and> verify_inside p \<and> verify_gas (Inl p) < verify_gas (point k)"
    by (cases "(lib, settings, k, now, ks)" rule: verify_task.cases)
      (auto simp del: signing_key_task.simps split: option.splits sum.splits dest: in_signing_key_discipline(1)[OF _ refl])
next
  fix k now ks p ks'
  assume "verify_task lib settings k now ks = (Reacquire p, ks')"
  then show "holds verify_inside k \<and> verify_inside p \<and> verify_gas (Inl p) < verify_gas (point k)"
    by (cases "(lib, settings, k, now, ks)" rule: verify_task.cases)
      (auto simp del: signing_key_task.simps split: option.splits sum.splits dest: in_signing_key_discipline(2)[OF _ refl])
next
  fix k now ks q w ks'
  assume "verify_task lib settings k now ks = (Ask q w, ks')"
  then show "holds verify_inside k \<and> verify_gas (Inr w) < verify_gas (point k)"
    by (cases "(lib, settings, k, now, ks)" rule: verify_task.cases)
      (auto simp del: signing_key_task.simps split: option.splits sum.splits dest: in_signing_key_discipline(3)[OF _ refl])
next
  fix k now ks r ks'
  assume "verify_task lib settings k now ks = (Return r, ks')"
  then show "\<not> holds verify_inside k"
    by (cases "(lib, settings, k, now, ks)" rule: verify_task.cases)
      (auto simp del: signing_key_task.simps split: option.splits sum.splits dest: in_signing_key_discipline(4)[OF _ refl])
next
  fix k now ks r ks'
  assume "verify_task lib settings k now ks = (Leave r, ks')"
  then show "holds verify_inside k"
    by (cases "(lib, settings, k, now, ks)" rule: verify_task.cases)
      (auto simp del: signing_key_task.simps split: option.splits sum.splits dest: in_signing_key_discipline(5)[OF _ refl])
next
  fix p :: "'a verify_point" and now ks
  assume "\<not> verify_inside p"
  then show "snd (verify_task lib settings (Run p) now ks) = ks"
    using keys.outside_reads[of _ "jl_str_of lib" "jl_jwk_of lib" now ks]
    by (cases p) (auto simp del: signing_key_task.simps split: sum.split)
qed

subsection \<open>One coroutine alone\<close>

fun verify_reading :: "(nat \<Rightarrow> seconds) \<Rightarrow> 'k verify_point + 'k verify_wait \<Rightarrow> seconds" where
  "verify_reading clock (Inl (Signing _ p)) = reading clock (Inl p)"
| "verify_reading clock (Inr (SigningWait _ w)) = reading clock (Inr w)"
| "verify_reading clock _ = clock 0"

text \<open>What \<open>verify\<close> does when \<open>signing_key\<close> has ended.\<close>

definition finish_verify ::
  "'k jwt_library \<Rightarrow> settings \<Rightarrow> string \<Rightarrow> (auth_error + 'k) \<times> 'k key_source \<Rightarrow> (auth_error + principal) \<times> 'k key_source" where
  "finish_verify lib settings token y =
     (case y of
        (Inl e, ks) \<Rightarrow> (Inl e, ks)
      | (Inr key, ks) \<Rightarrow>
          (case configuration (jl_get_json lib) (jl_str_of lib) ks of
             (Inl e, ks') \<Rightarrow> (Inl e, ks')
           | (Inr c, ks') \<Rightarrow> (check_claims lib settings token key (oc_issuer c), ks')))"

fun wrap_wake :: "string \<Rightarrow> (signing_point, signing_wait, 'a) wake \<Rightarrow> ('k verify_point, 'k verify_wait, 'a) wake" where
  "wrap_wake token (Run p) = Run (Signing token p)"
| "wrap_wake token (Wake w a) = Wake (SigningWait token w) a"

abbreviation solo_verify where
  "solo_verify lib settings clock \<equiv> solo (verify_task lib settings) (answer_from (jl_get_json lib)) (verify_reading clock)"

abbreviation solo_signing where
  "solo_signing lib clock \<equiv>
     solo (signing_key_task (jl_str_of lib) (jl_jwk_of lib)) (answer_from (jl_get_json lib)) (reading clock)"

lemma wrap_wake_run:
  "verify_task lib settings (wrap_wake token k) now ks =
   in_signing_key lib settings token (signing_key_task (jl_str_of lib) (jl_jwk_of lib) k now ks)"
  "verify_reading clock (point (wrap_wake token k)) = reading clock (point k)"
  by (cases k; simp)+

lemma solo_configuration:
  "solo_verify lib settings clock (Suc (Suc n)) (Run (ConfigurationLocked token key)) ks =
   Some (finish_verify lib settings token (Inr key, ks))"
  by (auto simp: finish_verify_def configuration_def answer_from_def fetch_configuration_url split: option.split sum.split)

lemma solo_ended:
  assumes "signing_key_task (jl_str_of lib) (jl_jwk_of lib) k (reading clock (point k)) ks = (x, ks')"
    and "x = Return r \<or> x = Leave r" and "y = (r, ks')"
  shows "solo_verify lib settings clock (Suc n + 2) (wrap_wake token k) ks = Some (finish_verify lib settings token y)"
proof (cases r)
  case (Inl e)
  then show ?thesis
    using assms by (auto simp: wrap_wake_run finish_verify_def)
next
  case (Inr key)
  show ?thesis
  proof (cases "ks_configuration ks'")
    case None
    then show ?thesis
      using assms Inr solo_configuration[of lib settings clock n token key ks']
      by (auto simp: wrap_wake_run begin_configuration_def solo.simps(2)[of _ _ _ "Suc (Suc n)"] simp del: solo.simps(2))
  next
    case (Some c)
    then show ?thesis
      using assms Inr by (auto simp: wrap_wake_run begin_configuration_def finish_verify_def configuration_def)
  qed
qed

lemma solo_in_signing_key:
  "solo_signing lib clock n k ks = Some y \<Longrightarrow>
   solo_verify lib settings clock (n + 2) (wrap_wake token k) ks = Some (finish_verify lib settings token y)"
proof (induction n arbitrary: k ks)
  case (Suc n)
  obtain x ks' where x: "signing_key_task (jl_str_of lib) (jl_jwk_of lib) k (reading clock (point k)) ks = (x, ks')"
    by (cases "signing_key_task (jl_str_of lib) (jl_jwk_of lib) k (reading clock (point k)) ks")
  show ?case
  proof (cases x)
    case (Acquire p)
    with Suc.prems x Suc.IH[of "Run p" ks'] show ?thesis
      by (simp add: wrap_wake_run)
  next
    case (Ask q w)
    with Suc.prems x Suc.IH[of "Wake w (answer_from (jl_get_json lib) q)" ks'] show ?thesis
      by (simp add: wrap_wake_run)
  next
    case (Reacquire p)
    with Suc.prems x Suc.IH[of "Run p" ks'] show ?thesis
      by (simp add: wrap_wake_run)
  next
    case (Return r)
    with Suc.prems x have "y = (r, ks')"
      by simp
    with x Return show ?thesis
      by (intro solo_ended) auto
  next
    case (Leave r)
    with Suc.prems x have "y = (r, ks')"
      by simp
    with x Leave show ?thesis
      by (intro solo_ended) auto
  qed
qed simp
lemma verify_finish:
  "map_prod id vf_keys (verify lib clock token v) =
   (case check_header lib (vf_settings v) token of
      Inl e \<Rightarrow> (Inl e, vf_keys v)
    | Inr kid \<Rightarrow> finish_verify lib (vf_settings v) token
        (signing_key (jl_get_json lib) (jl_str_of lib) (jl_jwk_of lib) clock kid (vf_keys v)))"
  by (auto simp: verify_def finish_verify_def split: sum.split prod.split)


subsection \<open>What a principal rests on\<close>

text \<open>A key some key set among the answers published under this id, and the configurations its discovery documents gave.\<close>

definition offered :: "(document \<Rightarrow> 'k option) \<Rightarrow> (tenant_document \<times> json option) list \<Rightarrow> string \<Rightarrow> 'k \<Rightarrow> bool" where
  "offered jwk_of answers kid key =
     list_ex (\<lambda>(q, a). case (q, published_keys (\<lambda>_. a) jwk_of []) of
       (Jwks _, Inr keys) \<Rightarrow> map_of keys (JStr kid) = Some key
     | _ \<Rightarrow> False) answers"

definition discovered ::
  "(json \<Rightarrow> string) \<Rightarrow> 'k key_source \<Rightarrow> (tenant_document \<times> json option) list \<Rightarrow> openid_configuration list" where
  "discovered str_of ks answers =
     concat (map (\<lambda>(q, a). case (q, fetch_configuration (\<lambda>_. a) str_of ks) of (Discovery _, Inr c) \<Rightarrow> [c] | _ \<Rightarrow> []) answers)"

definition backed ::
  "'k jwt_library \<Rightarrow> 'k key_source \<Rightarrow> (tenant_document \<times> json option) list \<Rightarrow> 'k key_source \<Rightarrow> bool" where
  "backed lib ks0 answers ks \<longleftrightarrow>
     ks_tenant_id ks = ks_tenant_id ks0 \<and>
     discovered (jl_str_of lib) ks0 answers = (case ks_configuration ks of None \<Rightarrow> [] | Some c \<Rightarrow> [c]) \<and>
     (\<forall>kid key. lookup_key ks kid = Some key \<longrightarrow> offered (jl_jwk_of lib) answers kid key)"

fun kid_at :: "signing_point + signing_wait \<Rightarrow> string" where
  "kid_at (Inl (SigningCall kid)) = kid"
| "kid_at (Inl (CachedLocked kid)) = kid"
| "kid_at (Inl (UnknownLocked kid)) = kid"
| "kid_at (Inr (AskedDiscovery _ kid)) = kid"
| "kid_at (Inr (AskedJwks _ kid)) = kid"

fun asks_for :: "tenant_document \<Rightarrow> signing_wait \<Rightarrow> 'k key_source \<Rightarrow> bool" where
  "asks_for (Discovery _) (AskedDiscovery _ _) ks = (ks_configuration ks = None)"
| "asks_for (Jwks _) (AskedJwks _ _) ks = (ks_configuration ks \<noteq> None)"
| "asks_for _ _ ks = False"

text \<open>What is known of the coroutine that validates \<open>token\<close>.\<close>

fun traced ::
  "'k jwt_library \<Rightarrow> settings \<Rightarrow> string \<Rightarrow> (tenant_document \<times> json option) list \<Rightarrow> 'k key_source \<Rightarrow>
     ('k verify_point, 'k verify_wait, tenant_document, auth_error + principal) task \<Rightarrow> bool" where
  "traced lib settings token answers ks (Ready p) = (p = VerifyCall token)"
| "traced lib settings token answers ks (Waiting (Signing t p)) = (t = token \<and> check_header lib settings token = Inr (kid_at (Inl p)))"
| "traced lib settings token answers ks (Waiting (ConfigurationLocked t key)) =
     (t = token \<and> (\<exists>kid. check_header lib settings token = Inr kid \<and> offered (jl_jwk_of lib) answers kid key))"
| "traced lib settings token answers ks (Waiting (VerifyCall t)) = False"
| "traced lib settings token answers ks (Asking q (SigningWait t w)) =
     (t = token \<and> check_header lib settings token = Inr (kid_at (Inr w)) \<and> asks_for q w ks)"
| "traced lib settings token answers ks (Asking q (ConfigurationAsked t key)) =
     (t = token \<and> (\<exists>kid. check_header lib settings token = Inr kid \<and> offered (jl_jwk_of lib) answers kid key) \<and>
      ks_configuration ks = None \<and> (\<exists>url. q = Discovery url))"
| "traced lib settings token answers ks (Done (Inl e)) = True"
| "traced lib settings token answers ks (Done (Inr p)) =
     (\<exists>kid key c. check_header lib settings token = Inr kid \<and> offered (jl_jwk_of lib) answers kid key \<and>
        ks_configuration ks = Some c \<and> check_claims lib settings token key (oc_issuer c) = Inr p)"

fun task_after :: "('p, 'w, 'q, 'r) suspension \<Rightarrow> ('p, 'w, 'q, 'r) task" where
  "task_after (Acquire p) = Waiting p"
| "task_after (Ask q w) = Asking q w"
| "task_after (Return r) = Done r"
| "task_after (Reacquire p) = Waiting p"
| "task_after (Leave r) = Done r"

lemma suspend_tasks: "lp_tasks (suspend i y l) = (lp_tasks l)[i := task_after (fst y)]"
  by (cases "(i, y, l)" rule: suspend.cases) simp_all

lemma offered_more: "offered jwk_of answers kid key \<Longrightarrow> offered jwk_of (answers @ news) kid key"
  by (simp add: offered_def)

lemma discovered_more [simp]: "discovered str_of ks (answers @ news) = discovered str_of ks answers @ discovered str_of ks news"
  by (simp add: discovered_def)

lemma discovered_one [simp]:
  "discovered str_of ks [(Discovery url, a)] = (case fetch_configuration (\<lambda>_. a) str_of ks of Inl e \<Rightarrow> [] | Inr c \<Rightarrow> [c])"
  "discovered str_of ks [(Jwks url, a)] = []"
  by (simp_all add: discovered_def)

lemma traced_more:
  assumes "traced lib settings token answers ks t" and "\<not> is_asking t"
    and "\<And>c. ks_configuration ks = Some c \<Longrightarrow> ks_configuration ks' = Some c"
  shows "traced lib settings token (answers @ news) ks' t"
  using assms
  by (cases "(lib, settings, token, answers, ks, t)" rule: traced.cases) (auto intro: offered_more)

text \<open>The way out of \<open>signing_key\<close>, whose key is in the cache, into the claims or to the lock of \<open>configuration\<close>.\<close>

lemma traced_in_signing_key:
  assumes "in_signing_key lib settings token y = (x, ks')" and "check_header lib settings token = Inr kid"
    and "\<And>p. fst y = Acquire p \<or> fst y = Reacquire p \<Longrightarrow> kid_at (Inl p) = kid"
    and "\<And>q w. fst y = Ask q w \<Longrightarrow> kid_at (Inr w) = kid \<and> asks_for q w ks'"
    and "\<And>key. fst y = Return (Inr key) \<or> fst y = Leave (Inr key) \<Longrightarrow> offered (jl_jwk_of lib) answers kid key"
  shows "traced lib settings token answers ks' (task_after x)"
  using assms(1)
proof (cases rule: in_signing_key_cases)
  case (4 key c)
  then show ?thesis
    using assms(2,5) by (cases "check_claims lib settings token key (oc_issuer c)") auto
next
  case (8 key c)
  then show ?thesis
    using assms(2,5) by (cases "check_claims lib settings token key (oc_issuer c)") auto
qed (use assms(2-5) in auto)

lemma signing_run:
  assumes "signing_key_task str_of jwk_of (Run p) now ks = (x, ks')"
  shows "ks' = ks" and "x = Acquire p' \<or> x = Reacquire p' \<Longrightarrow> kid_at (Inl p') = kid_at (Inl p)"
    and "x = Ask q w \<Longrightarrow> kid_at (Inr w) = kid_at (Inl p) \<and> asks_for q w ks"
    and "x = Return (Inr key) \<or> x = Leave (Inr key) \<Longrightarrow> lookup_key ks (kid_at (Inl p)) = Some key"
  using assms
  by (cases p; auto simp: begin_refresh_def split: if_splits option.splits)+

lemma leave_section_kid:
  assumes "leave_section sec kid ks = (x, ks')"
  shows "ks' = ks" "x = Reacquire p \<Longrightarrow> kid_at (Inl p) = kid" "x \<noteq> Ask q w" "x \<noteq> Acquire p" "x \<noteq> Return r"
    "x = Leave (Inr key) \<Longrightarrow> lookup_key ks kid = Some key"
  using assms by (cases sec; auto split: option.splits)+

lemma signing_wake_discovery:
  assumes "signing_key_task str_of jwk_of (Wake (AskedDiscovery sec kid) a) now ks = (x, ks')"
  shows "(\<exists>e. fetch_configuration (\<lambda>_. a) str_of ks = Inl e \<and> x = Leave (Inl e) \<and> ks' = ks) \<or>
    (\<exists>c. fetch_configuration (\<lambda>_. a) str_of ks = Inr c \<and> x = Ask (Jwks (oc_jwks_uri c)) (AskedJwks sec kid) \<and>
      ks' = ks\<lparr>ks_configuration := Some c\<rparr>)"
  using assms by (auto split: sum.splits)

lemma signing_wake_jwks:
  assumes "signing_key_task str_of jwk_of (Wake (AskedJwks sec kid) a) now ks = (x, ks')"
  shows "(\<exists>e. published_keys (\<lambda>_. a) jwk_of [] = Inl e \<and> x = Leave (Inl e) \<and> ks' = ks) \<or>
    (\<exists>keys. published_keys (\<lambda>_. a) jwk_of [] = Inr keys \<and> ks' = ks\<lparr>ks_keys := keys, ks_keys_fetched_at := now\<rparr> \<and>
      leave_section sec kid ks' = (x, ks'))"
  using assms leave_section_kid(1)[of sec kid _ x ks'] by (auto split: sum.splits)

lemma fetch_configuration_tenant:
  "ks_tenant_id ks = ks_tenant_id ks0 \<Longrightarrow> fetch_configuration (\<lambda>_. a) str_of ks = fetch_configuration (\<lambda>_. a) str_of ks0"
  by (simp add: fetch_configuration_def read_json_def Let_def cong: if_cong)

subsection \<open>Runs\<close>

text \<open>A run that does not follow an answer changes nothing.\<close>

lemma traced_run:
  assumes "backed lib ks0 answers ks"
    and "traced lib settings token answers ks (Ready p) \<or> traced lib settings token answers ks (Waiting p)"
    and "verify_task lib settings (Run p) now ks = (x, ks')"
  shows "ks' = ks \<and> traced lib settings token answers ks (task_after x)"
proof (cases p)
  case (VerifyCall t)
  with assms(2) have t: "t = token"
    by auto
  show ?thesis
  proof (cases "check_header lib settings token")
    case (Inr kid)
    obtain y ks1 where y: "signing_key_task (jl_str_of lib) (jl_jwk_of lib) (Run (SigningCall kid)) now ks = (y, ks1)"
      by (cases "signing_key_task (jl_str_of lib) (jl_jwk_of lib) (Run (SigningCall kid)) now ks")
    have x: "in_signing_key lib settings token (y, ks) = (x, ks')"
      using assms(3) VerifyCall t Inr y signing_run(1)[OF y] by (simp del: signing_key_task.simps)
    from traced_in_signing_key[OF this Inr] signing_run[OF y] in_signing_key_state[of lib settings token "(y, ks)"] x assms(1)
    show ?thesis
      by (simp add: backed_def)
  qed (use assms(3) VerifyCall t in auto)
next
  case (Signing t q)
  with assms(2) have t: "t = token" "check_header lib settings token = Inr (kid_at (Inl q))"
    by auto
  obtain y ks1 where y: "signing_key_task (jl_str_of lib) (jl_jwk_of lib) (Run q) now ks = (y, ks1)"
    by (cases "signing_key_task (jl_str_of lib) (jl_jwk_of lib) (Run q) now ks")
  have x: "in_signing_key lib settings token (y, ks) = (x, ks')"
    using assms(3) Signing t y signing_run(1)[OF y] by (simp del: signing_key_task.simps)
  from traced_in_signing_key[OF this t(2)] signing_run[OF y] in_signing_key_state[of lib settings token "(y, ks)"] x assms(1)
  show ?thesis
    by (simp add: backed_def)
next
  case (ConfigurationLocked t key)
  then show ?thesis
    using assms(2,3)
    by (cases "ks_configuration ks"; cases "check_claims lib settings t key (oc_issuer (the (ks_configuration ks)))") auto
qed

text \<open>A run that follows an answer.\<close>

lemma backed_discovery:
  assumes "backed lib ks0 answers ks" and "ks_configuration ks = None"
  shows "fetch_configuration (\<lambda>_. a) (jl_str_of lib) ks = Inl e \<Longrightarrow> backed lib ks0 (answers @ [(Discovery url, a)]) ks"
    and "fetch_configuration (\<lambda>_. a) (jl_str_of lib) ks = Inr c \<Longrightarrow>
      backed lib ks0 (answers @ [(Discovery url, a)]) (ks\<lparr>ks_configuration := Some c\<rparr>)"
proof -
  have "fetch_configuration (\<lambda>_. a) (jl_str_of lib) ks0 = fetch_configuration (\<lambda>_. a) (jl_str_of lib) ks"
    using assms(1) fetch_configuration_tenant[of ks0 ks a "jl_str_of lib"] by (simp add: backed_def)
  then show "fetch_configuration (\<lambda>_. a) (jl_str_of lib) ks = Inl e \<Longrightarrow> backed lib ks0 (answers @ [(Discovery url, a)]) ks"
    and "fetch_configuration (\<lambda>_. a) (jl_str_of lib) ks = Inr c \<Longrightarrow>
      backed lib ks0 (answers @ [(Discovery url, a)]) (ks\<lparr>ks_configuration := Some c\<rparr>)"
    using assms by (simp_all add: backed_def lookup_key_def offered_more)
qed

lemma backed_jwks:
  assumes "backed lib ks0 answers ks"
  shows "published_keys (\<lambda>_. a) (jl_jwk_of lib) [] = Inl e \<Longrightarrow> backed lib ks0 (answers @ [(Jwks url, a)]) ks"
    and "published_keys (\<lambda>_. a) (jl_jwk_of lib) [] = Inr keys \<Longrightarrow>
      backed lib ks0 (answers @ [(Jwks url, a)]) (ks\<lparr>ks_keys := keys, ks_keys_fetched_at := now\<rparr>)"
  using assms by (simp_all add: backed_def lookup_key_def offered_more) (simp add: offered_def)

lemma traced_answer:
  assumes inv: "backed lib ks0 answers ks" and "traced lib settings token answers ks (Asking q w)"
    and run: "verify_task lib settings (Wake w a) now ks = (x, ks')"
  shows "backed lib ks0 (answers @ [(q, a)]) ks' \<and> traced lib settings token (answers @ [(q, a)]) ks' (task_after x) \<and>
    (\<forall>c. ks_configuration ks = Some c \<longrightarrow> ks_configuration ks' = Some c)"
proof (cases w)
  case (SigningWait t v)
  with assms(2) have t: "t = token" "check_header lib settings token = Inr (kid_at (Inr v))" "asks_for q v ks"
    by auto
  obtain y ks1 where y: "signing_key_task (jl_str_of lib) (jl_jwk_of lib) (Wake v a) now ks = (y, ks1)"
    by (cases "signing_key_task (jl_str_of lib) (jl_jwk_of lib) (Wake v a) now ks")
  have x: "in_signing_key lib settings token (y, ks1) = (x, ks')"
    using run SigningWait t y by (simp del: signing_key_task.simps)
  then have same: "ks1 = ks'"
    using in_signing_key_state[of lib settings token "(y, ks1)"] by simp
  show ?thesis
  proof (cases v)
    case (AskedDiscovery sec kid)
    with t(3) obtain url where q: "q = Discovery url" "ks_configuration ks = None"
      by (cases q) auto
    from signing_wake_discovery[OF y[unfolded AskedDiscovery]] backed_discovery[OF inv q(2), of a _ url] traced_in_signing_key[OF x t(2)]
    show ?thesis
      by (auto simp: q same AskedDiscovery)
  next
    case (AskedJwks sec kid)
    with t(3) obtain url where q: "q = Jwks url"
      by (cases q) auto
    from signing_wake_jwks[OF y[unfolded AskedJwks]] show ?thesis
    proof (elim disjE exE conjE)
      fix e
      assume "published_keys (\<lambda>_. a) (jl_jwk_of lib) [] = Inl e" "y = Leave (Inl e)" "ks1 = ks"
      with backed_jwks(1)[OF inv, of a e url] x show ?thesis
        by (auto simp: q same)
    next
      fix keys
      assume keys: "published_keys (\<lambda>_. a) (jl_jwk_of lib) [] = Inr keys" "leave_section sec kid ks1 = (y, ks1)"
        and ks1: "ks1 = ks\<lparr>ks_keys := keys, ks_keys_fetched_at := now\<rparr>"
      then have new: "backed lib ks0 (answers @ [(q, a)]) ks'"
        using backed_jwks(2)[OF inv keys(1), of url now] by (simp add: q flip: same)
      have "traced lib settings token (answers @ [(q, a)]) ks' (task_after x)"
        using leave_section_kid[OF keys(2)] new t(2)
        by (intro traced_in_signing_key[OF x t(2)]) (auto simp: backed_def same AskedJwks)
      with new ks1 show ?thesis
        by (simp add: same)
    qed
  qed
next
  case (ConfigurationAsked t key)
  with assms(2) obtain url kid where t: "t = token" "q = Discovery url" "ks_configuration ks = None"
    "check_header lib settings token = Inr kid" "offered (jl_jwk_of lib) answers kid key"
    by auto
  show ?thesis
  proof (cases "fetch_configuration (\<lambda>_. a) (jl_str_of lib) ks")
    case (Inl e)
    then show ?thesis
      using run ConfigurationAsked t backed_discovery(1)[OF inv t(3) Inl] by auto
  next
    case (Inr c)
    then show ?thesis
      using run ConfigurationAsked t backed_discovery(2)[OF inv t(3) Inr, of url] offered_more[OF t(5), of "[(Discovery url, a)]"]
      by (cases "check_claims lib settings token key (oc_issuer c)") (auto intro: exI[of _ key])
  qed
qed

text \<open>So it holds along every schedule.\<close>

definition trusted :: "'k jwt_library \<Rightarrow> settings \<Rightarrow> string list \<Rightarrow> 'k key_source \<Rightarrow> 'k verify_loop \<Rightarrow> bool" where
  "trusted lib settings tokens ks0 l \<longleftrightarrow>
     backed lib ks0 (lp_answers l) (lp_state l) \<and> length (lp_tasks l) = length tokens \<and>
     (\<forall>i < length tokens. traced lib settings (tokens ! i) (lp_answers l) (lp_state l) (lp_tasks l ! i))"

lemma trusted_run:
  assumes "trusted lib settings tokens ks0 l" and "i < length tokens" "lp_tasks l ! i = Ready p \<or> lp_tasks l ! i = Waiting p"
    and "lp_tasks l1 = lp_tasks l" "lp_state l1 = lp_state l" "lp_answers l1 = lp_answers l"
  shows "trusted lib settings tokens ks0 (suspend i (verify_task lib settings (Run p) now (lp_state l)) l1)"
proof -
  obtain x ks' where x: "verify_task lib settings (Run p) now (lp_state l) = (x, ks')"
    by (cases "verify_task lib settings (Run p) now (lp_state l)")
  have "traced lib settings (tokens ! i) (lp_answers l) (lp_state l) (lp_tasks l ! i)"
    using assms(1,2) by (simp add: trusted_def)
  with traced_run[of lib ks0 "lp_answers l" "lp_state l" settings "tokens ! i" p, OF _ _ x] assms(1,3)
  have "ks' = lp_state l \<and> traced lib settings (tokens ! i) (lp_answers l) (lp_state l) (task_after x)"
    by (auto simp: trusted_def)
  with x assms show ?thesis
    by (auto simp: trusted_def suspend_tasks nth_list_update)
qed

lemma trusted_answer:
  assumes "trusted lib settings tokens ks0 l" and lock: "verifications.lock_inv l"
    and i: "i < length tokens" "lp_tasks l ! i = Asking q w"
  shows "trusted lib settings tokens ks0 (suspend i (verify_task lib settings (Wake w a) now (lp_state l))
    (l\<lparr>lp_now := now, lp_answers := lp_answers l @ [(q, a)]\<rparr>))"
proof -
  have len: "length (lp_tasks l) = length tokens"
    using assms(1) by (simp add: trusted_def)
  obtain x ks' where x: "verify_task lib settings (Wake w a) now (lp_state l) = (x, ks')"
    by (cases "verify_task lib settings (Wake w a) now (lp_state l)")
  have "traced lib settings (tokens ! i) (lp_answers l) (lp_state l) (Asking q w)"
    using assms(1) i by (auto simp: trusted_def)
  with traced_answer[OF _ _ x] assms(1)
  have run: "backed lib ks0 (lp_answers l @ [(q, a)]) ks'"
      "traced lib settings (tokens ! i) (lp_answers l @ [(q, a)]) ks' (task_after x)"
      "\<And>c. ks_configuration (lp_state l) = Some c \<Longrightarrow> ks_configuration ks' = Some c"
    by (auto simp: trusted_def)
  have "traced lib settings (tokens ! j) (lp_answers l @ [(q, a)]) ks' (lp_tasks l ! j)" if "j < length tokens" "j \<noteq> i" for j
  proof (rule traced_more[OF _ _ run(3)])
    show "traced lib settings (tokens ! j) (lp_answers l) (lp_state l) (lp_tasks l ! j)"
      using assms(1) that by (simp add: trusted_def)
    show "\<not> is_asking (lp_tasks l ! j)"
      using verifications.one_asks_at_a_time[OF lock, of i j] i that len by auto
  qed
  with run x i len show ?thesis
    by (auto simp: trusted_def suspend_tasks nth_list_update)
qed

lemma trusted_schedule:
  assumes "schedule (verify_task lib settings) l0 ms l" and "verifications.lock_inv l0" and "trusted lib settings tokens ks0 l0"
  shows "trusted lib settings tokens ks0 l"
  using assms(1)
proof induction
  case (moved ms l m l')
  have len: "length (lp_tasks l) = length tokens"
    using moved.IH by (simp add: trusted_def)
  note lock = verifications.lock_inv_schedule[OF moved.hyps(1) assms(2)]
  from moved.hyps(2) show ?case
    by (cases rule: perform_cases) (use len in \<open>simp_all add: trusted_run[OF moved.IH] trusted_answer[OF moved.IH lock]\<close>)
qed (rule assms(3))

lemma check_claims_Inr:
  "check_claims lib settings token key issuer = Inr p \<longleftrightarrow>
   (\<exists>claims. jl_decode lib token key (verify_call settings issuer) = Some claims \<and>
      to_principal (jl_str_of lib) (jl_float_of lib) settings claims = Inr p) \<and> has_scope p (st_required_scope settings)"
  by (auto simp: check_claims_def bind_sum_Inr_iff require_scope_def split: option.splits if_splits)

subsection \<open>Properties\<close>

text \<open>
  C29: whatever else is validated at the same time, a principal is vouched for.  From a key source that knows nothing yet, let any number of tokens be
  validated in any interleaving, with any answers from the tenant.  At most one answer gives a discovery document that is used.
  And where a validation has returned a principal, its token passed the checks of the header, a key set among the tenant's
  answers published a key under the id the token names, the JWT library accepted this very token with that key, the algorithms, the options, the configured audience and
  the issuer of that discovery document, the principal is the one those claims describe, and it carries the
  required scope.
\<close>

theorem concurrent_verifications_are_sound:
  assumes "ks_keys ks = []" "ks_configuration ks = None"
    and "schedule (verify_task lib settings) (launch ks now (map VerifyCall tokens)) ms l"
  shows "length (discovered (jl_str_of lib) ks (lp_answers l)) \<le> 1 \<and>
    (\<forall>i p. i < length tokens \<and> lp_tasks l ! i = Done (Inr p) \<longrightarrow>
      (\<exists>kid key c claims. check_header lib settings (tokens ! i) = Inr kid \<and> offered (jl_jwk_of lib) (lp_answers l) kid key \<and>
        discovered (jl_str_of lib) ks (lp_answers l) = [c] \<and>
        jl_decode lib (tokens ! i) key (verify_call settings (oc_issuer c)) = Some claims \<and>
        to_principal (jl_str_of lib) (jl_float_of lib) settings claims = Inr p \<and> has_scope p (st_required_scope settings)))"
proof -
  let ?l0 = "launch ks now (map VerifyCall tokens)"
  have "verifications.lock_inv ?l0"
    by (rule verifications.lock_inv_launch) (simp add: list_all_length)
  moreover have "trusted lib settings tokens ks ?l0"
    using assms(1,2) by (simp add: trusted_def backed_def discovered_def lookup_key_def)
  ultimately have inv: "trusted lib settings tokens ks l"
    by (rule trusted_schedule[OF assms(3)])
  have "traced lib settings (tokens ! i) (lp_answers l) (lp_state l) (Done (Inr p))"
    if "i < length tokens" "lp_tasks l ! i = Done (Inr p)" for i p
    using inv that by (metis trusted_def)
  with inv show ?thesis
    by (fastforce simp: trusted_def backed_def check_claims_Inr split: option.split)
qed

text \<open>Two tokens, the second let in while the first waits for the tenant.\<close>

definition two_validations :: "json option move list" where
  "two_validations =
     [Start 0 500, Enter 0 500, Start 1 500, Answer 0 501 (example_tenant ''https://idp/t''),
      Answer 0 502 (example_tenant ''https://idp/keys''), Enter 1 502]"

abbreviation two_tokens_launched :: "nat verify_loop" where
  "two_tokens_launched \<equiv> launch (new_key_source example_auth_settings) 500 (map VerifyCall [''token'', ''token''])"

lemma two_validations_run:
  "replay (verify_task example_lib example_auth_settings) two_validations two_tokens_launched \<noteq> None"
  "lp_tasks (the (replay (verify_task example_lib example_auth_settings) two_validations two_tokens_launched)) =
   [Done (Inr example_principal), Done (Inr example_principal)]"
  by code_simp+

theorem concurrent_verifications_are_sound_witness:
  "\<exists>l. replay (verify_task example_lib example_auth_settings) two_validations two_tokens_launched = Some l \<and>
     lp_tasks l = [Done (Inr example_principal), Done (Inr example_principal)] \<and>
     length (discovered (jl_str_of example_lib) (new_key_source example_auth_settings :: nat key_source) (lp_answers l)) \<le> 1 \<and>
     (\<exists>kid key. offered (jl_jwk_of example_lib) (lp_answers l) kid key) \<and> has_scope example_principal ''inventory.readwrite''"
proof -
  obtain l where l: "replay (verify_task example_lib example_auth_settings) two_validations two_tokens_launched = Some l"
    using two_validations_run(1) by blast
  have new: "ks_keys (new_key_source example_auth_settings :: nat key_source) = []"
    "ks_configuration (new_key_source example_auth_settings :: nat key_source) = None"
    by (simp_all add: new_key_source_def)
  have ended: "lp_tasks l = [Done (Inr example_principal), Done (Inr example_principal)]"
    using two_validations_run(2) unfolding l by simp
  note sound = concurrent_verifications_are_sound[OF new replay_schedule[OF two_validations_run(1)], unfolded l option.sel]
  have "0 < length [''token'', ''token''] \<and> lp_tasks l ! 0 = Done (Inr example_principal)"
    by (simp add: ended)
  with conjunct2[OF sound] have "(\<exists>kid key. offered (jl_jwk_of example_lib) (lp_answers l) kid key) \<and>
      has_scope example_principal (st_required_scope example_auth_settings)"
    by blast
  moreover have "st_required_scope example_auth_settings = ''inventory.readwrite''"
    by (simp add: example_auth_settings_def)
  ultimately show ?thesis
    using conjunct1[OF sound] l ended by (intro exI[of _ l]) (simp only: simp_thms)
qed

end
