(* ===== verification/Service_Tasks.thy ===== *)
theory Service_Tasks
  imports Provider_Tasks Store_Tasks Verify_Tasks
begin

section \<open>The guarded caches together\<close>

text \<open>
  What the coroutines of the provider, the blob store and the key source have in common, from the interpretations \<open>provider\<close>, \<open>store\<close>,
  \<open>keys\<close> and \<open>verifications\<close> of the contracts of \<open>Async_Lock\<close>: they end, and the first two are sequences of the calls that the rest of the development
  reasons about.
\<close>

text \<open>
  C14: no request waits for ever on a cache.  However many requests call the provider, the blob store or the key source, or validate whole tokens, together, in
  whatever order the event loop continues them, and whatever the outside answers, there are at most three, three, seven and nine moves for each
  of them; and a state in which nothing can be continued any more is one in which the lock is free and every call has returned or raised.  The lock is
  not reentrant and only the end of a section frees it, so this says that no call asks for the lock it holds already, that every way out of a section, by
  a failure too, is taken through its end, and that no two calls wait for each other.
\<close>

theorem guarded_calls_end:
  "(schedule (sessionmaker_task w) (launch db now (replicate n SessionCall)) ms l \<longrightarrow>
      length ms \<le> 3 * n \<and> ((\<forall>m. perform (sessionmaker_task w) m l = None) \<longrightarrow> lp_owner l = None \<and> list_all (\<lambda>t. \<not> unfinished t) (lp_tasks l))) \<and>
   (schedule delegation_key_task (launch st now' (map KeyCall instants)) ms' l' \<longrightarrow>
      length ms' \<le> 3 * length instants \<and>
      ((\<forall>m. perform delegation_key_task m l' = None) \<longrightarrow> lp_owner l' = None \<and> list_all (\<lambda>t. \<not> unfinished t) (lp_tasks l'))) \<and>
   (schedule (signing_key_task str_of jwk_of) (launch ks now'' (map SigningCall kids)) ms'' l'' \<longrightarrow>
      length ms'' \<le> 7 * length kids \<and>
      ((\<forall>m. perform (signing_key_task str_of jwk_of) m l'' = None) \<longrightarrow> lp_owner l'' = None \<and> list_all (\<lambda>t. \<not> unfinished t) (lp_tasks l''))) \<and>
   (schedule (verify_task lib settings) (launch ks' now3 (map VerifyCall tokens)) ms3 l3 \<longrightarrow>
      length ms3 \<le> 9 * length tokens \<and>
      ((\<forall>m. perform (verify_task lib settings) m l3 = None) \<longrightarrow> lp_owner l3 = None \<and> list_all (\<lambda>t. \<not> unfinished t) (lp_tasks l3)))"
proof -
  note ends = provider.schedule_ends[of w db now "replicate n SessionCall" ms l 2]
    store.schedule_ends[of st now' "map KeyCall instants" ms' l' 2]
    keys.schedule_ends[of str_of jwk_of ks now'' "map SigningCall kids" ms'' l'' 6]
    verifications.schedule_ends[of lib settings ks' now3 "map VerifyCall tokens" ms3 l3 8]
  then show ?thesis
    by (simp add: list_all_length)
qed

theorem guarded_calls_end_witness:
  "length two_callers \<le> 3 * 2 \<and>
   (\<exists>l. replay (sessionmaker_task vault_world) two_callers
      (launch (new_database example_db_settings) 100 (replicate 2 SessionCall)) = Some l \<and>
      (\<forall>m. perform (sessionmaker_task vault_world) m l = None) \<and> lp_owner l = None \<and> list_all (\<lambda>t. \<not> unfinished t) (lp_tasks l)) \<and>
   length two_uploads \<le> 3 * 3 \<and> length two_tokens \<le> 7 * 2 \<and>
   length two_validations \<le> 9 * 2"
proof -
  let ?p = "launch (new_database example_db_settings) 100 (replicate 2 SessionCall)"
  let ?final = "replay (sessionmaker_task vault_world) two_callers ?p"
  have "perform (sessionmaker_task vault_world) m (the ?final) = None" for m
    by (rule finished_is_stuck[OF two_callers_run(2)])
  moreover note guarded_calls_end[of vault_world "new_database example_db_settings" 100 2 two_callers "the ?final"
    "new_store example_settings" 1 "[1000000, 2000000, 1000001]" two_uploads _
    "\<lambda>v. []" "\<lambda>e. Some (1 :: nat)" example_keys 190 "[''forged'', ''k1'']" two_tokens _
    example_lib example_auth_settings "new_key_source example_auth_settings" 500 "[''token'', ''token'']" two_validations]
  ultimately show ?thesis
    using replay_schedule[OF two_callers_run(1)] replay_schedule[OF two_uploads_run(1)] replay_schedule[OF two_tokens_run(1)]
      replay_schedule[OF two_validations_run(1)]
      two_callers_run by auto
qed

text \<open>
  C13: concurrent calls are calls, one after the other.  Every schedule of any number of concurrent calls of the provider, or of the blob
  store's key cache, has the results and the final state of some sequence of whole calls, one for each coroutine that has
  finished: the statements about sequences of calls, the cool-down and the life of a key among them, are statements about
  every interleaving.
\<close>

theorem concurrent_calls_are_serial:
  "(schedule (sessionmaker_task w) (launch db now (replicate n SessionCall)) ms l \<longrightarrow>
      (\<exists>cs. serial (\<lambda>_ now answer later. sessionmaker (answering w answer) now later) (replicate n SessionCall) db cs (lp_state l) \<and>
        completed cs (lp_tasks l))) \<and>
   (schedule delegation_key_task (launch st now' (map KeyCall instants)) ms' l' \<longrightarrow>
      (\<exists>cs. serial (\<lambda>p _ answer _. delegation_key (\<lambda>_ _. answer) (key_instant p)) (map KeyCall instants) st cs (lp_state l') \<and>
        completed cs (lp_tasks l')))"
  using provider.schedule_is_serial[of w db now "replicate n SessionCall" ms l]
    store.schedule_is_serial[of st now' "map KeyCall instants" ms' l']
  by (simp add: list_all_length)

theorem concurrent_calls_are_serial_witness:
  "\<exists>cs st. serial (\<lambda>p _ answer _. delegation_key (\<lambda>_ _. answer) (key_instant p))
      (map KeyCall [1000000, 2000000, 1000001]) (new_store example_settings) cs st \<and>
     completed cs ([Done (Inl KeyRefused), Done (Inr (1, 2)), Done (Inr (1, 2))] ::
       (key_point, key_wait, datetime \<times> datetime, storage_error + datetime \<times> datetime) task list)"
proof -
  from mp[OF conjunct2[OF concurrent_calls_are_serial] replay_schedule[OF two_uploads_run(1)]] show ?thesis
    unfolding two_uploads_run(2) by blast
qed

end
