(* ===== verification/Concurrent_Posts.thy ===== *)
theory Concurrent_Posts
  imports Repo_Uploads
begin

section \<open>Requests whose transactions interleave\<close>

text \<open>
  Appending an event over HTTP, statement by statement: the dependency \<^verbatim>\<open>get_household_id\<close> (\<^verbatim>\<open>HouseholdRepository.ensure\<close> and its commit) and
  the handler \<^verbatim>\<open>append_event\<close> (\<^verbatim>\<open>append_if_new\<close> and its commit), for any number of requests at once, on Postgres' default isolation,
  READ COMMITTED.  A statement sees the rows committed before it and its own; an INSERT of a key that another open
  transaction has inserted waits for that transaction to end; \<^verbatim>\<open>now()\<close> is the start of the transaction.  A
  request may be dropped at any point, with its transaction.

  The statements are those of \<open>Kitchen_Tables\<close>, the repository's methods as single steps those of \<open>Repo_Events\<close> and \<open>Repo_Uploads\<close>.  The
  lemmas show that every interleaving has the effect and the answers of such steps one after another, and what
  the clock of the transaction does to that order.
\<close>

record post_call =
  po_household :: uuid
  po_name :: string
  po_new_id :: uuid
  po_event :: new_inventory_event

datatype post_point =
    PostBegun
  | HouseholdMissing datetime
  | HouseholdInserted datetime household_row
  | HouseholdSeen "datetime option"
  | EventInserted datetime event_row
  | EventTaken datetime
  | EnsureRefused repo_error
  | Posted "repo_error + inventory_event \<times> bool"
  | Dropped

record posts =
  ps_db :: kitchen_db
  ps_points :: "post_point list"
  ps_now :: datetime

definition household_row_of :: "post_call \<Rightarrow> datetime \<Rightarrow> household_row" where
  "household_row_of c began =
     \<lparr>hr_id = po_household c, hr_name = po_name c, hr_timezone = ''Europe/London'', hr_created_at = began\<rparr>"

definition event_row_of :: "post_call \<Rightarrow> datetime \<Rightarrow> event_row" where
  "event_row_of c began = row_of_values (po_new_id c) began (to_values (po_household c) (po_event c))"

text \<open>Whether an INSERT has to wait: a row with its key is in another transaction that has not ended.\<close>

fun holds_household :: "uuid \<Rightarrow> post_point \<Rightarrow> bool" where
  "holds_household h (HouseholdInserted _ r) = (hr_id r = h)"
| "holds_household h _ = False"

definition household_waits :: "household_row \<Rightarrow> post_point list \<Rightarrow> bool" where
  "household_waits row points =
     (case store_household row of
        Inl _ \<Rightarrow> False
      | Inr r \<Rightarrow> household_checks r \<and> list_ex (holds_household (hr_id r)) points)"

fun holds_event :: "kitchen_db \<Rightarrow> event_row \<Rightarrow> post_point \<Rightarrow> bool" where
  "holds_event db r (EventInserted _ q) =
     (er_idempotency_key q = er_idempotency_key r \<or>
      er_id q = er_id r \<and> er_idempotency_key r \<notin> set (map er_idempotency_key (db_events db)))"
| "holds_event db r _ = False"

definition event_waits :: "event_row \<Rightarrow> post_point list \<Rightarrow> kitchen_db \<Rightarrow> bool" where
  "event_waits row points db =
     (case store_event row of Inl _ \<Rightarrow> False | Inr r \<Rightarrow> event_checks r \<and> list_ex (holds_event db r) points)"

text \<open>The next statement of a request, or its commit: \<open>None\<close> while it waits, and when it has ended.\<close>

fun post_statement :: "post_call \<Rightarrow> post_point list \<Rightarrow> datetime \<Rightarrow> kitchen_db \<Rightarrow> post_point \<Rightarrow> (post_point \<times> kitchen_db) option" where
  "post_statement c points now db PostBegun =
     Some (case exists_household db (po_household c) of
             Inl e \<Rightarrow> EnsureRefused e
           | Inr known \<Rightarrow> if known then HouseholdSeen (Some now) else HouseholdMissing now, db)"
| "post_statement c points now db (HouseholdMissing began) =
     (if household_waits (household_row_of c began) points then None
      else Some (case insert_household_if_new (household_row_of c began) db of
                   Inl e \<Rightarrow> EnsureRefused (DbError e)
                 | Inr (None, _) \<Rightarrow> HouseholdSeen (Some began)
                 | Inr (Some _, written) \<Rightarrow> HouseholdInserted began (last (db_households written)), db))"
| "post_statement c points now db (HouseholdInserted began r) =
     Some (HouseholdSeen None, db\<lparr>db_households := db_households db @ [r]\<rparr>)"
| "post_statement c points now db (HouseholdSeen transaction) =
     (let began = (case transaction of Some t \<Rightarrow> t | None \<Rightarrow> now) in
      if event_waits (event_row_of c began) points db then None
      else Some (case insert_event_if_new (event_row_of c began) db of
                   Inl e \<Rightarrow> Posted (Inl (DbError e))
                 | Inr (None, _) \<Rightarrow> EventTaken began
                 | Inr (Some r, _) \<Rightarrow> EventInserted began r, db))"
| "post_statement c points now db (EventInserted began r) =
     Some (Posted (Inr (event_to_domain r, True)), db\<lparr>db_events := db_events db @ [r]\<rparr>)"
| "post_statement c points now db (EventTaken began) =
     Some (Posted (bind_sum (get_by_idempotency_key db (po_household c) (ne_idempotency_key (po_event c)))
             (\<lambda>existing. case existing of None \<Rightarrow> Inl IdempotencyKeyConflictError | Some e \<Rightarrow> Inr (e, False))), db)"
| "post_statement c points now db _ = None"

fun in_progress :: "post_point \<Rightarrow> bool" where
  "in_progress (EnsureRefused _) = False"
| "in_progress (Posted _) = False"
| "in_progress Dropped = False"
| "in_progress _ = True"

datatype post_move = Statement nat datetime | Drop nat

fun post_step :: "post_call list \<Rightarrow> post_move \<Rightarrow> posts \<Rightarrow> posts option" where
  "post_step calls (Statement i now) p =
     (if i < length (ps_points p) \<and> ps_now p \<le> now then
        (case post_statement (calls ! i) (ps_points p) now (ps_db p) (ps_points p ! i) of
           None \<Rightarrow> None
         | Some (point, db) \<Rightarrow> Some \<lparr>ps_db = db, ps_points = (ps_points p)[i := point], ps_now = now\<rparr>)
      else None)"
| "post_step calls (Drop i) p =
     (if i < length (ps_points p) \<and> in_progress (ps_points p ! i)
      then Some (p\<lparr>ps_points := (ps_points p)[i := Dropped]\<rparr>) else None)"

definition begin_posts :: "kitchen_db \<Rightarrow> datetime \<Rightarrow> post_call list \<Rightarrow> posts" where
  "begin_posts db now calls = \<lparr>ps_db = db, ps_points = replicate (length calls) PostBegun, ps_now = now\<rparr>"

inductive interleaving :: "post_call list \<Rightarrow> posts \<Rightarrow> post_move list \<Rightarrow> posts \<Rightarrow> bool" for calls p0 where
  begun: "interleaving calls p0 [] p0"
| continued: "interleaving calls p0 ms p \<Longrightarrow> post_step calls m p = Some p' \<Longrightarrow> interleaving calls p0 (ms @ [m]) p'"

fun replay_posts :: "post_call list \<Rightarrow> post_move list \<Rightarrow> posts \<Rightarrow> posts option" where
  "replay_posts calls [] p = Some p"
| "replay_posts calls (m # ms) p = Option.bind (post_step calls m p) (replay_posts calls ms)"

subsection \<open>The requests one after another\<close>

datatype post_entry = Ensured nat bool | Appended nat "repo_error + inventory_event \<times> bool"

text \<open>Calls of \<open>ensure\<close> and \<open>append_if_new\<close> that each run alone; one that is refused leaves the database as it is.\<close>

inductive serial_posts :: "post_call list \<Rightarrow> kitchen_db \<Rightarrow> post_entry list \<Rightarrow> kitchen_db \<Rightarrow> bool" for calls db0 where
  none: "serial_posts calls db0 [] db0"
| ensured: "serial_posts calls db0 cs db \<Longrightarrow>
    ensure began (po_household (calls ! i)) (po_name (calls ! i)) ''Europe/London'' db = Inr (created, db') \<Longrightarrow>
    serial_posts calls db0 (cs @ [Ensured i created]) db'"
| appended: "serial_posts calls db0 cs db \<Longrightarrow>
    append_if_new (po_new_id (calls ! i)) began (po_household (calls ! i)) (po_event (calls ! i)) db = Inr (r, db') \<Longrightarrow>
    serial_posts calls db0 (cs @ [Appended i (Inr r)]) db'"
| append_refused: "serial_posts calls db0 cs db \<Longrightarrow>
    append_if_new (po_new_id (calls ! i)) began (po_household (calls ! i)) (po_event (calls ! i)) db = Inl e \<Longrightarrow>
    serial_posts calls db0 (cs @ [Appended i (Inl e)]) db"

subsection \<open>What is known of a request between its statements\<close>

fun point_ok :: "post_call \<Rightarrow> kitchen_db \<Rightarrow> post_point \<Rightarrow> bool" where
  "point_ok c db (HouseholdInserted began r) \<longleftrightarrow>
     store_household (household_row_of c began) = Inr r \<and> household_checks r \<and> \<not> household_exists db (hr_id r)"
| "point_ok c db (EventInserted began r) \<longleftrightarrow>
     insert_event_if_new (event_row_of c began) db = Inr (Some r, db\<lparr>db_events := db_events db @ [r]\<rparr>)"
| "point_ok c db (EventTaken began) \<longleftrightarrow> insert_event_if_new (event_row_of c began) db = Inr (None, db)"
| "point_ok c db (Posted (Inr (e, created))) \<longleftrightarrow>
     e \<in> event_to_domain ` set (db_events db) \<and> ev_household_id e = po_household c \<and>
     (length (ne_idempotency_key (po_event c)) \<le> 200 \<longrightarrow> ev_idempotency_key e = ne_idempotency_key (po_event c))"
| "point_ok c db _ \<longleftrightarrow> True"

fun apart :: "post_point \<Rightarrow> post_point \<Rightarrow> bool" where
  "apart (HouseholdInserted _ r) (HouseholdInserted _ q) \<longleftrightarrow> hr_id r \<noteq> hr_id q"
| "apart (EventInserted _ r) (EventInserted _ q) \<longleftrightarrow> er_idempotency_key r \<noteq> er_idempotency_key q \<and> er_id r \<noteq> er_id q"
| "apart (Posted (Inr (e, True))) (Posted (Inr (f, True))) \<longleftrightarrow> ev_idempotency_key e \<noteq> ev_idempotency_key f"
| "apart _ _ \<longleftrightarrow> True"

definition entries_match :: "post_entry list \<Rightarrow> post_point list \<Rightarrow> bool" where
  "entries_match cs points \<longleftrightarrow>
     (\<forall>i r. Appended i r \<in> set cs \<longleftrightarrow> i < length points \<and> points ! i = Posted r) \<and>
     distinct (filter (\<lambda>x. \<exists>i r. x = Appended i r) cs)"

definition posts_inv :: "post_call list \<Rightarrow> kitchen_db \<Rightarrow> posts \<Rightarrow> bool" where
  "posts_inv calls db0 p \<longleftrightarrow>
     db_ok (ps_db p) \<and> length (ps_points p) = length calls \<and>
     (\<forall>i < length calls. point_ok (calls ! i) (ps_db p) (ps_points p ! i)) \<and>
     (\<forall>i < length calls. \<forall>j < length calls. i \<noteq> j \<longrightarrow> apart (ps_points p ! i) (ps_points p ! j)) \<and>
     (\<exists>cs. serial_posts calls db0 cs (ps_db p) \<and> entries_match cs (ps_points p))"

lemma apart_commute: "apart x y \<Longrightarrow> apart y x"
  by (cases "(x, y)" rule: apart.cases) auto

lemma household_id_stored: "store_household (household_row_of c t) = Inr r \<Longrightarrow> hr_id r = po_household c"
  using store_household_stored by (fastforce simp: household_row_of_def)

text \<open>Another request's commit leaves what is known of this one true.\<close>

lemma point_ok_household:
  assumes "point_ok c db x" and "apart x (HouseholdInserted t r)"
  shows "point_ok c (db\<lparr>db_households := db_households db @ [r]\<rparr>) x"
proof -
  let ?db' = "db\<lparr>db_households := db_households db @ [r]\<rparr>"
  have "event_refs db q \<Longrightarrow> event_refs ?db' q" for q
    by (rule refs_mono(1)) auto
  then show ?thesis
    using assms
    by (cases "(c, db, x)" rule: point_ok.cases) (auto simp: household_exists_def insert_event_if_new_Inr split: if_splits)
qed

lemma point_ok_event:
  assumes "point_ok c db x" and "apart x (EventInserted t r)"
  shows "point_ok c (db\<lparr>db_events := db_events db @ [r]\<rparr>) x"
proof -
  have "event_refs (db\<lparr>db_events := db_events db @ [r]\<rparr>) q = event_refs db q" for q
    by (simp add: refs_defs)
  then show ?thesis
    using assms
    by (cases "(c, db, x)" rule: point_ok.cases) (auto simp: household_exists_def insert_event_if_new_Inr split: if_splits)
qed

lemma entries_match_progress:
  assumes "entries_match cs points" and "i < length points" "in_progress (points ! i)"
  shows "(\<forall>r. x \<noteq> Posted r) \<Longrightarrow> entries_match cs (points[i := x])"
    and "(\<forall>r. x \<noteq> Posted r) \<Longrightarrow> entries_match (cs @ [Ensured k c]) (points[i := x])"
    and "entries_match (cs @ [Appended i r]) (points[i := Posted r])"
proof -
  have not_yet: "Appended i r \<notin> set cs" for r
    using assms by (auto simp: entries_match_def)
  then show "(\<forall>r. x \<noteq> Posted r) \<Longrightarrow> entries_match cs (points[i := x])"
    and "(\<forall>r. x \<noteq> Posted r) \<Longrightarrow> entries_match (cs @ [Ensured k c]) (points[i := x])"
    using assms by (auto simp: entries_match_def nth_list_update)
  from not_yet show "entries_match (cs @ [Appended i r]) (points[i := Posted r])"
    using assms by (auto simp: entries_match_def nth_list_update)
qed

text \<open>One request moves on: what has to be shown of its statement.\<close>

lemma posts_inv_update:
  assumes "posts_inv calls db0 p" and "i < length calls" and "db_ok db" and "point_ok (calls ! i) db x"
    and "\<And>j. j < length calls \<Longrightarrow> j \<noteq> i \<Longrightarrow> point_ok (calls ! j) db (ps_points p ! j)"
    and "\<And>j. j < length calls \<Longrightarrow> j \<noteq> i \<Longrightarrow> apart x (ps_points p ! j)"
    and "\<exists>cs. serial_posts calls db0 cs db \<and> entries_match cs ((ps_points p)[i := x])"
  shows "posts_inv calls db0 \<lparr>ps_db = db, ps_points = (ps_points p)[i := x], ps_now = now\<rparr>"
  using assms apart_commute by (auto simp: posts_inv_def nth_list_update)

lemma posts_inv_quiet:
  assumes inv: "posts_inv calls db0 p" and i: "i < length calls" "in_progress (ps_points p ! i)"
    and x: "\<forall>r. x \<noteq> Posted r" "point_ok (calls ! i) (ps_db p) x"
    and others: "\<And>j. j < length calls \<Longrightarrow> j \<noteq> i \<Longrightarrow> apart x (ps_points p ! j)"
  shows "posts_inv calls db0 \<lparr>ps_db = ps_db p, ps_points = (ps_points p)[i := x], ps_now = now\<rparr>"
proof (rule posts_inv_update[OF inv i(1) _ x(2) _ others])
  show "\<exists>cs. serial_posts calls db0 cs (ps_db p) \<and> entries_match cs ((ps_points p)[i := x])"
    using inv i x(1) entries_match_progress(1)[of _ "ps_points p" i x] by (auto simp: posts_inv_def)
qed (use inv in \<open>auto simp: posts_inv_def\<close>)

lemma household_inserted:
  assumes "insert_household_if_new row db = Inr (Some h, written)"
  shows "store_household row = Inr (last (db_households written)) \<and> household_checks (last (db_households written)) \<and>
    \<not> household_exists db (hr_id (last (db_households written)))"
  using assms by (auto simp: insert_household_if_new_Inr split: if_splits)

lemma event_inserted:
  assumes "insert_event_if_new row db = Inr (Some r, written)"
  shows "written = db\<lparr>db_events := db_events db @ [r]\<rparr>" "store_event row = Inr r" "event_checks r"
    "er_idempotency_key r \<notin> er_idempotency_key ` set (db_events db)"
  using assms by (auto simp: insert_event_if_new_Inr split: if_splits)

lemma household_insert_inv:
  assumes inv: "posts_inv calls db0 p" and i: "i < length calls" "ps_points p ! i = HouseholdMissing began"
    and step: "post_statement (calls ! i) (ps_points p) now (ps_db p) (ps_points p ! i) = Some (x, db)"
  shows "posts_inv calls db0 \<lparr>ps_db = db, ps_points = (ps_points p)[i := x], ps_now = now\<rparr>"
proof -
  let ?row = "household_row_of (calls ! i) began"
  have free: "\<not> household_waits ?row (ps_points p)" and db: "db = ps_db p"
    and x: "x = (case insert_household_if_new ?row (ps_db p) of
        Inl e \<Rightarrow> EnsureRefused (DbError e)
      | Inr (None, _) \<Rightarrow> HouseholdSeen (Some began)
      | Inr (Some _, written) \<Rightarrow> HouseholdInserted began (last (db_households written)))"
    using step i(2) by (auto split: if_splits)
  consider e where "x = EnsureRefused e" | "x = HouseholdSeen (Some began)"
    | h written where "x = HouseholdInserted began (last (db_households written))"
      "insert_household_if_new ?row (ps_db p) = Inr (Some h, written)"
    using x by (auto split: sum.splits prod.splits option.splits)
  then show ?thesis
  proof cases
    case 3
    note r = household_inserted[OF 3(2)]
    have "apart x (ps_points p ! j)" if "j < length calls" for j
      using free r inv that unfolding 3(1)
      by (cases "ps_points p ! j") (auto simp: household_waits_def posts_inv_def list_ex_length)
    with 3(1) r i show ?thesis
      unfolding db by (intro posts_inv_quiet[OF inv]) auto
  qed (use i in \<open>auto simp: db intro!: posts_inv_quiet[OF inv]\<close>)
qed

lemma household_commit_inv:
  assumes inv: "posts_inv calls db0 p" and i: "i < length calls" "ps_points p ! i = HouseholdInserted began r"
  shows "posts_inv calls db0 \<lparr>ps_db = (ps_db p)\<lparr>db_households := db_households (ps_db p) @ [r]\<rparr>,
    ps_points = (ps_points p)[i := HouseholdSeen None], ps_now = now\<rparr>"
proof -
  let ?c = "calls ! i" and ?db' = "(ps_db p)\<lparr>db_households := db_households (ps_db p) @ [r]\<rparr>"
  obtain cs where ok: "db_ok (ps_db p)" and here: "point_ok ?c (ps_db p) (HouseholdInserted began r)"
    and others: "\<And>j. j < length calls \<Longrightarrow> point_ok (calls ! j) (ps_db p) (ps_points p ! j)"
    and far: "\<And>j. j < length calls \<Longrightarrow> j \<noteq> i \<Longrightarrow> apart (ps_points p ! j) (HouseholdInserted began r)"
    and cs: "serial_posts calls db0 cs (ps_db p)" "entries_match cs (ps_points p)" and len: "length (ps_points p) = length calls"
    using inv i apart_commute unfolding posts_inv_def by metis
  have ins: "insert_household_if_new (household_row_of ?c began) (ps_db p) = Inr (Some (hr_id r), ?db')"
    using here by (auto simp: insert_household_if_new_Inr)
  have "ensure began (po_household ?c) (po_name ?c) ''Europe/London'' (ps_db p) = Inr (True, ?db')"
    using ins here household_id_stored[of ?c began r]
    by (simp add: ensure_unfold[OF ok] ensure_insert_def household_row_of_def)
  from serial_posts.ensured[OF cs(1) this] entries_match_progress(2)[OF cs(2), of i "HouseholdSeen None" i True] i len
  have "\<exists>cs. serial_posts calls db0 cs ?db' \<and> entries_match cs ((ps_points p)[i := HouseholdSeen None])"
    by auto
  with insert_household_if_new_ok[OF ok ins] point_ok_household[OF others far] i(1) show ?thesis
    by (intro posts_inv_update[OF inv]) auto
qed

lemma event_insert_inv:
  assumes inv: "posts_inv calls db0 p" and i: "i < length calls" "ps_points p ! i = HouseholdSeen transaction"
    and step: "post_statement (calls ! i) (ps_points p) now (ps_db p) (ps_points p ! i) = Some (x, db)"
  shows "posts_inv calls db0 \<lparr>ps_db = db, ps_points = (ps_points p)[i := x], ps_now = now\<rparr>"
proof -
  define began where "began = (case transaction of Some t \<Rightarrow> t | None \<Rightarrow> now)"
  let ?c = "calls ! i" and ?row = "event_row_of (calls ! i) began"
  let ?next = "case insert_event_if_new ?row (ps_db p) of
      Inl e \<Rightarrow> Posted (Inl (DbError e)) | Inr (None, _) \<Rightarrow> EventTaken began | Inr (Some r, _) \<Rightarrow> EventInserted began r"
  have "(if event_waits ?row (ps_points p) (ps_db p) then None else Some (?next, ps_db p)) = Some (x, db)"
    using step unfolding i(2) post_statement.simps Let_def began_def .
  then have free: "\<not> event_waits ?row (ps_points p) (ps_db p)" and db: "db = ps_db p" and x: "x = ?next"
    by (auto split: if_splits)
  consider (refused) e where "x = Posted (Inl (DbError e))" "insert_event_if_new ?row (ps_db p) = Inl e"
    | (taken) w where "x = EventTaken began" "insert_event_if_new ?row (ps_db p) = Inr (None, w)"
    | (inserted) r w where "x = EventInserted began r" "insert_event_if_new ?row (ps_db p) = Inr (Some r, w)"
    using x by (auto split: sum.splits prod.splits option.splits)
  then show ?thesis
  proof cases
    case refused
    obtain cs where cs: "serial_posts calls db0 cs (ps_db p)" "entries_match cs (ps_points p)"
      and len: "length (ps_points p) = length calls"
      using inv by (auto simp: posts_inv_def)
    have "append_if_new (po_new_id ?c) began (po_household ?c) (po_event ?c) (ps_db p) = Inl (DbError e)"
      using refused(2) by (simp add: append_if_new_def event_row_of_def)
    from serial_posts.append_refused[OF cs(1) this] entries_match_progress(3)[OF cs(2), of i "Inl (DbError e)"] i len
    show ?thesis
      unfolding db refused(1) using inv by (intro posts_inv_update[OF inv]) (auto simp: posts_inv_def)
  next
    case taken
    then have "insert_event_if_new ?row (ps_db p) = Inr (None, ps_db p)"
      by (auto simp: insert_event_if_new_Inr split: if_splits)
    with taken(1) i show ?thesis
      unfolding db by (intro posts_inv_quiet[OF inv]) auto
  next
    case inserted
    note r = event_inserted[OF inserted(2)]
    have "apart x (ps_points p ! j)" if "j < length calls" for j
      using free r inv that unfolding inserted(1)
      by (cases "ps_points p ! j") (auto simp: event_waits_def posts_inv_def list_ex_length)
    with inserted r i show ?thesis
      unfolding db by (intro posts_inv_quiet[OF inv]) auto
  qed
qed

lemma event_commit_inv:
  assumes inv: "posts_inv calls db0 p" and i: "i < length calls" "ps_points p ! i = EventInserted began r"
  shows "posts_inv calls db0 \<lparr>ps_db = (ps_db p)\<lparr>db_events := db_events (ps_db p) @ [r]\<rparr>,
    ps_points = (ps_points p)[i := Posted (Inr (event_to_domain r, True))], ps_now = now\<rparr>"
proof -
  let ?c = "calls ! i" and ?db' = "(ps_db p)\<lparr>db_events := db_events (ps_db p) @ [r]\<rparr>"
  let ?x = "Posted (Inr (event_to_domain r, True))"
  obtain cs where ok: "db_ok (ps_db p)" and here: "point_ok ?c (ps_db p) (EventInserted began r)"
    and others: "\<And>j. j < length calls \<Longrightarrow> point_ok (calls ! j) (ps_db p) (ps_points p ! j)"
    and far: "\<And>j. j < length calls \<Longrightarrow> j \<noteq> i \<Longrightarrow> apart (ps_points p ! j) (EventInserted began r)"
    and cs: "serial_posts calls db0 cs (ps_db p)" "entries_match cs (ps_points p)" and len: "length (ps_points p) = length calls"
    using inv i apart_commute unfolding posts_inv_def by metis
  have ins: "insert_event_if_new (event_row_of ?c began) (ps_db p) = Inr (Some r, ?db')"
    using here by simp
  note r = event_inserted[OF ins]
  have "append_if_new (po_new_id ?c) began (po_household ?c) (po_event ?c) (ps_db p) = Inr ((event_to_domain r, True), ?db')"
    using ins by (simp add: append_if_new_def event_row_of_def)
  from serial_posts.appended[OF cs(1) this] entries_match_progress(3)[OF cs(2)] i len
  have history: "\<exists>cs. serial_posts calls db0 cs ?db' \<and> entries_match cs ((ps_points p)[i := ?x])"
    by auto
  have own: "point_ok ?c ?db' ?x"
    using store_event_same(2)[OF r(2)] store_event_key[OF r(2)] by (simp add: event_row_of_def)
  have "apart ?x (ps_points p ! j)" if "j < length calls" for j
    using others[OF that] r(4) by (cases "(?x, ps_points p ! j)" rule: apart.cases) auto
  with history own insert_event_if_new_ok[OF ok ins] point_ok_event[OF others far] i(1) show ?thesis
    by (intro posts_inv_update[OF inv]) auto
qed

lemma event_taken_inv:
  assumes inv: "posts_inv calls db0 p" and i: "i < length calls" "ps_points p ! i = EventTaken began"
    and step: "post_statement (calls ! i) (ps_points p) now (ps_db p) (ps_points p ! i) = Some (x, db)"
  shows "posts_inv calls db0 \<lparr>ps_db = db, ps_points = (ps_points p)[i := x], ps_now = now\<rparr>"
proof -
  let ?c = "calls ! i"
  obtain cs where ok: "db_ok (ps_db p)" and here: "point_ok ?c (ps_db p) (EventTaken began)"
    and cs: "serial_posts calls db0 cs (ps_db p)" "entries_match cs (ps_points p)" and len: "length (ps_points p) = length calls"
    using inv i unfolding posts_inv_def by metis
  define found where "found = find (\<lambda>r. er_idempotency_key r = ne_idempotency_key (po_event ?c)) (scoped_events (ps_db p) (po_household ?c))"
  define r where "r = (case found of None \<Rightarrow> Inl IdempotencyKeyConflictError | Some q \<Rightarrow> Inr (event_to_domain q, False))"
  have db: "db = ps_db p" and x: "x = Posted r"
    using step i(2) by (auto simp: get_by_key_find[OF ok] r_def found_def split: option.splits)
  have call: "append_if_new (po_new_id ?c) began (po_household ?c) (po_event ?c) (ps_db p) =
      (case r of Inl e \<Rightarrow> Inl e | Inr y \<Rightarrow> Inr (y, ps_db p))"
    using here by (simp add: append_if_new_def event_row_of_def get_by_key_find[OF ok] r_def found_def split: option.split)
  have "\<exists>cs. serial_posts calls db0 cs (ps_db p) \<and> entries_match cs ((ps_points p)[i := x])"
    unfolding x using entries_match_progress(3)[OF cs(2), of i r] i len call serial_posts.appended[OF cs(1), of i began]
      serial_posts.append_refused[OF cs(1), of i began]
    by (cases r) auto
  moreover have "point_ok ?c (ps_db p) x"
    using find_scoped[of _ "ps_db p" "po_household ?c"] unfolding x r_def
    by (cases found) (auto simp: found_def)
  moreover have "apart x y" for y
    unfolding x r_def by (cases "(Posted r, y)" rule: apart.cases) (auto simp: r_def split: option.splits)
  ultimately show ?thesis
    unfolding db using inv i(1) by (intro posts_inv_update[OF inv]) (auto simp: posts_inv_def)
qed

lemma posts_inv_step:
  assumes inv: "posts_inv calls db0 p" and step: "post_step calls m p = Some p'"
  shows "posts_inv calls db0 p'"
proof (cases m)
  case (Statement i now)
  with step inv obtain x db where i: "i < length calls"
    and st: "post_statement (calls ! i) (ps_points p) now (ps_db p) (ps_points p ! i) = Some (x, db)"
    and p': "p' = \<lparr>ps_db = db, ps_points = (ps_points p)[i := x], ps_now = now\<rparr>"
    by (auto simp: posts_inv_def split: if_splits option.splits)
  have ok: "db_ok (ps_db p)"
    using inv by (simp add: posts_inv_def)
  show ?thesis
    unfolding p'
  proof (cases "ps_points p ! i")
    case PostBegun
    with st have "db = ps_db p" "x = HouseholdSeen (Some now) \<or> x = HouseholdMissing now"
      by (auto simp: exists_household_iff[OF ok] split: if_splits)
    with PostBegun i show "posts_inv calls db0 \<lparr>ps_db = db, ps_points = (ps_points p)[i := x], ps_now = now\<rparr>"
      by (auto intro!: posts_inv_quiet[OF inv])
  qed (use st household_insert_inv[OF inv i _ st] household_commit_inv[OF inv i] event_insert_inv[OF inv i _ st]
      event_commit_inv[OF inv i] event_taken_inv[OF inv i _ st] in auto)
next
  case (Drop i)
  with step inv have "i < length calls" "in_progress (ps_points p ! i)"
    and p': "p' = \<lparr>ps_db = ps_db p, ps_points = (ps_points p)[i := Dropped], ps_now = ps_now p\<rparr>"
    by (auto simp: posts_inv_def split: if_splits)
  then show ?thesis
    unfolding p' by (intro posts_inv_quiet[OF inv]) auto
qed

lemma interleaving_inv:
  assumes "interleaving calls (begin_posts db now calls) ms p" and "db_ok db"
  shows "posts_inv calls db p"
  using assms(1)
proof induction
  case begun
  show ?case
    using assms(2)
    by (auto simp: posts_inv_def begin_posts_def entries_match_def intro!: exI[of _ "[]"] serial_posts.none)
qed (rule posts_inv_step)

lemma replay_interleaving:
  assumes "replay_posts calls ms p0 \<noteq> None"
  shows "interleaving calls p0 ms (the (replay_posts calls ms p0))"
proof -
  have "interleaving calls p0 (ns @ ms) p'" if "interleaving calls p0 ns p" "replay_posts calls ms p = Some p'" for ns p p'
    using that
  proof (induction ms arbitrary: ns p)
    case (Cons m ms)
    then obtain q where "post_step calls m p = Some q" "replay_posts calls ms q = Some p'"
      by (auto split: Option.bind_splits)
    with Cons.IH[of "ns @ [m]" q] Cons.prems(1) show ?case
      by (auto intro: interleaving.continued)
  qed simp
  from this[OF interleaving.begun] assms show ?thesis
    by auto
qed

subsection \<open>No request waits for ever\<close>

fun statements_left :: "post_point \<Rightarrow> nat" where
  "statements_left PostBegun = 5"
| "statements_left (HouseholdMissing _) = 4"
| "statements_left (HouseholdInserted _ _) = 3"
| "statements_left (HouseholdSeen _) = 2"
| "statements_left (EventInserted _ _) = 1"
| "statements_left (EventTaken _) = 1"
| "statements_left _ = 0"

lemma statement_leaves: "post_statement c points now db x = Some (y, db') \<Longrightarrow> statements_left y < statements_left x"
  by (cases x) (auto simp: Let_def split: if_splits sum.splits option.splits prod.splits)

lemma step_leaves:
  assumes "post_step calls m p = Some p'"
  shows "sum_list (map statements_left (ps_points p')) < sum_list (map statements_left (ps_points p))"
proof -
  have "statements_left Dropped < statements_left x" if "in_progress x" for x
    using that by (cases x) auto
  then show ?thesis
    using assms statement_leaves
    by (cases m) (auto split: if_splits option.splits intro!: sum_list_update_less)
qed

lemma interleaving_bound:
  assumes "interleaving calls p0 ms p"
  shows "length ms + sum_list (map statements_left (ps_points p)) \<le> sum_list (map statements_left (ps_points p0))"
  using assms by induction (auto dest: step_leaves)

text \<open>What a request waits for is a transaction that has only its commit left.\<close>

fun only_commit_left :: "post_point \<Rightarrow> bool" where
  "only_commit_left (HouseholdInserted _ _) = True"
| "only_commit_left (EventInserted _ _) = True"
| "only_commit_left _ = False"

lemma waits_for_commit:
  assumes "post_statement c points now db x = None" and "in_progress x"
  obtains j where "j < length points" "only_commit_left (points ! j)"
proof -
  have household: "holds_household h y \<Longrightarrow> only_commit_left y" for h y
    by (cases y) auto
  have event: "holds_event db r y \<Longrightarrow> only_commit_left y" for r y
    by (cases y) auto
  have "(\<exists>h. list_ex (holds_household h) points) \<or> (\<exists>r. list_ex (holds_event db r) points)"
    using assms
    by (cases x) (auto simp: household_waits_def event_waits_def Let_def split: if_splits sum.splits)
  then show thesis
    using that household event by (auto simp: list_ex_length)
qed

lemma posts_never_stuck:
  assumes "i < length (ps_points p)" and "in_progress (ps_points p ! i)"
  shows "\<exists>j p'. post_step calls (Statement j (ps_now p)) p = Some p'"
proof (cases "post_statement (calls ! i) (ps_points p) (ps_now p) (ps_db p) (ps_points p ! i)")
  case None
  then obtain j where "j < length (ps_points p)" "only_commit_left (ps_points p ! j)"
    using waits_for_commit[OF _ assms(2)] by metis
  then show ?thesis
    by (intro exI[of _ j]) (cases "ps_points p ! j"; simp)
next
  case (Some y)
  with assms(1) show ?thesis
    by (intro exI[of _ i]) (auto split: prod.split)
qed

subsection \<open>Properties\<close>

text \<open>
  C5: requests whose transactions interleave have the effect of requests one after another.  From a database whose
  constraints hold, after any interleaving of any number of appends, with requests dropped at any point, the committed database
  is the result of a sequence of calls of \<open>ensure\<close> and \<open>append_if_new\<close> that each run alone, in which every request that has been
  answered has exactly one append, with the answer it was given; and the constraints hold.
\<close>

theorem interleaved_posts_are_serial:
  assumes "db_ok db" and "interleaving calls (begin_posts db now calls) ms p"
  shows "db_ok (ps_db p) \<and> (\<exists>cs. serial_posts calls db cs (ps_db p) \<and> entries_match cs (ps_points p))"
  using interleaving_inv[OF assms(2,1)] by (simp add: posts_inv_def)

text \<open>
  C6: a retry that overtakes the first attempt.  Two requests of one household with the same idempotency key, in flight at the same
  time, that are both answered are answered with the same event, and at most one of them is told that it created
  it; the log has exactly one event with that key.
\<close>

theorem racing_retries_agree:
  assumes "db_ok db" and "interleaving calls (begin_posts db now calls) ms p"
    and "i < length calls" "j < length calls" "i \<noteq> j" and "po_household (calls ! i) = po_household (calls ! j)"
    and "ne_idempotency_key (po_event (calls ! i)) = k" "ne_idempotency_key (po_event (calls ! j)) = k" "length k \<le> 200"
    and "ps_points p ! i = Posted (Inr (e, created))" "ps_points p ! j = Posted (Inr (f, created'))"
  shows "e = f \<and> \<not> (created \<and> created') \<and> length (filter (\<lambda>r. er_idempotency_key r = k) (db_events (ps_db p))) = 1"
proof -
  have inv: "posts_inv calls db p"
    by (rule interleaving_inv[OF assms(2,1)])
  then have ok: "db_ok (ps_db p)" and apart: "apart (ps_points p ! i) (ps_points p ! j)"
    and points: "point_ok (calls ! i) (ps_db p) (ps_points p ! i)" "point_ok (calls ! j) (ps_db p) (ps_points p ! j)"
    using assms(3-5) by (auto simp: posts_inv_def)
  from points assms(7-11) obtain q r where q: "q \<in> set (db_events (ps_db p))" "e = event_to_domain q" "er_idempotency_key q = k"
    and r: "r \<in> set (db_events (ps_db p))" "f = event_to_domain r" "er_idempotency_key r = k"
    by auto
  have keys: "distinct (map er_idempotency_key (db_events (ps_db p)))"
    using ok by (auto simp: db_ok_def events_ok_def)
  then have "q = r"
    using q r by (auto simp: distinct_map dest: inj_onD)
  moreover have "filter (\<lambda>r. er_idempotency_key r = k) (db_events (ps_db p)) = [q]"
    using find_unique[OF keys q(1)] q(3) by (simp add: filter_by_key[OF keys])
  moreover have "\<not> (created \<and> created')"
    using apart assms(10,11) q r by auto
  ultimately show ?thesis
    using q r by simp
qed

text \<open>
  Appends do not block each other for ever.  Every interleaving of \<open>n\<close> appends has at most \<open>5 * n\<close> statements and commits, and
  while a request has not been answered some request can go on: an insert only ever waits for a transaction
  that has nothing left but its commit.
\<close>

theorem interleavings_end:
  assumes "interleaving calls (begin_posts db now calls) ms p"
  shows "length ms \<le> 5 * length calls \<and>
    ((\<forall>j. post_step calls (Statement j (ps_now p)) p = None) \<longrightarrow> list_all (\<lambda>x. \<not> in_progress x) (ps_points p))"
proof
  show "length ms \<le> 5 * length calls"
    using interleaving_bound[OF assms] by (simp add: begin_posts_def sum_list_replicate)
  show "(\<forall>j. post_step calls (Statement j (ps_now p)) p = None) \<longrightarrow> list_all (\<lambda>x. \<not> in_progress x) (ps_points p)"
    using posts_never_stuck[of _ p calls] by (force simp: list_all_length)
qed

text \<open>
  The past can still change while a transaction is open.  \<^verbatim>\<open>recorded_at\<close> is the start of the transaction, and the event becomes
  visible at its commit: a request that began at 11 and commits at 20 adds to what was known at 12 an event that
  a read of that instant, made at 13, did not return.
\<close>

definition late_call :: post_call where
  "late_call = \<lparr>po_household = example_household, po_name = ''Home'', po_new_id = 1, po_event = example_new\<rparr>"

theorem open_transaction_changes_the_past:
  "\<exists>p p'. replay_posts [late_call] [Statement 0 11, Statement 0 13] (begin_posts example_db 10 [late_call]) = Some p \<and>
     ps_now p = 13 \<and> events_known_as_of (ps_db p) example_household 12 None = [] \<and>
     post_step [late_call] (Statement 0 20) p = Some p' \<and>
     map ev_recorded_at (events_known_as_of (ps_db p') example_household 12 None) = [11]"
proof -
  let ?p = "replay_posts [late_call] [Statement 0 11, Statement 0 13] (begin_posts example_db 10 [late_call])"
  have "?p \<noteq> None" "ps_now (the ?p) = 13" "events_known_as_of (ps_db (the ?p)) example_household 12 None = []"
    "post_step [late_call] (Statement 0 20) (the ?p) \<noteq> None"
    "map ev_recorded_at (events_known_as_of (ps_db (the (post_step [late_call] (Statement 0 20) (the ?p)))) example_household 12 None) = [11]"
    by code_simp+
  then show ?thesis
    by fastforce
qed

subsection \<open>Examples\<close>

definition two_attempts :: "post_call list" where
  "two_attempts = [late_call, late_call\<lparr>po_new_id := 2\<rparr>]"

text \<open>The second attempt inserts first; the first one waits at 13, finds the key taken and reads the second one's event.\<close>

definition overtaking :: "post_move list" where
  "overtaking = [Statement 0 11, Statement 1 12, Statement 1 12, Statement 1 14, Statement 0 15, Statement 0 16]"

definition overtaken :: posts where
  "overtaken = the (replay_posts two_attempts overtaking (begin_posts example_db 10 two_attempts))"

lemma overtaken_reached: "interleaving two_attempts (begin_posts example_db 10 two_attempts) overtaking overtaken"
proof -
  have "replay_posts two_attempts overtaking (begin_posts example_db 10 two_attempts) \<noteq> None"
    by code_simp
  then show ?thesis
    unfolding overtaken_def by (rule replay_interleaving)
qed

theorem interleaved_posts_are_serial_witness:
  "db_ok (ps_db overtaken) \<and> (\<exists>cs. serial_posts two_attempts example_db cs (ps_db overtaken) \<and> entries_match cs (ps_points overtaken))"
  by (rule interleaved_posts_are_serial[OF example_db_ok overtaken_reached])

theorem racing_retries_agree_witness:
  "\<exists>e. ps_points overtaken = [Posted (Inr (e, False)), Posted (Inr (e, True))] \<and>
     length (filter (\<lambda>r. er_idempotency_key r = ''till-1'') (db_events (ps_db overtaken))) = 1"
proof -
  have len: "length (ps_points overtaken) = 2"
    and snds: "map (\<lambda>x. case x of Posted (Inr (e, c)) \<Rightarrow> Some c | _ \<Rightarrow> None) (ps_points overtaken) = [Some False, Some True]"
    and calls: "0 < length two_attempts" "1 < length two_attempts" "(0 :: nat) \<noteq> 1"
      "po_household (two_attempts ! 0) = po_household (two_attempts ! 1)"
      "ne_idempotency_key (po_event (two_attempts ! 0)) = ''till-1''" "ne_idempotency_key (po_event (two_attempts ! 1)) = ''till-1''"
      "length ''till-1'' \<le> 200"
    by code_simp+
  from len snds obtain e f where "ps_points overtaken = [Posted (Inr (e, False)), Posted (Inr (f, True))]"
    by (auto simp: numeral_2_eq_2 length_Suc_conv split: post_point.splits sum.splits prod.splits)
  moreover from this have "ps_points overtaken ! 0 = Posted (Inr (e, False))" "ps_points overtaken ! 1 = Posted (Inr (f, True))"
    by simp_all
  from racing_retries_agree[OF example_db_ok overtaken_reached calls this] have "e = f"
    "length (filter (\<lambda>r. er_idempotency_key r = ''till-1'') (db_events (ps_db overtaken))) = 1"
    by simp_all
  ultimately show ?thesis
    by simp
qed

theorem interleavings_end_witness:
  "length overtaking \<le> 10 \<and> list_all (\<lambda>x. \<not> in_progress x) (ps_points overtaken)"
proof -
  have "length two_attempts = 2" "list_all (\<lambda>x. \<not> in_progress x) (ps_points overtaken)"
    by code_simp+
  with interleavings_end[OF overtaken_reached] show ?thesis
    by simp
qed

end
