(* ===== verification/Concurrent_Confirms.thy ===== *)
theory Concurrent_Confirms
  imports Repo_Uploads
begin

section \<open>Confirmations whose transactions interleave\<close>

text \<open>
  \<^verbatim>\<open>ReceiptUploadRepository.confirm\<close> and the commit of \<^verbatim>\<open>confirm_upload\<close>, statement by statement, for any number of requests at once on READ COMMITTED:
  the SELECT of the row, the UPDATE the flush emits when the row read had no timestamp, which waits while another open
  transaction has updated the row, and the commit.  The UPDATE's condition is the row's id alone.

  The lemmas show what any interleaving can do to the uploads, and that a race between two confirmations is won by the last
  one.
\<close>

record confirm_call =
  cf_household :: uuid
  cf_upload :: uuid
  cf_at :: datetime

datatype confirm_point =
    ConfirmBegun
  | ConfirmRead upload_row
  | ConfirmUpdated upload_row
  | Confirmed "repo_error + receipt_upload option"

fun holds_upload :: "uuid \<Rightarrow> confirm_point \<Rightarrow> bool" where
  "holds_upload i (ConfirmUpdated r) = (ur_id r = i)"
| "holds_upload i _ = False"

fun confirm_statement ::
  "confirm_call \<Rightarrow> confirm_point list \<Rightarrow> kitchen_db \<Rightarrow> confirm_point \<Rightarrow> (confirm_point \<times> kitchen_db) option" where
  "confirm_statement c points db ConfirmBegun =
     Some (case upload_row_of db (cf_household c) (cf_upload c) of
             Inl e \<Rightarrow> Confirmed (Inl e)
           | Inr None \<Rightarrow> Confirmed (Inr None)
           | Inr (Some r) \<Rightarrow>
               if ur_confirmed_at r = None then ConfirmRead r else Confirmed (Inr (Some (upload_to_domain r))), db)"
| "confirm_statement c points db (ConfirmRead r) =
     (if list_ex (holds_upload (ur_id r)) points then None
      else Some (case update_confirmed_at (ur_id r) (cf_at c) db of
                   Inl e \<Rightarrow> Confirmed (Inl (DbError e))
                 | Inr _ \<Rightarrow> ConfirmUpdated r, db))"
| "confirm_statement c points db (ConfirmUpdated r) =
     Some (Confirmed (Inr (Some (upload_to_domain (r\<lparr>ur_confirmed_at := Some (cf_at c)\<rparr>)))),
           db\<lparr>db_uploads := map (set_confirmed (ur_id r) (cf_at c)) (db_uploads db)\<rparr>)"
| "confirm_statement c points db (Confirmed _) = None"

definition confirm_step ::
  "confirm_call list \<Rightarrow> nat \<Rightarrow> kitchen_db \<times> confirm_point list \<Rightarrow> (kitchen_db \<times> confirm_point list) option" where
  "confirm_step calls i s =
     (case s of (db, points) \<Rightarrow>
        if i < length points then
          map_option (\<lambda>(x, db'). (db', points[i := x])) (confirm_statement (calls ! i) points db (points ! i))
        else None)"

inductive confirming ::
  "confirm_call list \<Rightarrow> kitchen_db \<times> confirm_point list \<Rightarrow> kitchen_db \<times> confirm_point list \<Rightarrow> bool" for calls s0 where
  begun: "confirming calls s0 s0"
| continued: "confirming calls s0 s \<Longrightarrow> confirm_step calls i s = Some s' \<Longrightarrow> confirming calls s0 s'"

definition begin_confirms :: "kitchen_db \<Rightarrow> confirm_call list \<Rightarrow> kitchen_db \<times> confirm_point list" where
  "begin_confirms db calls = (db, replicate (length calls) ConfirmBegun)"

subsection \<open>What confirmations leave alone\<close>

text \<open>An upload as it was, or confirmed by one of the calls for it.\<close>

definition confirmed_by :: "confirm_call list \<Rightarrow> upload_row \<Rightarrow> upload_row \<Rightarrow> bool" where
  "confirmed_by calls r0 r \<longleftrightarrow> r = r0 \<or> ur_confirmed_at r0 = None \<and>
     (\<exists>c \<in> set calls. cf_upload c = ur_id r0 \<and> cf_household c = ur_household_id r0 \<and> r = r0\<lparr>ur_confirmed_at := Some (cf_at c)\<rparr>)"

fun confirm_point_ok :: "confirm_call \<Rightarrow> kitchen_db \<Rightarrow> confirm_point \<Rightarrow> bool" where
  "confirm_point_ok c db0 (ConfirmRead r) \<longleftrightarrow>
     r \<in> set (db_uploads db0) \<and> ur_confirmed_at r = None \<and> ur_id r = cf_upload c \<and> ur_household_id r = cf_household c"
| "confirm_point_ok c db0 (ConfirmUpdated r) \<longleftrightarrow>
     r \<in> set (db_uploads db0) \<and> ur_confirmed_at r = None \<and> ur_id r = cf_upload c \<and> ur_household_id r = cf_household c"
| "confirm_point_ok c db0 (Confirmed (Inr (Some u))) \<longleftrightarrow> ru_household_id u = cf_household c \<and> ru_id u = cf_upload c \<and> is_confirmed u"
| "confirm_point_ok c db0 _ \<longleftrightarrow> True"

definition confirms_inv :: "confirm_call list \<Rightarrow> kitchen_db \<Rightarrow> kitchen_db \<times> confirm_point list \<Rightarrow> bool" where
  "confirms_inv calls db0 s \<longleftrightarrow>
     list_all2 (confirmed_by calls) (db_uploads db0) (db_uploads (fst s)) \<and>
     db_households (fst s) = db_households db0 \<and> db_products (fst s) = db_products db0 \<and> db_events (fst s) = db_events db0 \<and>
     db_snapshots (fst s) = db_snapshots db0 \<and> length (snd s) = length calls \<and>
     (\<forall>i < length calls. confirm_point_ok (calls ! i) db0 (snd s ! i))"

lemma one_or_none_Some: "one_or_none xs = Inr (Some x) \<longleftrightarrow> xs = [x]"
  by (cases xs rule: one_or_none.cases) auto

lemma confirmed_by_unconfirmed: "confirmed_by calls r0 r \<Longrightarrow> ur_confirmed_at r = None \<Longrightarrow> r = r0"
  by (auto simp: confirmed_by_def)

lemma confirmed_by_set:
  assumes "confirmed_by calls r0 q" and "c \<in> set calls" and "ur_id r0 = i \<Longrightarrow> r0 = r"
    and "ur_confirmed_at r = None" "ur_id r = i" "cf_upload c = i" "cf_household c = ur_household_id r"
  shows "confirmed_by calls r0 (set_confirmed i (cf_at c) q)"
proof (cases "ur_id r0 = i")
  case True
  then have "r0 = r"
    by (rule assms(3))
  moreover have "set_confirmed i (cf_at c) q = r0\<lparr>ur_confirmed_at := Some (cf_at c)\<rparr>"
    using assms(1) True unfolding confirmed_by_def by (elim disjE conjE bexE) (simp_all add: set_confirmed_def)
  ultimately show ?thesis
    using assms(2,4-7) unfolding confirmed_by_def by metis
next
  case False
  then have "set_confirmed i (cf_at c) q = q"
    using assms(1) unfolding confirmed_by_def by (elim disjE conjE bexE) (simp_all add: set_confirmed_def)
  then show ?thesis
    using assms(1) by simp
qed

text \<open>The row a SELECT by household and id returns, as it was at the start unless it is confirmed.\<close>

lemma read_upload:
  assumes "list_all2 (confirmed_by calls) (db_uploads db0) (db_uploads db)" and "upload_row_of db h i = Inr (Some r)"
  shows "ur_id r = i" "ur_household_id r = h" "ur_confirmed_at r = None \<Longrightarrow> r \<in> set (db_uploads db0)"
proof -
  have r: "r \<in> set (db_uploads db)" "ur_id r = i" "ur_household_id r = h"
    using assms(2) by (auto simp: upload_row_of_def scoped_uploads_def one_or_none_Some filter_eq_Cons_iff)
  then show "ur_id r = i" "ur_household_id r = h"
    by simp_all
  obtain r0 where "r0 \<in> set (db_uploads db0)" "confirmed_by calls r0 r"
    using assms(1) r(1) by (metis in_set_conv_nth list_all2_conv_all_nth)
  then show "r \<in> set (db_uploads db0)" if "ur_confirmed_at r = None"
    using confirmed_by_unconfirmed that by metis
qed

lemma confirms_inv_step:
  assumes ok: "db_ok db0" and inv: "confirms_inv calls db0 s" and step: "confirm_step calls i s = Some s'"
  shows "confirms_inv calls db0 s'"
proof -
  obtain db points where s: "s = (db, points)"
    by (cases s)
  obtain x db' where i: "i < length calls" and st: "confirm_statement (calls ! i) points db (points ! i) = Some (x, db')"
    and s': "s' = (db', points[i := x])"
    using step inv by (auto simp: s confirm_step_def confirms_inv_def split: if_splits)
  have uploads: "list_all2 (confirmed_by calls) (db_uploads db0) (db_uploads db)"
    and here: "confirm_point_ok (calls ! i) db0 (points ! i)"
    using inv i by (auto simp: s confirms_inv_def)
  have "list_all2 (confirmed_by calls) (db_uploads db0) (db_uploads db') \<and> confirm_point_ok (calls ! i) db0 x \<and>
      (db' = db \<or> (\<exists>us. db' = db\<lparr>db_uploads := us\<rparr>))"
  proof (cases "points ! i")
    case ConfirmBegun
    then show ?thesis
      using st uploads read_upload[OF uploads, of "cf_household (calls ! i)" "cf_upload (calls ! i)"]
      by (auto simp: upload_to_domain_def is_confirmed_def split: sum.splits option.splits if_splits)
  next
    case (ConfirmRead r)
    then show ?thesis
      using st uploads here by (auto split: if_splits sum.splits)
  next
    case (ConfirmUpdated r)
    have ids: "distinct (map ur_id (db_uploads db0))"
      using ok by (auto simp: db_ok_def uploads_ok_def)
    have r: "r \<in> set (db_uploads db0)" "ur_confirmed_at r = None" "ur_id r = cf_upload (calls ! i)"
      "ur_household_id r = cf_household (calls ! i)"
      using here ConfirmUpdated by auto
    have "confirmed_by calls r0 (set_confirmed (ur_id r) (cf_at (calls ! i)) q)"
      if "r0 \<in> set (db_uploads db0)" "confirmed_by calls r0 q" for r0 q
      using that r i ids by (intro confirmed_by_set[where r = r]) (auto simp: distinct_map inj_on_def)
    then have "list_all2 (confirmed_by calls) (db_uploads db0) (map (set_confirmed (ur_id r) (cf_at (calls ! i))) (db_uploads db))"
      using uploads by (auto simp: list_all2_conv_all_nth)
    then show ?thesis
      using st ConfirmUpdated r by (auto simp: upload_to_domain_def is_confirmed_def)
  qed (use st in auto)
  then show ?thesis
    using inv i by (auto simp: s s' confirms_inv_def nth_list_update)
qed

subsection \<open>Properties\<close>

text \<open>
  C11: what racing confirmations can do.  After any interleaving of confirmations every upload is as it was, or it had no confirmation
  and has the instant of a call that its own household made for it; nothing else in the database changes; and a caller who is
  given an upload is given a confirmed one, with the id asked for, of its own household.
\<close>

theorem confirmations_stay_in_bounds:
  assumes "db_ok db0" and "confirming calls (begin_confirms db0 calls) (db, points)"
  shows "list_all2 (confirmed_by calls) (db_uploads db0) (db_uploads db) \<and> db_events db = db_events db0 \<and>
    db_households db = db_households db0 \<and> db_products db = db_products db0 \<and> db_snapshots db = db_snapshots db0 \<and>
    (\<forall>i u. i < length calls \<and> points ! i = Confirmed (Inr (Some u)) \<longrightarrow>
       ru_household_id u = cf_household (calls ! i) \<and> ru_id u = cf_upload (calls ! i) \<and> is_confirmed u)"
proof -
  have "confirms_inv calls db0 s" if "confirming calls (begin_confirms db0 calls) s" for s
    using that
  proof induction
    case begun
    show ?case
      by (auto simp: confirms_inv_def begin_confirms_def confirmed_by_def list_all2_conv_all_nth)
  qed (rule confirms_inv_step[OF assms(1)])
  from this[OF assms(2)] show ?thesis
    by (fastforce simp: confirms_inv_def)
qed

lemma update_allowed:
  assumes "db_ok db" and "r \<in> set (db_uploads db)" and "ur_requested_at r \<le> at"
  shows "update_confirmed_at (ur_id r) at db = Inr (db\<lparr>db_uploads := map (set_confirmed (ur_id r) at) (db_uploads db)\<rparr>)"
proof -
  have ids: "distinct (map ur_id (db_uploads db))" and checks: "upload_checks r"
    using assms(1,2) by (auto simp: db_ok_def uploads_ok_def list_all_iff)
  have "upload_checks (set_confirmed (ur_id r) at q)" if "q \<in> set (db_uploads db)" "ur_id (set_confirmed (ur_id r) at q) = ur_id r" for q
  proof -
    have "q = r"
      using that assms(2) ids by (auto simp: distinct_map inj_on_def set_confirmed_def split: if_splits)
    then show ?thesis
      using checks assms(3) by (simp add: upload_checks_def set_confirmed_def)
  qed
  then show ?thesis
    by (auto simp: update_confirmed_at_Inr list_all_iff)
qed

definition confirms_of :: "upload_row \<Rightarrow> datetime list \<Rightarrow> confirm_call list" where
  "confirms_of r instants = map (\<lambda>t. \<lparr>cf_household = ur_household_id r, cf_upload = ur_id r, cf_at = t\<rparr>) instants"

text \<open>
  C23: in a race the last confirmation wins.  For every upload that has not been confirmed and any two instants after it was
  requested, two confirmations can interleave so that each caller is told its own instant, and the one stored is the
  second: the timestamp the first caller was given is overwritten.
\<close>

theorem racing_confirmation_is_overwritten:
  assumes "db_ok db" and "r \<in> set (db_uploads db)" "ur_confirmed_at r = None"
    and "ur_requested_at r \<le> first" "ur_requested_at r \<le> second"
  shows "\<exists>db'. confirming (confirms_of r [first, second]) (begin_confirms db (confirms_of r [first, second]))
      (db', [Confirmed (Inr (Some (upload_to_domain (r\<lparr>ur_confirmed_at := Some first\<rparr>)))),
             Confirmed (Inr (Some (upload_to_domain (r\<lparr>ur_confirmed_at := Some second\<rparr>))))]) \<and>
    get_upload db' (ur_household_id r) (ur_id r) = Inr (Some (upload_to_domain (r\<lparr>ur_confirmed_at := Some second\<rparr>)))"
proof -
  let ?calls = "confirms_of r [first, second]"
  let ?set = "\<lambda>t db. db\<lparr>db_uploads := map (set_confirmed (ur_id r) t) (db_uploads db)\<rparr>"
  let ?told = "\<lambda>t. Confirmed (Inr (Some (upload_to_domain (r\<lparr>ur_confirmed_at := Some t\<rparr>))))"
  have ids: "distinct (map ur_id (scoped_uploads db (ur_household_id r)))"
    by (rule scoped_uploads_ids[OF assms(1)])
  have found: "find (\<lambda>q. ur_id q = ur_id r) (scoped_uploads db (ur_household_id r)) = Some r"
    using find_unique[OF ids] assms(2) by (simp add: scoped_uploads_def)
  then have reads: "upload_row_of db (ur_household_id r) (ur_id r) = Inr (Some r)"
    by (simp add: upload_row_find[OF assms(1)])
  note first = update_allowed[OF assms(1,2,4)]
  have ok1: "db_ok (?set first db)"
    using update_confirmed_at_ok[OF assms(1) first] .
  have "set_confirmed (ur_id r) first r \<in> set (db_uploads (?set first db))"
    using assms(2) by simp
  from update_allowed[OF ok1 this, of second] assms(5)
  have second: "update_confirmed_at (ur_id r) second (?set first db) = Inr (?set second (?set first db))"
    by (simp add: set_confirmed_def)
  have steps: "confirm_step ?calls 0 (begin_confirms db ?calls) = Some (db, [ConfirmRead r, ConfirmBegun])"
    "confirm_step ?calls 1 (db, [ConfirmRead r, ConfirmBegun]) = Some (db, [ConfirmRead r, ConfirmRead r])"
    "confirm_step ?calls 0 (db, [ConfirmRead r, ConfirmRead r]) = Some (db, [ConfirmUpdated r, ConfirmRead r])"
    "confirm_step ?calls 0 (db, [ConfirmUpdated r, ConfirmRead r]) = Some (?set first db, [?told first, ConfirmRead r])"
    "confirm_step ?calls 1 (?set first db, [?told first, ConfirmRead r]) = Some (?set first db, [?told first, ConfirmUpdated r])"
    "confirm_step ?calls 1 (?set first db, [?told first, ConfirmUpdated r]) = Some (?set second (?set first db), [?told first, ?told second])"
    using assms(3) reads first second by (simp_all add: confirm_step_def begin_confirms_def confirms_of_def)
  have "confirming ?calls (begin_confirms db ?calls) (?set second (?set first db), [?told first, ?told second])"
    by (rule confirming.begun[THEN confirming.continued[OF _ steps(1)], THEN confirming.continued[OF _ steps(2)],
        THEN confirming.continued[OF _ steps(3)], THEN confirming.continued[OF _ steps(4)],
        THEN confirming.continued[OF _ steps(5)], THEN confirming.continued[OF _ steps(6)]])
  moreover have "get_upload (?set second (?set first db)) (ur_household_id r) (ur_id r) =
      Inr (Some (upload_to_domain (r\<lparr>ur_confirmed_at := Some second\<rparr>)))"
    unfolding get_upload_def upload_row_find[OF update_confirmed_at_ok[OF ok1 second]] scoped_set_confirmed find_set_confirmed found
    by (simp add: set_confirmed_def)
  ultimately show ?thesis
    by blast
qed

subsection \<open>Examples\<close>

lemma example_unconfirmed:
  "example_upload_row \<in> set (db_uploads example_requested)" "ur_confirmed_at example_upload_row = None"
  "ur_requested_at example_upload_row \<le> 60" "ur_requested_at example_upload_row \<le> 70"
  by (simp_all add: example_requested_def example_upload_row_def)

theorem racing_confirmation_is_overwritten_witness:
  "\<exists>db'. confirming (confirms_of example_upload_row [60, 70])
      (begin_confirms example_requested (confirms_of example_upload_row [60, 70]))
      (db', [Confirmed (Inr (Some (upload_to_domain (example_upload_row\<lparr>ur_confirmed_at := Some 60\<rparr>)))),
             Confirmed (Inr (Some (upload_to_domain (example_upload_row\<lparr>ur_confirmed_at := Some 70\<rparr>))))]) \<and>
    get_upload db' (ur_household_id example_upload_row) (ur_id example_upload_row) =
      Inr (Some (upload_to_domain (example_upload_row\<lparr>ur_confirmed_at := Some 70\<rparr>)))"
  by (rule racing_confirmation_is_overwritten[OF example_requested_ok example_unconfirmed])

text \<open>A confirmation by another household, which leaves the upload as it was.\<close>

definition foreign_confirm :: "confirm_call list" where
  "foreign_confirm = [\<lparr>cf_household = 8, cf_upload = 5, cf_at = 60\<rparr>]"

theorem confirmations_stay_in_bounds_witness:
  "confirm_step foreign_confirm 0 (begin_confirms example_requested foreign_confirm) =
     Some (example_requested, [Confirmed (Inr None)]) \<and>
   list_all2 (confirmed_by foreign_confirm) (db_uploads example_requested) (db_uploads example_requested)"
proof
  show step: "confirm_step foreign_confirm 0 (begin_confirms example_requested foreign_confirm) =
      Some (example_requested, [Confirmed (Inr None)])"
    by (simp add: confirm_step_def begin_confirms_def foreign_confirm_def upload_row_find scoped_uploads_def
        example_requested_def[THEN arg_cong, of db_uploads] example_upload_row_def example_household_def)
  show "list_all2 (confirmed_by foreign_confirm) (db_uploads example_requested) (db_uploads example_requested)"
    using confirmations_stay_in_bounds[OF example_requested_ok confirming.continued[OF confirming.begun step]] by simp
qed

end
