(* ===== verification/Azure_Clients.thy ===== *)
theory Azure_Clients
  imports Db_Provider Storage_Receipts
begin

section \<open>The Azure clients of the two lookups\<close>

text \<open>
  \<^verbatim>\<open>_read_secret\<close> of \<^verbatim>\<open>src/kitchensense/db/provider.py\<close> and \<^verbatim>\<open>_fetch_key_from_azure\<close> of
  \<^verbatim>\<open>src/kitchensense/storage/receipts.py\<close>, the two functions that run in a worker thread and talk to Azure.  The SDK is an argument,
  \<open>azure_sdk\<close>: what it answers to a call may depend on every call made before, and any call may raise, constructors and
  \<^verbatim>\<open>close\<close> included.  The calls made, and whether each returned, are recorded in order.

  The lemmas show that the credential and the client are closed on every path, each once and in reverse order, and that nothing is
  asked of a client that is not open; and that \<open>fetch_key\<close> and \<open>ow_get_secret\<close>, the arguments of the store and of the
  provider, can be the functions defined here.
\<close>

datatype raised = TimeoutError | OtherError string

datatype sdk_call =
    QuietHttpLogging
  | OpenCredential string
  | OpenBlobService string
  | OpenSecretClient string
  | GetUserDelegationKey datetime datetime
  | GetSecret string
  | CloseClient
  | CloseCredential

type_synonym sdk_trace = "(sdk_call \<times> bool) list"

type_synonym 'a sdk_action = "sdk_trace \<Rightarrow> (raised + 'a) \<times> sdk_trace"

text \<open>\<^verbatim>\<open>SecretProperties.value\<close> is optional.\<close>

record 'k azure_sdk =
  sdk_effect :: "sdk_trace \<Rightarrow> sdk_call \<Rightarrow> raised + unit"
  sdk_delegation_key :: "sdk_trace \<Rightarrow> datetime \<Rightarrow> datetime \<Rightarrow> raised + 'k"
  sdk_secret :: "sdk_trace \<Rightarrow> string \<Rightarrow> raised + string option"

definition call_sdk :: "sdk_call \<Rightarrow> (sdk_trace \<Rightarrow> raised + 'a) \<Rightarrow> 'a sdk_action" where
  "call_sdk c answer tr = (answer tr, tr @ [(c, \<not> isl (answer tr))])"

definition sdk_do :: "'k azure_sdk \<Rightarrow> sdk_call \<Rightarrow> unit sdk_action" where
  "sdk_do sdk c = call_sdk c (\<lambda>tr. sdk_effect sdk tr c)"

definition and_then :: "'a sdk_action \<Rightarrow> 'b sdk_action \<Rightarrow> 'b sdk_action" where
  "and_then first second tr =
     (case first tr of (Inl e, tr') \<Rightarrow> (Inl e, tr') | (Inr _, tr') \<Rightarrow> second tr')"

text \<open>An exception of the \<^verbatim>\<open>finally\<close> block replaces the outcome of the body, a value included.\<close>

definition try_finally :: "'a sdk_action \<Rightarrow> unit sdk_action \<Rightarrow> 'a sdk_action" where
  "try_finally body cleanup tr =
     (case body tr of (r, tr') \<Rightarrow>
       (case cleanup tr' of (Inl e, tr'') \<Rightarrow> (Inl e, tr'') | (Inr _, tr'') \<Rightarrow> (r, tr'')))"

definition fetch_key_from_azure ::
  "'k azure_sdk \<Rightarrow> settings \<Rightarrow> datetime \<Rightarrow> datetime \<Rightarrow> 'k sdk_action" where
  "fetch_key_from_azure sdk settings start expiry =
     and_then (sdk_do sdk (OpenCredential (st_managed_identity_client_id settings)))
       (try_finally
         (and_then (sdk_do sdk (OpenBlobService (st_storage_blob_endpoint settings)))
           (try_finally
             (call_sdk (GetUserDelegationKey start expiry) (\<lambda>tr. sdk_delegation_key sdk tr start expiry))
             (sdk_do sdk CloseClient)))
         (sdk_do sdk CloseCredential))"

definition get_secret :: "'k azure_sdk \<Rightarrow> settings \<Rightarrow> string option sdk_action" where
  "get_secret sdk settings =
     and_then (call_sdk QuietHttpLogging (\<lambda>_. Inr ()))
       (and_then (sdk_do sdk (OpenCredential (st_managed_identity_client_id settings)))
         (try_finally
           (and_then (sdk_do sdk (OpenSecretClient (st_key_vault_uri settings)))
             (try_finally
               (call_sdk (GetSecret (st_postgres_secret_name settings))
                 (\<lambda>tr. sdk_secret sdk tr (st_postgres_secret_name settings)))
               (sdk_do sdk CloseClient)))
           (sdk_do sdk CloseCredential)))"

text \<open>\<^verbatim>\<open>not secret.value\<close> holds of \<^verbatim>\<open>None\<close> and of the empty string.\<close>

definition read_secret_from_azure :: "(string \<Rightarrow> string) \<Rightarrow> 'k azure_sdk \<Rightarrow> settings \<Rightarrow> string sdk_action" where
  "read_secret_from_azure py_repr sdk settings tr =
     (case get_secret sdk settings tr of
        (Inl e, tr') \<Rightarrow> (Inl e, tr')
      | (Inr value, tr') \<Rightarrow>
          (if value = None \<or> value = Some []
           then Inl (OtherError (''Key Vault secret '' @ py_repr (st_postgres_secret_name settings) @ '' is empty''))
           else Inr (the value), tr'))"

text \<open>
  \<^verbatim>\<open>asyncio.wait_for\<close> around the thread: past the deadline it raises \<^verbatim>\<open>TimeoutError\<close>, whatever the thread comes to.
\<close>

definition wait_for :: "bool \<Rightarrow> raised + 'a \<Rightarrow> raised + 'a" where
  "wait_for in_time outcome = (if in_time then outcome else Inl TimeoutError)"

definition azure_fetch_key ::
  "'k azure_sdk \<Rightarrow> sdk_trace \<Rightarrow> bool \<Rightarrow> settings \<Rightarrow> datetime \<Rightarrow> datetime \<Rightarrow> 'k fetched" where
  "azure_fetch_key sdk tr in_time settings start expiry =
     (case wait_for in_time (fst (fetch_key_from_azure sdk settings start expiry tr)) of
        Inl TimeoutError \<Rightarrow> TimedOut
      | Inl (OtherError _) \<Rightarrow> Refused
      | Inr key \<Rightarrow> Fetched key)"

definition azure_vault_answer ::
  "(string \<Rightarrow> string) \<Rightarrow> 'k azure_sdk \<Rightarrow> sdk_trace \<Rightarrow> bool \<Rightarrow> settings \<Rightarrow> vault_answer" where
  "azure_vault_answer py_repr sdk tr in_time settings =
     (case wait_for in_time (fst (read_secret_from_azure py_repr sdk settings tr)) of
        Inl TimeoutError \<Rightarrow> VaultTimedOut
      | Inl (OtherError exc) \<Rightarrow> VaultFailed exc
      | Inr secret \<Rightarrow> Secret secret)"

subsection \<open>What is open\<close>

text \<open>
  \<open>opened\<close> follows a trace with the stack of what is open: \<open>None\<close> when something is closed that is not on top, when a client is built
  on no credential, or when a request is made of anything but an open client.
\<close>

datatype resource = Credential | Client

fun opened_step :: "resource list \<Rightarrow> sdk_call \<times> bool \<Rightarrow> resource list option" where
  "opened_step rs (QuietHttpLogging, _) = Some rs"
| "opened_step rs (OpenCredential _, ok) = Some (if ok then Credential # rs else rs)"
| "opened_step (Credential # rs) (OpenBlobService _, ok) = Some (if ok then Client # Credential # rs else Credential # rs)"
| "opened_step (Credential # rs) (OpenSecretClient _, ok) = Some (if ok then Client # Credential # rs else Credential # rs)"
| "opened_step (Client # rs) (GetUserDelegationKey _ _, _) = Some (Client # rs)"
| "opened_step (Client # rs) (GetSecret _, _) = Some (Client # rs)"
| "opened_step (Client # rs) (CloseClient, _) = Some rs"
| "opened_step (Credential # rs) (CloseCredential, _) = Some rs"
| "opened_step _ _ = None"

fun opened :: "resource list \<Rightarrow> sdk_trace \<Rightarrow> resource list option" where
  "opened rs [] = Some rs"
| "opened rs (c # tr) = Option.bind (opened_step rs c) (\<lambda>rs. opened rs tr)"

lemma opened_append: "opened rs (tr @ tr') = Option.bind (opened rs tr) (\<lambda>rs. opened rs tr')"
  by (induction tr arbitrary: rs) (auto simp: Option.bind_assoc)

text \<open>From a stack \<open>rs\<close>, an action extends the trace and leaves \<open>after\<close> open, the stack for each outcome.\<close>

definition leaves :: "'a sdk_action \<Rightarrow> resource list \<Rightarrow> (raised + 'a \<Rightarrow> resource list) \<Rightarrow> bool" where
  "leaves act rs after \<longleftrightarrow>
     (\<forall>tr. \<exists>new. snd (act tr) = tr @ new \<and> opened rs new = Some (after (fst (act tr))))"

lemma leaves_call:
  assumes "\<And>r. opened_step rs (c, \<not> isl r) = Some (after r)"
  shows "leaves (call_sdk c answer) rs after"
  using assms by (simp add: leaves_def call_sdk_def)

lemma leaves_do: "(\<And>r. opened_step rs (c, \<not> isl r) = Some (after r)) \<Longrightarrow> leaves (sdk_do sdk c) rs after"
  unfolding sdk_do_def by (rule leaves_call)

lemma leaves_and_then:
  assumes first: "leaves first rs (\<lambda>r. if isl r then rs' else mid)" and second: "leaves second mid (\<lambda>_. rs')"
  shows "leaves (and_then first second) rs (\<lambda>_. rs')"
  unfolding leaves_def
proof
  fix tr
  obtain r tr1 where f: "first tr = (r, tr1)"
    by force
  then obtain new where new: "tr1 = tr @ new" "opened rs new = Some (if isl r then rs' else mid)"
    using first by (auto simp: leaves_def dest!: spec[of _ tr])
  obtain new' where new': "snd (second tr1) = tr1 @ new'" "opened mid new' = Some rs'"
    using second by (auto simp: leaves_def dest!: spec[of _ tr1])
  show "\<exists>new. snd (and_then first second tr) = tr @ new \<and> opened rs new = Some rs'"
    using f new new' by (cases r) (auto simp: and_then_def opened_append)
qed

lemma leaves_try_finally:
  assumes body: "leaves body rs (\<lambda>_. rs)" and cleanup: "leaves cleanup rs (\<lambda>_. rs')"
  shows "leaves (try_finally body cleanup) rs (\<lambda>_. rs')"
  unfolding leaves_def
proof
  fix tr
  obtain r tr1 where b: "body tr = (r, tr1)"
    by force
  then obtain new where new: "tr1 = tr @ new" "opened rs new = Some rs"
    using body by (auto simp: leaves_def dest!: spec[of _ tr])
  obtain new' where new': "snd (cleanup tr1) = tr1 @ new'" "opened rs new' = Some rs'"
    using cleanup by (auto simp: leaves_def dest!: spec[of _ tr1])
  show "\<exists>new. snd (try_finally body cleanup tr) = tr @ new \<and> opened rs new = Some rs'"
    using b new new' by (auto simp: try_finally_def opened_append split: prod.splits sum.splits)
qed

text \<open>A lookup: a credential, a client built on it, one request of the client.\<close>

lemma leaves_lookup:
  assumes "\<And>ok. opened_step (Credential # rs) (open_client, ok) = Some (if ok then Client # Credential # rs else Credential # rs)"
    and "\<And>ok. opened_step (Client # Credential # rs) (request, ok) = Some (Client # Credential # rs)"
  shows "leaves (and_then (sdk_do sdk (OpenCredential client_id))
     (try_finally
       (and_then (sdk_do sdk open_client) (try_finally (call_sdk request answer) (sdk_do sdk CloseClient)))
       (sdk_do sdk CloseCredential))) rs (\<lambda>_. rs)"
proof (rule leaves_and_then[where mid = "Credential # rs"])
  show "leaves (sdk_do sdk (OpenCredential client_id)) rs (\<lambda>r. if isl r then rs else Credential # rs)"
    by (rule leaves_do) simp
  show "leaves (try_finally (and_then (sdk_do sdk open_client) (try_finally (call_sdk request answer) (sdk_do sdk CloseClient)))
      (sdk_do sdk CloseCredential)) (Credential # rs) (\<lambda>_. rs)"
  proof (rule leaves_try_finally)
    show "leaves (and_then (sdk_do sdk open_client) (try_finally (call_sdk request answer) (sdk_do sdk CloseClient)))
        (Credential # rs) (\<lambda>_. Credential # rs)"
      by (rule leaves_and_then[where mid = "Client # Credential # rs"], rule leaves_do, simp add: assms(1),
          rule leaves_try_finally, rule leaves_call, simp add: assms(2), rule leaves_do, simp)
  qed (rule leaves_do, simp)
qed

lemma fetch_key_leaves: "leaves (fetch_key_from_azure sdk settings start expiry) rs (\<lambda>_. rs)"
  unfolding fetch_key_from_azure_def by (rule leaves_lookup) simp_all

lemma get_secret_leaves: "leaves (get_secret sdk settings) rs (\<lambda>_. rs)"
  unfolding get_secret_def
  by (rule leaves_and_then[where mid = rs], rule leaves_call, simp, rule leaves_lookup) simp_all

lemma read_secret_leaves: "leaves (read_secret_from_azure py_repr sdk settings) rs (\<lambda>_. rs)"
proof -
  have "snd (read_secret_from_azure py_repr sdk settings tr) = snd (get_secret sdk settings tr)" for tr
    by (simp add: read_secret_from_azure_def split: prod.split sum.split)
  then show ?thesis
    using get_secret_leaves[of sdk settings rs] by (simp add: leaves_def)
qed

subsection \<open>What the lookups return\<close>

lemma and_then_Inr: "fst (and_then first second tr) = Inr x \<Longrightarrow> fst (second (snd (first tr))) = Inr x"
  by (auto simp: and_then_def split: prod.splits sum.splits)

lemma try_finally_Inr: "fst (try_finally body cleanup tr) = Inr x \<Longrightarrow> fst (body tr) = Inr x"
  by (auto simp: try_finally_def split: prod.splits sum.splits)

lemma call_sdk_Inr: "fst (call_sdk c answer tr) = Inr x \<Longrightarrow> answer tr = Inr x"
  by (simp add: call_sdk_def)

lemmas lookup_Inr = and_then_Inr try_finally_Inr call_sdk_Inr

lemma fetch_key_Inr:
  "fst (fetch_key_from_azure sdk settings start expiry tr) = Inr key \<Longrightarrow> \<exists>tr. sdk_delegation_key sdk tr start expiry = Inr key"
  unfolding fetch_key_from_azure_def by (blast dest: lookup_Inr)

text \<open>What is relied on of the SDK: a delegation key is valid for the window asked for.\<close>

definition sdk_keys_as_asked :: "'k azure_sdk \<Rightarrow> ('k \<Rightarrow> datetime) \<Rightarrow> ('k \<Rightarrow> datetime) \<Rightarrow> bool" where
  "sdk_keys_as_asked sdk key_start key_expiry \<longleftrightarrow>
     (\<forall>tr start expiry key. sdk_delegation_key sdk tr start expiry = Inr key \<longrightarrow> key_start key = start \<and> key_expiry key = expiry)"

lemma azure_keys_as_asked:
  "sdk_keys_as_asked sdk key_start key_expiry \<Longrightarrow> keys_as_asked (azure_fetch_key sdk tr in_time settings) key_start key_expiry"
  by (auto simp: keys_as_asked_def azure_fetch_key_def wait_for_def sdk_keys_as_asked_def dest!: fetch_key_Inr
      split: sum.splits raised.splits if_splits)

text \<open>The provider's own check for an empty secret finds nothing left to refuse.\<close>

lemma read_secret_azure:
  "read_secret (w\<lparr>ow_get_secret := azure_vault_answer (ow_repr w) sdk tr in_time\<rparr>) settings =
     azure_vault_answer (ow_repr w) sdk tr in_time settings"
  by (auto simp: read_secret_def azure_vault_answer_def read_secret_from_azure_def wait_for_def
      split: sum.splits prod.splits raised.splits vault_answer.splits)

subsection \<open>Properties\<close>

text \<open>
  C34: no lookup leaks an Azure client.  Whatever the SDK answers, and whichever of its calls raise -- a constructor, the request, even
  a \<^verbatim>\<open>close\<close> -- the calls a lookup makes open at most a credential and a client on it, ask only an open client, and close what was
  opened in reverse order: nothing is left open, whether the key or the secret is returned or an exception is.
\<close>

theorem azure_clients_are_closed:
  "(\<exists>calls. snd (fetch_key_from_azure sdk settings start expiry tr) = tr @ calls \<and> opened [] calls = Some []) \<and>
   (\<exists>calls. snd (read_secret_from_azure py_repr sdk settings tr) = tr @ calls \<and> opened [] calls = Some [])"
  using fetch_key_leaves[of sdk settings start expiry "[]"] read_secret_leaves[of py_repr sdk settings "[]"]
  by (simp add: leaves_def)

end
