(* ===== verification/Process_Figures.thy ===== *)
theory Process_Figures
  imports Kitchen_Prelude
begin

section \<open>The process figures\<close>

text \<open>
  The model of \<^verbatim>\<open>docs/process_flow.py\<close>, the script that draws how a household shops, cooks and wastes food, with and without the
  application.  Graphviz and its Python library are outside: a figure is the sequence of calls made on the library's \<^verbatim>\<open>Digraph\<close>, in order,
  with every argument, and the files rendered; what the script asks of the file system (\<^verbatim>\<open>shutil.which\<close>, whether a
  file exists, the home directory) is an argument.  A step that names a layer which is not in the palette is a
  \<^verbatim>\<open>KeyError\<close>.  Strings are their UTF-8 encoding, and \<open>lines\<close> joins the lines of a label with the backslash and n that DOT reads as a
  line break.

  The lemmas show that the figures are well formed, which the library would not notice, where each of them begins and
  ends, and that one number printed in a figure is not the figure's own.
\<close>

subsection \<open>Text\<close>

definition middle_dot :: string where "middle_dot = [CHR 0xC2, CHR 0xB7]"
definition en_dash :: string where "en_dash = [CHR 0xE2, CHR 0x80, CHR 0x93]"
definition em_dash :: string where "em_dash = [CHR 0xE2, CHR 0x80, CHR 0x94]"
definition left_quote :: string where "left_quote = [CHR 0xE2, CHR 0x80, CHR 0x9C]"
definition right_quote :: string where "right_quote = [CHR 0xE2, CHR 0x80, CHR 0x9D]"
definition arrow :: string where "arrow = [CHR 0xE2, CHR 0x86, CHR 0x92]"
definition approx :: string where "approx = [CHR 0xE2, CHR 0x89, CHR 0x88]"

fun lines :: "string list \<Rightarrow> string" where
  "lines [] = []"
| "lines [l] = l"
| "lines (l # ls) = l @ [CHR 0x5C, CHR ''n''] @ lines ls"

subsection \<open>Finding Graphviz\<close>

datatype script_error = KeyError string | SystemExit

text \<open>
  \<open>under_home\<close> is the installation directory below \<^verbatim>\<open>Path.home()\<close>; the result is the new value of \<^verbatim>\<open>PATH\<close>.
\<close>

definition graphviz_directories :: "string \<Rightarrow> string list" where
  "graphviz_directories under_home =
     [''C:'' @ [CHR 0x5C] @ ''Program Files'' @ [CHR 0x5C] @ ''Graphviz'' @ [CHR 0x5C] @ ''bin'',
      ''C:'' @ [CHR 0x5C] @ ''Program Files (x86)'' @ [CHR 0x5C] @ ''Graphviz'' @ [CHR 0x5C] @ ''bin'',
      under_home, ''/opt/homebrew/bin'', ''/usr/local/bin'']"

definition ensure_graphviz ::
  "bool \<Rightarrow> (string \<Rightarrow> string \<Rightarrow> bool) \<Rightarrow> string \<Rightarrow> string \<Rightarrow> string option \<Rightarrow> script_error + string option" where
  "ensure_graphviz which_dot exists under_home pathsep path =
     (if which_dot then Inr path
      else case find (\<lambda>c. exists c ''dot'' \<or> exists c ''dot.exe'') (graphviz_directories under_home) of
             None \<Rightarrow> Inl SystemExit
           | Some c \<Rightarrow>
               (case path of
                  None \<Rightarrow> Inl (KeyError ''PATH'')
                | Some p \<Rightarrow> Inr (Some (c @ pathsep @ p))))"

subsection \<open>Drawing\<close>

type_synonym attributes = "(string \<times> string) list"

record colours =
  fill :: string
  line :: string
  band :: string

definition PALETTE :: "(string \<times> colours) list" where
  "PALETTE =
     [(''outside'', \<lparr>fill = ''#E9ECEF'', line = ''#5C636A'', band = ''#F5F6F7''\<rparr>),
      (''app'', \<lparr>fill = ''#D6E9F8'', line = ''#0F6CBD'', band = ''#EFF6FC''\<rparr>),
      (''system'', \<lparr>fill = ''#D9F0DE'', line = ''#2E7D3A'', band = ''#EFF9F1''\<rparr>),
      (''decide'', \<lparr>fill = ''#FCE6CC'', line = ''#C4700A'', band = ''#FEF5E9''\<rparr>),
      (''waste'', \<lparr>fill = ''#F8D9DA'', line = ''#A82A2F'', band = ''#FDEFEF''\<rparr>)]"

definition FONT :: string where
  "FONT = ''Helvetica''"

definition palette :: "string \<Rightarrow> script_error + colours" where
  "palette layer = (case map_of PALETTE layer of None \<Rightarrow> Inl (KeyError layer) | Some c \<Rightarrow> Inr c)"

datatype dot_call = DotAttr attributes | DotNode string string attributes | DotEdge string string attributes

definition pop :: "attributes \<Rightarrow> string \<Rightarrow> string \<Rightarrow> string" where
  "pop kw key otherwise = (case map_of kw key of None \<Rightarrow> otherwise | Some v \<Rightarrow> v)"

definition node :: "string \<Rightarrow> string \<Rightarrow> string \<Rightarrow> string \<Rightarrow> attributes \<Rightarrow> script_error + dot_call" where
  "node name label layer shape kw =
     bind_sum (palette layer) (\<lambda>p. Inr (DotNode name label
       ([(''shape'', shape),
         (''style'', pop kw ''style'' (if shape = ''box'' then ''filled,rounded'' else ''filled'')),
         (''fillcolor'', fill p), (''color'', line p), (''penwidth'', ''1.8''),
         (''fontname'', FONT), (''fontsize'', pop kw ''fontsize'' ''10''),
         (''fontcolor'', ''#1A1A1A''), (''margin'', pop kw ''margin'' ''0.20,0.11'')] @
        filter (\<lambda>(k, _). k \<notin> {''style'', ''fontsize'', ''margin''}) kw)))"

definition edge :: "string \<Rightarrow> string \<Rightarrow> string \<Rightarrow> string \<Rightarrow> string \<Rightarrow> attributes \<Rightarrow> script_error + dot_call" where
  "edge a b label layer style kw =
     bind_sum (palette layer) (\<lambda>p. Inr (DotEdge a b
       ([(''label'', label), (''color'', line p), (''penwidth'', ''1.5''), (''fontname'', FONT),
         (''fontsize'', ''9''), (''fontcolor'', line p), (''style'', style)] @ kw)))"

fun legend_rows :: "(string \<times> string) list \<Rightarrow> script_error + string" where
  "legend_rows [] = Inr []"
| "legend_rows ((k, v) # entries) =
     bind_sum (palette k) (\<lambda>p. map_sum id (append
       (''<TR><TD BGCOLOR='' @ [CHR 0x22] @ fill p @ [CHR 0x22] @ '' WIDTH='' @ [CHR 0x22] @ ''18'' @ [CHR 0x22] @ ''></TD>'' @
        ''<TD ALIGN='' @ [CHR 0x22] @ ''LEFT'' @ [CHR 0x22] @ ''><FONT POINT-SIZE='' @ [CHR 0x22] @ ''10'' @ [CHR 0x22] @ ''>'' @ v @
        ''</FONT></TD></TR>'')) (legend_rows entries))"

definition legend :: "(string \<times> string) list \<Rightarrow> string \<Rightarrow> script_error + dot_call" where
  "legend entries title =
     bind_sum (legend_rows entries) (\<lambda>rows. Inr (DotNode ''legend''
       (''<<TABLE BORDER='' @ [CHR 0x22] @ ''0'' @ [CHR 0x22] @ '' CELLBORDER='' @ [CHR 0x22] @ ''1'' @ [CHR 0x22] @
        '' CELLSPACING='' @ [CHR 0x22] @ ''0'' @ [CHR 0x22] @ '' CELLPADDING='' @ [CHR 0x22] @ ''4'' @ [CHR 0x22] @ ''>'' @
        ''<TR><TD COLSPAN='' @ [CHR 0x22] @ ''2'' @ [CHR 0x22] @ '' ALIGN='' @ [CHR 0x22] @ ''LEFT'' @ [CHR 0x22] @ ''><B>'' @ title @
        ''</B></TD></TR>'' @ rows @ ''</TABLE>>'')
       [(''shape'', ''plaintext''), (''fontname'', FONT)]))"

text \<open>The directory \<^verbatim>\<open>OUT\<close> and the three formats: each file as its format and its path.\<close>

definition render :: "string \<Rightarrow> (string \<times> string) list" where
  "render name = map (\<lambda>fmt. (fmt, ''diagrams/'' @ name)) [''png'', ''pdf'', ''svg'']"

text \<open>A figure as its function writes it down: the calls of the helpers above, in order.\<close>

datatype step =
    Node string string string string attributes
  | Edge string string string string string attributes
  | Legend "(string \<times> string) list" string

record figure =
  fg_name :: string
  fg_attrs :: attributes
  fg_steps :: "step list"
  fg_file :: string

fun run_step :: "step \<Rightarrow> script_error + dot_call" where
  "run_step (Node name label layer shape kw) = node name label layer shape kw"
| "run_step (Edge a b label layer style kw) = edge a b label layer style kw"
| "run_step (Legend entries title) = legend entries title"

fun run_steps :: "step list \<Rightarrow> script_error + dot_call list" where
  "run_steps [] = Inr []"
| "run_steps (s # steps) = bind_sum (run_step s) (\<lambda>c. map_sum id (Cons c) (run_steps steps))"

definition draw :: "figure \<Rightarrow> script_error + dot_call list \<times> (string \<times> string) list" where
  "draw fig = map_sum id (\<lambda>calls. (DotAttr (fg_attrs fig) # calls, render (fg_file fig))) (run_steps (fg_steps fig))"

subsection \<open>The five figures\<close>

definition figure_a_current_state :: figure where
  "figure_a_current_state =
     \<lparr>fg_name = ''current'',
      fg_attrs = [(''rankdir'', ''TB''), (''splines'', ''polyline''), (''nodesep'', ''0.45''), (''ranksep'', ''0.42''),
                     (''bgcolor'', ''white''), (''fontname'', FONT), (''label'', (lines [[],
                     ''Figure A '' @ em_dash @ '' The weekly process today, with no app'',
                     ''where household food waste actually happens''])), (''labelloc'', ''t''), (''fontsize'',
                     ''17'')],
      fg_steps =
      [Node ''trigger'' (lines [''TRIGGER'', ''Fridge looks empty,'',
             ''or it is the usual shopping day'']) ''outside'' ''oval'' [],
       Node ''plan'' (lines [''Thinks about meals'', ''often vaguely, or not at all'']) ''outside'' ''box'' [],
       Node ''list'' (lines [''Writes a list,'', ''or relies on memory'']) ''outside'' ''box'' [],
       Node ''shop'' (lines [''Shops'', ''some planned, some on offer,'', ''some on impulse'']) ''outside'' ''box'' [],
       Node ''topup'' (lines [''Top-up shops midweek'', ''often cash, often no receipt'']) ''outside'' ''box'' [],
       Node ''unpack'' ''Unpacks at home'' ''outside'' ''box'' [],
       Node ''store'' (lines [''Decides where each item goes'', ''fridge, freezer or cupboard'',
             arrow @ '' changes shelf life by WEEKS'']) ''outside'' ''box'' [],
       Node ''f1'' (lines [''FAILURE POINT 1'', ''No record of what was bought.'',
             ''Memory is the only inventory'']) ''waste'' ''box'' [],
       Node ''other'' (lines [''A different person cooks'', ''did not shop, does not know'',
             ''what was bought'']) ''outside'' ''box'' [],
       Node ''cook'' (lines [''Cooks during the week'', ''decides in the moment, usually tired'']) ''outside'' ''box'' [],
       Node ''grab'' (lines [''Reaches for whatever is'', ''visible and convenient'']) ''outside'' ''box'' [],
       Node ''f2'' (lines [''FAILURE POINT 2'', ''Items at the back are forgotten.'',
             ''Partly used packs fastest of all'']) ''waste'' ''box'' [],
       Node ''away'' (lines [''Eats out, or is away'', ''food at home goes untouched'']) ''outside'' ''box'' [],
       Node ''find'' ''Eventually finds the item'' ''outside'' ''box'' [],
       Node ''check'' ''Still good?'' ''decide'' ''diamond'' [(''style'', ''filled'')],
       Node ''eat'' ''Eats it'' ''outside'' ''box'' [],
       Node ''bin'' ''Throws it away'' ''waste'' ''box'' [],
       Node ''f3'' (lines [''FAILURE POINT 3'', ''The waste is noticed only'',
             ''once it is too late to act'']) ''waste'' ''box'' [],
       Node ''repeat'' (lines [''Next shop'', ''often buys the same item again'']) ''outside'' ''oval'' [],
       Edge ''trigger'' ''plan'' [] ''outside'' ''solid'' [],
       Edge ''plan'' ''list'' [] ''outside'' ''solid'' [],
       Edge ''list'' ''shop'' [] ''outside'' ''solid'' [],
       Edge ''shop'' ''unpack'' [] ''outside'' ''solid'' [],
       Edge ''shop'' ''topup'' ''midweek'' ''outside'' ''dashed'' [],
       Edge ''topup'' ''unpack'' [] ''outside'' ''dashed'' [],
       Edge ''unpack'' ''store'' [] ''outside'' ''solid'' [],
       Edge ''store'' ''f1'' [] ''waste'' ''solid'' [],
       Edge ''f1'' ''cook'' [] ''waste'' ''solid'' [],
       Edge ''other'' ''cook'' ''or'' ''outside'' ''dashed'' [],
       Edge ''cook'' ''grab'' [] ''outside'' ''solid'' [],
       Edge ''cook'' ''away'' ''some evenings'' ''outside'' ''dashed'' [],
       Edge ''away'' ''f2'' [] ''waste'' ''dashed'' [],
       Edge ''grab'' ''f2'' [] ''waste'' ''solid'' [],
       Edge ''f2'' ''find'' [] ''waste'' ''solid'' [],
       Edge ''find'' ''check'' [] ''decide'' ''solid'' [],
       Edge ''check'' ''eat'' ''yes'' ''decide'' ''solid'' [],
       Edge ''check'' ''bin'' ''no'' ''waste'' ''solid'' [],
       Edge ''bin'' ''f3'' [] ''waste'' ''solid'' [],
       Edge ''f3'' ''repeat'' [] ''waste'' ''solid'' [],
       Legend [(''outside'', ''Something the user does''), (''decide'', ''A decision the user makes''), (''waste'',
             ''Where the process fails'')] ''Current process''],
      fg_file = ''figA_current_process''\<rparr>"

definition figure_d_first_run :: figure where
  "figure_d_first_run =
     \<lparr>fg_name = ''firstrun'',
      fg_attrs = [(''rankdir'', ''TB''), (''splines'', ''polyline''), (''nodesep'', ''0.42''), (''ranksep'', ''0.45''),
                     (''bgcolor'', ''white''), (''fontname'', FONT), (''label'', (lines [[],
                     ''Figure D '' @ em_dash @ '' First-run journey'',
                     ''from hearing about it to the first useful message''])), (''labelloc'', ''t''),
                     (''fontsize'', ''17'')],
      fg_steps =
      [Node ''hear'' (lines [''TRIGGER TO START'', ''Threw food away and felt bad,'', ''saw the cost of a shop,'',
             ''or a friend mentioned it'']) ''outside'' ''oval'' [],
       Node ''install'' ''Installs and opens it'' ''app'' ''box'' [],
       Node ''signup'' (lines [''Creates an account'', approx @ '' 30 seconds'']) ''app'' ''box'' [],
       Node ''setup'' (lines [''Answers four questions'', ''household size '' @ middle_dot @ '' allergies'',
             ''dietary needs '' @ middle_dot @ '' cooking time'', approx @ '' 60 seconds'']) ''app'' ''box'' [],
       Node ''allergy'' (lines [''Allergies are the ONLY'', ''mandatory answer'']) ''system'' ''box'' [],
       Node ''empty'' (lines [''Sees an empty kitchen list'', ''with one clear instruction:'',
             left_quote @ ''photograph your next receipt'' @ right_quote]) ''app'' ''box'' [],
       Node ''wait1'' (lines [''WAITS'', ''until the next shop'', em_dash @ '' up to 7 days '' @ em_dash]) ''decide'' ''box'' [],
       Node ''drop1'' (lines [''DROPS OUT'', ''forgets before shopping again'']) ''waste'' ''box'' [],
       Node ''first'' ''Photographs the FIRST receipt'' ''app'' ''box'' [],
       Node ''build'' (lines [''Kitchen list appears'', approx @ '' 3 seconds'']) ''system'' ''box'' [],
       Node ''cold'' (lines [''COLD START'', ''No history yet, so it uses'', ''typical figures for a'',
             ''household this size'']) ''system'' ''box'' [],
       Node ''gap'' (lines [''THE RISKY GAP'', ''2'' @ en_dash @ ''4 days of silence'', ''before anything is at risk.'',
             ''The user has no evidence'', ''the app does anything'']) ''waste'' ''box'' [],
       Node ''bridge'' (lines [''BRIDGING THE GAP'', middle_dot @ '' Show days remaining immediately'',
             middle_dot @ '' Flag the 2'' @ en_dash @ ''3 riskiest items on day one'',
             middle_dot @ '' Say plainly when the first'', ''  message is expected'']) ''decide'' ''box'' [],
       Node ''msg1'' (lines [''FIRST REAL MESSAGE ARRIVES'', ''naming actual items'']) ''system'' ''box'' [],
       Node ''judge'' ''Was that useful?'' ''decide'' ''diamond'' [(''style'', ''filled'')],
       Node ''keep'' (lines [''KEEPS USING IT'', ''photographs the next receipt'', ''without being reminded'']) ''app'' ''box'' [],
       Node ''drop2'' (lines [''DROPS OUT'', ''suggestion felt irrelevant,'', ''or arrived too late'']) ''waste'' ''box'' [],
       Node ''habit'' (lines [''HABIT FORMED'', ''by roughly the third receipt'',
             ''the app knows this household'']) ''system'' ''oval'' [],
       Edge ''hear'' ''install'' [] ''outside'' ''solid'' [],
       Edge ''install'' ''signup'' [] ''app'' ''solid'' [],
       Edge ''signup'' ''setup'' [] ''app'' ''solid'' [],
       Edge ''setup'' ''allergy'' [] ''system'' ''dashed'' [],
       Edge ''setup'' ''empty'' [] ''app'' ''solid'' [],
       Edge ''empty'' ''wait1'' [] ''decide'' ''solid'' [],
       Edge ''wait1'' ''drop1'' ''forgets'' ''waste'' ''solid'' [],
       Edge ''wait1'' ''first'' ''shops'' ''app'' ''solid'' [],
       Edge ''first'' ''build'' [] ''system'' ''solid'' [],
       Edge ''build'' ''cold'' [] ''system'' ''solid'' [],
       Edge ''cold'' ''gap'' [] ''waste'' ''solid'' [],
       Edge ''gap'' ''bridge'' ''mitigated by'' ''decide'' ''solid'' [],
       Edge ''bridge'' ''msg1'' [] ''system'' ''solid'' [],
       Edge ''msg1'' ''judge'' [] ''decide'' ''solid'' [],
       Edge ''judge'' ''keep'' ''yes'' ''app'' ''solid'' [],
       Edge ''judge'' ''drop2'' ''no'' ''waste'' ''solid'' [],
       Edge ''keep'' ''habit'' [] ''system'' ''solid'' [],
       Legend [(''outside'', ''Outside the app''), (''app'', ''User is in the app''), (''system'', ''System acting alone''),
             (''decide'', ''Decision point or mitigation''), (''waste'', ''User is lost here'')] ''First-run journey''],
      fg_file = ''figD_first_run''\<rparr>"

definition figure_b_with_app :: figure where
  "figure_b_with_app =
     \<lparr>fg_name = ''withapp'',
      fg_attrs = [(''rankdir'', ''TB''), (''splines'', ''polyline''), (''nodesep'', ''0.40''), (''ranksep'', ''0.42''),
                     (''bgcolor'', ''white''), (''fontname'', FONT), (''label'', (lines [[],
                     ''Figure B '' @ em_dash @ '' The same weekly process, with KitchenSense'',
                     ''colour shows who does each step''])), (''labelloc'', ''t''), (''fontsize'', ''17'')],
      fg_steps =
      [Node ''trigger'' (lines [''TRIGGER'', ''Usual shopping day'']) ''outside'' ''oval'' [],
       Node ''shop'' (lines [''Shops as normal'', ''no change in behaviour'']) ''outside'' ''box'' [],
       Node ''photo'' (lines [''Photographs the receipt'', approx @ '' 20 seconds'',
             ''THE ONLY REQUIRED ACTION'']) ''app'' ''box'' [],
       Node ''noreceipt'' (lines [''No receipt?'', ''barcode, voice, or one-tap'', ''from frequent items'']) ''app'' ''box'' [],
       Node ''read_rcpt'' (lines [''Reads the receipt'', ''checks the totals add up'']) ''system'' ''box'' [],
       Node ''match'' ''Matches names to real products'' ''system'' ''box'' [],
       Node ''confirm'' (lines [''Confirms 1'' @ en_dash @ ''2 uncertain items'',
             approx @ '' 10 seconds '' @ middle_dot @ '' only when unsure'']) ''app'' ''box'' [],
       Node ''build'' ''Builds the kitchen list'' ''system'' ''box'' [],
       Node ''storeq'' (lines [''Storage assumed by category'', ''corrected once, then remembered'']) ''system'' ''box'' [],
       Node ''storefix'' (lines [''Corrects storage'', ''if the guess was wrong'',
             middle_dot @ '' one tap, once per product'']) ''app'' ''box'' [],
       Node ''estimate'' (lines [''Estimates days remaining and'', ''how fast this household consumes'']) ''system'' ''box'' [],
       Node ''date'' (lines [''Answers ONE date question'', ''milk, meat '' @ middle_dot @ '' '' @ approx @ '' 5 seconds'',
             ''only for short-life items'']) ''app'' ''box'' [],
       Node ''unpack'' ''Unpacks and puts things away'' ''outside'' ''box'' [],
       Node ''cooks'' ''Cooks during the week'' ''outside'' ''box'' [],
       Node ''used'' (lines [''Taps '' @ left_quote @ ''used half'' @ right_quote, ''only when prompted'']) ''app'' ''box'' [],
       Node ''awaymode'' (lines [''Taps '' @ left_quote @ ''away'' @ right_quote @ '' or '' @ left_quote @ ''eating out'' @ right_quote,
             ''pauses messages'']) ''app'' ''box'' [],
       Node ''daily'' (lines [''EVERY MORNING 06:00'', ''checks the risk scores'']) ''system'' ''box'' [],
       Node ''worth'' (lines [''anything worth'', ''interrupting for?'']) ''decide'' ''diamond'' [(''style'', ''filled'')],
       Node ''quiet'' (lines [''STAYS SILENT'', ''most mornings'']) ''system'' ''box'' [],
       Node ''recipe'' (lines [''Finds a recipe using'', ''the at-risk items'']) ''system'' ''box'' [],
       Node ''safety'' (lines [''Checks allergies and use-by dates'', ''plain rules, not the AI'']) ''system'' ''box'' [],
       Node ''send'' (lines [''Sends ONE message'',
             ''with a '' @ left_quote @ ''freeze it'' @ right_quote @ '' option too'']) ''system'' ''box'' [],
       Node ''read'' ''Reads the message'' ''app'' ''box'' [],
       Node ''act'' (lines [''Cooks it, freezes it,'', ''or does neither'']) ''outside'' ''box'' [],
       Node ''saved'' (lines [''FOOD IS EATEN'', ''not wasted'']) ''system'' ''oval'' [],
       Node ''learn'' (lines [''Learns from the response'', ''and adjusts how often it speaks'']) ''system'' ''box'' [],
       Edge ''trigger'' ''shop'' [] ''outside'' ''solid'' [],
       Edge ''shop'' ''photo'' ''at home, once'' ''app'' ''solid'' [],
       Edge ''shop'' ''noreceipt'' ''cash / market'' ''app'' ''dashed'' [],
       Edge ''noreceipt'' ''build'' [] ''system'' ''dashed'' [],
       Edge ''photo'' ''read_rcpt'' [] ''system'' ''solid'' [],
       Edge ''read_rcpt'' ''match'' [] ''system'' ''solid'' [],
       Edge ''match'' ''confirm'' ''if unsure'' ''app'' ''dashed'' [],
       Edge ''confirm'' ''build'' [] ''system'' ''solid'' [],
       Edge ''match'' ''build'' [] ''system'' ''solid'' [],
       Edge ''build'' ''storeq'' [] ''system'' ''solid'' [],
       Edge ''storeq'' ''storefix'' ''if wrong'' ''app'' ''dashed'' [],
       Edge ''storefix'' ''estimate'' [] ''system'' ''dashed'' [],
       Edge ''storeq'' ''estimate'' [] ''system'' ''solid'' [],
       Edge ''estimate'' ''date'' ''short-life only'' ''app'' ''dashed'' [],
       Edge ''date'' ''unpack'' [] ''outside'' ''dashed'' [],
       Edge ''estimate'' ''unpack'' [] ''outside'' ''solid'' [],
       Edge ''unpack'' ''cooks'' [] ''outside'' ''solid'' [],
       Edge ''cooks'' ''used'' ''when prompted'' ''app'' ''dashed'' [],
       Edge ''cooks'' ''awaymode'' ''if away'' ''app'' ''dashed'' [],
       Edge ''awaymode'' ''daily'' ''pauses'' ''system'' ''dashed'' [],
       Edge ''used'' ''daily'' [] ''system'' ''dashed'' [],
       Edge ''cooks'' ''daily'' [] ''system'' ''solid'' [],
       Edge ''daily'' ''worth'' [] ''system'' ''solid'' [],
       Edge ''worth'' ''quiet'' (''no '' @ em_dash @ '' most days'') ''decide'' ''solid'' [],
       Edge ''quiet'' ''daily'' ''check again tomorrow'' ''system'' ''dotted'' [(''constraint'', ''false'')],
       Edge ''worth'' ''recipe'' ''yes'' ''decide'' ''solid'' [],
       Edge ''recipe'' ''safety'' [] ''system'' ''solid'' [],
       Edge ''safety'' ''recipe'' (''blocked '' @ em_dash @ '' try another'') ''system'' ''dashed'' [(''constraint'', ''false'')],
       Edge ''safety'' ''send'' ''passes'' ''system'' ''solid'' [],
       Edge ''send'' ''read'' [] ''app'' ''solid'' [],
       Edge ''read'' ''act'' [] ''outside'' ''solid'' [],
       Edge ''act'' ''saved'' [] ''system'' ''solid'' [],
       Edge ''act'' ''learn'' [] ''system'' ''dashed'' [],
       Edge ''learn'' ''daily'' ''next run'' ''system'' ''dotted'' [(''constraint'', ''false'')],
       Legend [(''outside'', ''Outside the app '' @ em_dash @ '' real world''), (''app'',
             ''User is in the app (6 boxes, 5 optional)''), (''system'', ''System acting alone''), (''decide'',
             ''Decision point'')] ''Who is doing what''],
      fg_file = ''figB_process_with_app''\<rparr>"

definition figure_e_unhappy_paths :: figure where
  "figure_e_unhappy_paths =
     \<lparr>fg_name = ''unhappy'',
      fg_attrs = [(''rankdir'', ''LR''), (''splines'', ''polyline''), (''nodesep'', ''0.30''), (''ranksep'', ''0.95''),
                     (''bgcolor'', ''white''), (''fontname'', FONT), (''label'', (lines [[],
                     ''Figure E '' @ em_dash @ '' When things go wrong'',
                     ''user-side failures and how each one recovers''])), (''labelloc'', ''t''), (''fontsize'',
                     ''17'')],
      fg_steps =
      [Node ''u1'' (lines [''Photo is blurred'', ''or cut off'']) ''waste'' ''box'' [],
       Node ''u2'' (lines [''An item was read'', ''wrongly'']) ''waste'' ''box'' [],
       Node ''u3'' (lines [''Message about food'', ''already eaten'']) ''waste'' ''box'' [],
       Node ''u4'' (lines [''Suggested recipe is'', ''impractical tonight'']) ''waste'' ''box'' [],
       Node ''u5'' ''Too many messages'' ''waste'' ''box'' [],
       Node ''u6'' (lines [''Stops photographing'', ''receipts'']) ''waste'' ''box'' [],
       Node ''r1'' (lines [''Totals check fails '' @ arrow @ '' asks for a retake'', ''BEFORE anything is saved.'',
             ''Manual entry always available'']) ''system'' ''box'' [],
       Node ''r2'' (lines [''Every item is editable in one tap.'', ''The correction is remembered'',
             ''for that product permanently'']) ''system'' ''box'' [],
       Node ''r3'' (lines [left_quote @ ''Already used it'' @ right_quote @ '' in one tap.'',
             ''Consumption estimate updates,'', ''so it does not repeat'']) ''system'' ''box'' [],
       Node ''r4'' (lines [left_quote @ ''Something else'' @ right_quote @ '' '' @ arrow @ '' another recipe.'',
             left_quote @ ''Freeze it'' @ right_quote @ '' '' @ arrow @ '' a 30-second rescue.'',
             ''Refusal reason is learned'']) ''system'' ''box'' [],
       Node ''r5'' (lines [''Ignored messages raise the'', ''household threshold automatically.'',
             ''The app speaks less, not more'']) ''system'' ''box'' [],
       Node ''r6'' (lines [''Inventory decays rather than'', ''nagging. One gentle reminder,'',
             ''then silence. No guilt messaging'']) ''system'' ''box'' []] @
      map (\<lambda>(a, b). Edge a b ''recovers by'' ''system'' ''solid'' [])
        [(''u1'', ''r1''), (''u2'', ''r2''), (''u3'', ''r3''), (''u4'', ''r4''), (''u5'', ''r5''), (''u6'', ''r6'')] @
      [Node ''exit'' (lines [''ACCEPTED EXIT PATH'', ''If the user stops entirely, the app stays quiet,'',
             ''deletes receipt images after 30 days, and offers'',
             ''full account deletion. It does not chase them.'']) ''decide'' ''box'' [],
       Legend [(''waste'', ''What goes wrong''), (''system'', ''How the design recovers''), (''decide'',
             ''Accepted outcome'')] ''Unhappy paths''],
      fg_file = ''figE_unhappy_paths''\<rparr>"

definition figure_c_traceability :: figure where
  "figure_c_traceability =
     \<lparr>fg_name = ''trace'',
      fg_attrs = [(''rankdir'', ''LR''), (''splines'', ''polyline''), (''nodesep'', ''0.28''), (''ranksep'', ''1.1''),
                     (''bgcolor'', ''white''), (''fontname'', FONT), (''label'', (lines [[],
                     ''Figure C '' @ em_dash @ '' Every feature traced back to a real problem'',
                     ''and how the remaining gaps are partially covered''])), (''labelloc'', ''t''),
                     (''fontsize'', ''17'')],
      fg_steps =
      [Node ''p1'' (lines [''No record of'', ''what was bought'']) ''waste'' ''box'' [],
       Node ''p2'' (lines [''Items at the back'', ''are forgotten'']) ''waste'' ''box'' [],
       Node ''p3'' (lines [''Waste noticed'', ''too late to act'']) ''waste'' ''box'' [],
       Node ''p4'' (lines [''Nothing planned'', ''for tonight'']) ''waste'' ''box'' [],
       Node ''p5'' (lines [''Buys duplicates of'', ''what is already home'']) ''waste'' ''box'' [],
       Node ''p6'' (lines [''The cook did not'', ''do the shopping'']) ''waste'' ''box'' [],
       Node ''f1'' (lines [''Photograph the receipt'', arrow @ '' automatic inventory'']) ''app'' ''box'' [],
       Node ''f2'' (lines [''Risk score per item,'', ''based on this household'']) ''app'' ''box'' [],
       Node ''f3'' (lines [''Daily check '' @ em_dash @ '' message'', ''BEFORE it spoils'']) ''app'' ''box'' [],
       Node ''f4'' (lines [''Recipe built around'', ''the at-risk items'']) ''app'' ''box'' [],
       Node ''f5'' (lines [''Check the kitchen list'', ''while shopping'']) ''app'' ''box'' [],
       Node ''f6'' (lines [''One shared household account'', ''everyone sees the same list'']) ''app'' ''box'' []] @
      map (\<lambda>(a, b). Edge a b ''solved by'' ''app'' ''solid'' [])
        [(''p1'', ''f1''), (''p2'', ''f2''), (''p3'', ''f3''), (''p4'', ''f4''), (''p5'', ''f5''), (''p6'', ''f6'')] @
      [Node ''g1'' (lines [''GAP'', ''No receipt'', ''market stall, cash'']) ''outside'' ''box'' [],
       Node ''g2'' (lines [''GAP'', ''Meals eaten'', ''outside the home'']) ''outside'' ''box'' [],
       Node ''g3'' (lines [''GAP'', ''User may not'', ''actually cook'']) ''outside'' ''box'' [],
       Node ''g4'' (lines [''GAP'', ''Storage location'', ''is never observed'']) ''outside'' ''box'' [],
       Node ''m1'' (lines [''PARTIAL COVER'', middle_dot @ '' Barcode scan'',
             middle_dot @ '' Say it out loud: '' @ left_quote @ ''bought spinach and chicken'' @ right_quote,
             middle_dot @ '' One-tap chips of the 20 most'', ''  frequently bought items'']) ''decide'' ''box'' [],
       Node ''m2'' (lines [''PARTIAL COVER'', middle_dot @ '' Away mode '' @ em_dash @ '' pauses messages and'',
             ''  freezes consumption assumptions'',
             middle_dot @ '' '' @ left_quote @ ''Eating out tonight'' @ right_quote @ '' single tap'',
             middle_dot @ '' Unanswered items assumed eaten,'', ''  not assumed rotting'']) ''decide'' ''box'' [],
       Node ''m3'' (lines [''PARTIAL COVER'',
             middle_dot @ '' '' @ left_quote @ ''Freeze it'' @ right_quote @ '' '' @ em_dash @ '' a 30-second rescue'',
             ''  instead of cooking a whole meal'', middle_dot @ '' Effort filter: 20 minutes or less'',
             middle_dot @ '' Asks why a suggestion was refused'',
             ''  and stops repeating that kind'']) ''decide'' ''box'' [],
       Node ''m4'' (lines [''PARTIAL COVER'', middle_dot @ '' Sensible default per category'',
             middle_dot @ '' Corrected once, then remembered'',
             ''  for that product permanently'']) ''decide'' ''box'' []] @
      map (\<lambda>(a, b). Edge a b ''covered by'' ''decide'' ''solid'' [])
        [(''g1'', ''m1''), (''g2'', ''m2''), (''g3'', ''m3''), (''g4'', ''m4'')] @
      [Node ''x1'' (lines [''STILL OUT OF SCOPE'', middle_dot @ '' Food grown, gifted or foraged'',
             middle_dot @ '' Anything eaten away from home'', middle_dot @ '' Compelling anyone to cook'',
             middle_dot @ '' Nutrition and diet advice'',
             middle_dot @ '' Multiple separate accounts per household'']) ''outside'' ''box'' [],
       Legend [(''waste'', ''Problem seen in the current process''), (''app'', ''Feature that addresses it''), (''decide'',
             ''Partial cover for a gap''), (''outside'', ''Gap, or deliberately excluded'')] ''Traceability''],
      fg_file = ''figC_traceability''\<rparr>"

text \<open>The main block draws them in the order they are presented in, and stops at the first error.\<close>

definition figures :: "figure list" where
  "figures = [figure_a_current_state, figure_d_first_run, figure_b_with_app, figure_e_unhappy_paths, figure_c_traceability]"

fun draw_all :: "figure list \<Rightarrow> script_error + (dot_call list \<times> (string \<times> string) list) list" where
  "draw_all [] = Inr []"
| "draw_all (fig # figs) = bind_sum (draw fig) (\<lambda>d. map_sum id (Cons d) (draw_all figs))"

subsection \<open>Reading a figure\<close>

fun box :: "step \<Rightarrow> (string \<times> string) list" where
  "box (Node name _ layer _ _) = [(name, layer)]"
| "box _ = []"

fun arc :: "step \<Rightarrow> (string \<times> string \<times> string) list" where
  "arc (Edge a b _ _ style _) = [(a, b, style)]"
| "arc _ = []"

fun explained :: "step \<Rightarrow> (string \<times> string) list" where
  "explained (Legend rows _) = rows"
| "explained _ = []"

definition boxes :: "figure \<Rightarrow> (string \<times> string) list" where
  "boxes fig = concat (map box (fg_steps fig))"

definition arcs :: "figure \<Rightarrow> (string \<times> string \<times> string) list" where
  "arcs fig = concat (map arc (fg_steps fig))"

definition legend_entries :: "figure \<Rightarrow> (string \<times> string) list" where
  "legend_entries fig = concat (map explained (fg_steps fig))"

definition legend_layers :: "figure \<Rightarrow> string list" where
  "legend_layers fig = map fst (legend_entries fig)"

definition subset_list :: "'a list \<Rightarrow> 'a list \<Rightarrow> bool" where
  "subset_list xs ys = list_all (\<lambda>x. List.member ys x) xs"

text \<open>
  Well formed: drawn without an error; the boxes have different names, none of them the legend's; every arrow joins two boxes that
  were drawn, since the library adds an empty box for a name it does not know; and the legend explains exactly the
  layers in use.
\<close>

definition well_formed :: "figure \<Rightarrow> bool" where
  "well_formed fig \<longleftrightarrow>
     \<not> isl (draw fig) \<and> distinct (''legend'' # map fst (boxes fig)) \<and>
     subset_list (map fst (arcs fig)) (map fst (boxes fig)) \<and> subset_list (map (fst \<circ> snd) (arcs fig)) (map fst (boxes fig)) \<and>
     distinct (legend_layers fig) \<and> subset_list (map snd (boxes fig)) (legend_layers fig) \<and>
     subset_list (legend_layers fig) (map snd (boxes fig))"

definition entries :: "figure \<Rightarrow> string list" where
  "entries fig = filter (\<lambda>n. \<not> List.member (map (fst \<circ> snd) (arcs fig)) n) (map fst (boxes fig))"

definition outcomes :: "figure \<Rightarrow> string list" where
  "outcomes fig = filter (\<lambda>n. \<not> List.member (map fst (arcs fig)) n) (map fst (boxes fig))"

lemma draw_all_total:
  "list_all (\<lambda>fig. \<not> isl (draw fig)) figs \<Longrightarrow>
     \<exists>ds. draw_all figs = Inr ds \<and> map snd ds = map (render \<circ> fg_file) figs"
proof (induction figs)
  case (Cons fig figs)
  then obtain ds d where "draw_all figs = Inr ds" "map snd ds = map (render \<circ> fg_file) figs" "draw fig = Inr d"
    by (cases "draw fig") auto
  moreover from this(3) have "snd d = render (fg_file fig)"
    by (cases "run_steps (fg_steps fig)") (auto simp: draw_def)
  ultimately show ?case
    by auto
qed simp

lemma figures_well_formed: "list_all well_formed figures"
  by code_simp

text \<open>A box the process passes by: every arrow into it is dashed.\<close>

definition optional_box :: "figure \<Rightarrow> string \<Rightarrow> bool" where
  "optional_box fig n = list_all (\<lambda>(_, _, style). style = ''dashed'') (filter (\<lambda>(_, b, _). b = n) (arcs fig))"

subsection \<open>Properties\<close>

text \<open>
  The script draws five well-formed figures.  Every figure is drawn without an error, has no two boxes of one name, no arrow
  from or to a box that is not drawn, and a legend for exactly the colours it uses; and the fifteen files rendered do not
  overwrite each other.
\<close>

theorem script_draws_well_formed_figures:
  "list_all well_formed figures \<and>
   (\<exists>ds. draw_all figures = Inr ds \<and> length ds = 5 \<and> distinct (concat (map snd ds)))"
proof -
  have "list_all (\<lambda>fig. \<not> isl (draw fig)) figures"
    using figures_well_formed by (simp add: list_all_iff well_formed_def)
  then obtain ds where ds: "draw_all figures = Inr ds" "map snd ds = map (render \<circ> fg_file) figures"
    using draw_all_total by blast
  have "distinct (concat (map (render \<circ> fg_file) figures))" "length figures = 5"
    by code_simp+
  with ds show ?thesis
    using figures_well_formed by (metis length_map)
qed

text \<open>
  Where the processes begin and end.  Today's week begins with the trigger or with the other cook, and ends with the food eaten or with the
  next shop; the first run ends in a habit or in one of two ways of dropping out, beside the note on allergies; with the
  application the only end is food that is eaten.  Of the two remaining figures every failure has its recovery, every
  problem its feature and every gap its partial cover, and one box each stands alone.
\<close>

theorem figures_lead_to_their_ends:
  "entries figure_a_current_state = [''trigger'', ''other''] \<and> outcomes figure_a_current_state = [''eat'', ''repeat''] \<and>
   entries figure_d_first_run = [''hear''] \<and> outcomes figure_d_first_run = [''allergy'', ''drop1'', ''drop2'', ''habit''] \<and>
   entries figure_b_with_app = [''trigger''] \<and> outcomes figure_b_with_app = [''saved''] \<and>
   set (entries figure_e_unhappy_paths) \<inter> set (outcomes figure_e_unhappy_paths) = {''exit''} \<and>
   set (entries figure_c_traceability) \<inter> set (outcomes figure_c_traceability) = {''x1''}"
  by code_simp

text \<open>
  Figure B has eight blue boxes, not six.  Its legend counts six boxes in which the user is in the application, five of them
  optional; the figure draws eight, of which six are entered by dashed arrows only.
\<close>

theorem blue_boxes_are_eight:
  "let blue = map fst (filter (\<lambda>(_, layer). layer = ''app'') (boxes figure_b_with_app)) in
     blue = [''photo'', ''noreceipt'', ''confirm'', ''storefix'', ''date'', ''used'', ''awaymode'', ''read''] \<and>
     filter (optional_box figure_b_with_app) blue =
       [''noreceipt'', ''confirm'', ''storefix'', ''date'', ''used'', ''awaymode''] \<and>
     map_of (legend_entries figure_b_with_app) ''app'' = Some ''User is in the app (6 boxes, 5 optional)''"
  by code_simp

end
