(* ===== verification/Spec2Isabelle.thy ===== *)
theory Spec2Isabelle
  imports Package_Modules Schema_Meaning Service_Behaviour Alembic_Env Service_Tasks Concurrent_Posts Concurrent_Confirms Azure_Clients Process_Figures
begin

text \<open>
  A verification of KitchenSense, the service under \<^verbatim>\<open>src/kitchensense\<close> that keeps a household's kitchen record: an
  append-only log of inventory events, the inventory folded from it, and receipt uploads, behind a
  token-authenticated HTTP API.

  \<^bold>\<open>The parts and how they interact.\<close>  A request enters through \<^verbatim>\<open>main.py\<close> and a router of \<^verbatim>\<open>api/\<close>.  Its
  dependencies verify the token (\<^verbatim>\<open>auth/\<close>), find the database (\<^verbatim>\<open>db/\<close>), derive the household from the token
  (\<^verbatim>\<open>domain/household.py\<close>) and create its row on first sight; the handler calls a repository
  (\<^verbatim>\<open>repositories/\<close>) with that household, which runs statements on the tables (\<^verbatim>\<open>models/\<close>, \<^verbatim>\<open>alembic/\<close>) and folds
  what they return (\<^verbatim>\<open>domain/inventory.py\<close>); uploads also go through the blob store (\<^verbatim>\<open>storage/receipts.py\<close>).

  \<^bold>\<open>The theories, in the order they build on each other.\<close>

  \<^item> \<open>Kitchen_Prelude\<close>: errors as sums and their bind, insertion-ordered dictionaries, and \<open>keyed_merge\<close>, the locale of
    keyed commutative merging that the fold is an instance of.
  \<^item> \<open>Py_Stdlib\<close>, \<open>Py_Uuid5\<close>: what the code uses of Python: strings, UUIDs as 128-bit words, dates, JSON values, UTF-8,
    SHA-1 and \<^verbatim>\<open>uuid5\<close>.  A character is one of the first 256 code points.
  \<^item> \<open>Domain_Inventory\<close>: \<^verbatim>\<open>domain/inventory.py\<close>.  Quantities are integers of thousandths, instants are integers of
    microseconds.  Order independence, replay, the specification \<open>spec_lot\<close> of a lot and its refinement.
  \<^item> \<open>Domain_Receipts\<close>, \<open>Domain_Household\<close>: blob names and household ids.
  \<^item> \<open>Kitchen_Tables\<close>: the rows, the constraints, the statements as functions on a database of five lists, refused
    with an error value; \<open>db_ok\<close> says all constraints hold, \<open>db_step\<close> is one statement.
  \<^item> \<open>Sql_Schema\<close>, \<open>Schema_Declared\<close>, \<open>Schema_Agreement\<close>, \<open>Schema_Meaning\<close>: the schema as a catalogue of types, tables, constraints, indexes
    and triggers.  The row classes of \<^verbatim>\<open>models/\<close> declare one, with the naming convention of \<^verbatim>\<open>db/base.py\<close>; the operations of the migrations build
    one; the two agree, each downgrade undoes its upgrade, and \<open>satisfies\<close>, what the catalogue says of the rows with its checks read
    from their text, is \<open>db_ok\<close>.
  \<^item> \<open>Repo_Events\<close>, \<open>Repo_Snapshots\<close>, \<open>Repo_Uploads\<close>: the repositories, one definition per method.  The locales
    \<open>event_log\<close>, \<open>snapshot_store\<close> and \<open>tenant_read\<close> are the contracts between them, interpreted on these definitions.
  \<^item> \<open>Settings\<close>: \<^verbatim>\<open>config.py\<close>.
  \<^item> \<open>Storage_Receipts\<close>, \<open>Auth_Tokens\<close>, \<open>Db_Provider\<close>: the three stateful services a process holds -- the cached
    delegation key, the cached signing keys, the lazily built engine -- each a record with its operations and an
    invariant over every history of calls.
  \<^item> \<open>Azure_Clients\<close>: the two functions that run in a worker thread, \<^verbatim>\<open>_fetch_key_from_azure\<close> and \<^verbatim>\<open>_read_secret\<close>, as traces of SDK
    calls with \<^verbatim>\<open>try\<close> and \<^verbatim>\<open>finally\<close>: whatever raises, what was opened is closed.
  \<^item> \<open>Async_Lock\<close>, \<open>Provider_Tasks\<close>, \<open>Store_Tasks\<close>, \<open>Key_Tasks\<close>, \<open>Verify_Tasks\<close>, \<open>Service_Tasks\<close>: the coroutines of those three services under an event
    loop, \<open>Verify_Tasks\<close> the whole validation of a token.  \<open>Async_Lock\<close> is the loop, as moves of a list of tasks around one lock, with two contracts: \<open>lock_discipline\<close> (mutual exclusion,
    progress, a bound on every schedule) and \<open>double_checked\<close> (every schedule is a sequence of calls).  The other theories give each
    method as a coroutine from one \<^verbatim>\<open>await\<close> to the next, interpret the contracts on it, and bound the requests to the outside.
  \<^item> \<open>Concurrent_Posts\<close>, \<open>Concurrent_Confirms\<close>: requests whose SQL statements interleave, each statement at READ COMMITTED on the
    committed rows and the transaction's own, a guarded insert waiting for a competing one.  Posts refine a serial order; racing
    confirmations stay in bounds but overwrite each other.
  \<^item> \<open>Migrations\<close>, \<open>Alembic_Env\<close>: the four revisions on the stored rows, and the script that runs them in a deployment, with the
    \<^verbatim>\<open>ConfigParser\<close> the database URL passes through.
  \<^item> \<open>Api_Schemas\<close>, \<open>Api_Security\<close>, \<open>Api_Service\<close>: validation, the challenge, and the service: \<open>serve\<close> maps a request
    and the state \<open>app\<close> to a reply and the next state.
  \<^item> \<open>Service_Tenancy\<close>, \<open>Service_Behaviour\<close>: the contract \<open>household_handler\<close> of a protected endpoint, interpreted on each of
    them, the life of the service as a step relation, and the lemmas on sequences of requests.
  \<^item> \<open>Process_Figures\<close>: \<^verbatim>\<open>docs/process_flow.py\<close>, the figures as the calls the script makes of the drawing library.
  \<^item> \<open>Module_Imports\<close>, \<open>Package_Modules\<close>: Python's import of modules and packages, and the import statements, exports and top-level names of every
    module of the service.  The locale \<open>import_order\<close> is an order of modules in which nothing is missing; under it any module can be imported
    first, and the service's modules are an instance.
  \<^item> This theory: the properties that span components.

  \<^bold>\<open>What is an argument.\<close>  Code that is not in the repository is an argument of the definitions that call it: PyJWT and
  httpx (\<open>jwt_library\<close>), the Azure SDK (\<open>azure_sdk\<close>, and as seen by its callers \<open>fetch_key\<close>, \<open>sign\<close>, \<open>ow_get_secret\<close>), SQLAlchemy's URLs and engine
  (\<open>outside\<close>), pydantic's reading of scalars (\<open>pydantic\<close>), and the clocks, the generated ids and whether the database
  answers (\<open>world\<close>).  What is relied on of them is stated where it is: \<open>keys_as_asked\<close>, that a delegation key is valid for
  the window asked for (\<open>sdk_keys_as_asked\<close> of the SDK itself), \<open>secrets_usable\<close>, that a secret the vault answered with is a URL
  the engine accepts, and \<open>strips_spaces\<close>, that a stripped string does not begin with a space.

  \<^bold>\<open>Choices.\<close>  Every loop of the model is over a list or a number of steps given beforehand.  Fuel appears in \<open>solo\<close>, which runs one
  coroutine alone, and in \<open>load\<close>, which imports a module.  Seven suspensions are enough for \<^verbatim>\<open>KeySource.signing_key\<close> and nine for
  \<^verbatim>\<open>TokenVerifier.verify\<close>: \<open>signing_key_alone\<close> and \<open>verify_alone\<close> show that they end within them.  Imports nest no deeper than four times the number
  of modules and three: \<open>every_module_imports_first\<close> shows that they succeed with more fuel than that.
  The handlers of \<open>Api_Service\<close> are functions from state to state, one request after the other.  That this says something about a
  process that runs many at once is the subject of \<open>Service_Tasks\<close> for the caches in memory and of \<open>Concurrent_Posts\<close> for the
  database; where it does not carry over the theories say so: \<open>advance_misses_late_commit\<close>, \<open>open_transaction_changes_the_past\<close>,
  \<open>racing_confirmation_is_overwritten\<close> and \<open>failing_refreshes_are_not_limited\<close>.  A statement that the database refuses aborts the request;
  \<^verbatim>\<open>commit()\<close> itself does not fail.

  \<^bold>\<open>Not modelled.\<close>  Logging; \<^verbatim>\<open>__repr__\<close>; how an index is used to find rows; what a module does while it is imported besides binding names; the
  comparison options \<^verbatim>\<open>alembic/env.py\<close> gives to autogeneration, which no code of the repository runs; what the Azure SDK, Graphviz, Alembic,
  SQLAlchemy, PyJWT, httpx and pydantic do inside; cancellation of a request by its client; the infrastructure templates.
\<close>

section \<open>Examples\<close>

definition example_world :: "(nat, datetime \<times> datetime) world" where
  "example_world =
     \<lparr>w_float_of = (\<lambda>_. Some 1), w_lib = example_lib, w_clock = (\<lambda>i. 500),
      w_outside = example_outside\<lparr>ow_environ := [''DATABASE_URL'' \<mapsto> ''postgresql://app'']\<rparr>,
      w_provider_now = 1, w_provider_failed_at = 1, w_sign = (\<lambda>_. ''sig''), w_fetch_key = example_fetch,
      w_pydantic = example_pydantic, w_connection = Connected, w_now = 1000000, w_household_now = 5,
      w_transaction_now = 12, w_new_id = 1, w_uuid4 = 3\<rparr>"

lemma example_world_sel [simp]:
  "w_pydantic example_world = example_pydantic" "w_connection example_world = Connected" "w_now example_world = 1000000"
  "w_household_now example_world = 5" "w_transaction_now example_world = 12" "w_new_id example_world = 1"
  "w_uuid4 example_world = 3"
  by (simp_all add: example_world_def)

definition example_app :: "(nat, datetime \<times> datetime) app" where
  "example_app =
     \<lparr>app_verifier = Some example_verifier, app_database = Some (new_database example_db_settings),
      app_receipt_store = Some (new_store example_settings),
      app_db = empty_db\<lparr>db_products := db_products example_db\<rparr>\<rparr>"

definition home :: uuid where
  "home = projr (principal_household_id example_principal)"

definition example_home_db :: kitchen_db where
  "example_home_db = (app_db example_app)\<lparr>db_households :=
     [\<lparr>hr_id = home, hr_name = ''Household user-1'', hr_timezone = ''Europe/London'', hr_created_at = 5\<rparr>]\<rparr>"

lemma example_home: "principal_household_id example_principal = Inr home"
proof -
  have "\<not> is_blank (pc_issuer example_principal)" "\<not> is_blank (pc_subject example_principal)"
    by code_simp+
  then obtain h where "principal_household_id example_principal = Inr h"
    unfolding principal_household_id_def using household_id_for_Inr_iff by blast
  then show ?thesis
    by (simp add: home_def)
qed

lemma home_not_placeholder: "home \<noteq> PLACEHOLDER_HOUSEHOLD_ID"
proof -
  have "uuid_version home = 5"
    using example_home household_id_for_Inr_iff uuid5_version by (metis principal_household_id_def)
  moreover have "uuid_version PLACEHOLDER_HOUSEHOLD_ID = 4"
    by code_simp
  ultimately show ?thesis
    by auto
qed

lemma example_app_ok: "db_ok (app_db example_app)"
  using example_db_ok by (simp add: example_app_def db_ok_def tables_ok_defs empty_db_def)

definition example_signed_in :: "(nat, datetime \<times> datetime) app" where
  "example_signed_in = snd (authenticate example_world (Some ''token'') example_app)"

definition example_in_session :: "(nat, datetime \<times> datetime) app" where
  "example_in_session = snd (get_session example_world example_signed_in)"

lemma example_authenticated: "authenticate example_world (Some ''token'') example_app = (Inr example_principal, example_signed_in)"
  by code_simp

lemma example_session: "get_session example_world example_signed_in = (Inr (), example_in_session)"
  by code_simp

lemma example_ensured:
  "ensure 5 home ''Household user-1'' ''Europe/London'' (app_db example_app) = Inr (True, example_home_db)"
proof -
  have "\<not> household_exists (app_db example_app) home"
    by (simp add: example_app_def household_exists_def empty_db_def)
  then show ?thesis
    by (simp add: ensure_unfold[OF example_app_ok] ensure_insert_def insert_household_if_new_def store_household_def varchar_def
        household_checks_def not_blank_def btrim_def example_home_db_def)
      (simp add: example_app_def empty_db_def)
qed

lemma example_dependencies:
  "dependencies example_world (Some ''token'') example_app = (Inr home, example_in_session\<lparr>app_db := example_home_db\<rparr>)"
proof -
  have name: "household_name example_principal = ''Household user-1''"
    by code_simp
  have "app_db example_in_session = app_db example_app"
    using authenticate_frame(1)[OF example_authenticated] get_session_frame(1)[OF example_session] by simp
  then have "get_household_id example_world example_principal example_in_session =
      (Inr home, example_in_session\<lparr>app_db := example_home_db\<rparr>)"
    using example_ensured by (simp add: get_household_id_def example_home name)
  then show ?thesis
    by (simp add: dependencies_def example_authenticated example_session)
qed

text \<open>A second request of the same user finds the household and changes nothing.\<close>

lemma example_home_ok: "db_ok example_home_db"
  using dependencies_household_exists(2)[OF example_app_ok example_dependencies] by simp

definition example_warm_verifier :: "nat verifier" where
  "example_warm_verifier = the (app_verifier example_in_session)"

definition example_warm_database :: database where
  "example_warm_database = the (app_database example_in_session)"

lemma example_warm:
  "app_verifier example_in_session = Some example_warm_verifier" "app_database example_in_session = Some example_warm_database"
  "get_principal example_lib (\<lambda>i. 500) (Some ''token'') example_warm_verifier = (Inr example_principal, example_warm_verifier)"
  "sessionmaker (w_outside example_world) 1 1 example_warm_database = (Inr ''postgresql+asyncpg://app'', example_warm_database)"
  by code_simp+

lemma example_dependencies_again:
  assumes "db_ok (app_db app)" and "household_exists (app_db app) home"
    and "app_verifier app = Some example_warm_verifier" and "app_database app = Some example_warm_database"
  shows "dependencies example_world (Some ''token'') app = (Inr home, app)"
proof -
  have w: "w_lib example_world = example_lib" "w_clock example_world = (\<lambda>i. 500)" "w_provider_now example_world = 1"
      "w_provider_failed_at example_world = 1"
    by (simp_all add: example_world_def)
  have "authenticate example_world (Some ''token'') app = (Inr example_principal, app)"
    using assms(3) example_warm(3) w by (simp add: authenticate_def ensure_verifier_def)
  moreover have "get_session example_world app = (Inr (), app)"
    using assms(4) example_warm(4) w by (simp add: get_session_def ensure_database_def)
  moreover have "get_household_id example_world example_principal app = (Inr home, app)"
    using assms(1,2) by (simp add: get_household_id_def example_home ensure_unfold)
  ultimately show ?thesis
    by (simp add: dependencies_def)
qed

lemmas example_defs = example_home_db_def example_app_def example_db_def empty_db_def

definition example_home_log :: kitchen_db where
  "example_home_log = example_home_db\<lparr>db_events :=
     [row_of_values 1 12 (to_values home (create_to_domain (example_create ''L'')))]\<rparr>"

lemma example_posted:
  "append_if_new 1 12 home (create_to_domain (example_create ''L'')) example_home_db =
     Inr ((event_to_domain (row_of_values 1 12 (to_values home (create_to_domain (example_create ''L'')))), True), example_home_log)"
proof -
  let ?row = "row_of_values 1 12 (to_values home (create_to_domain (example_create ''L'')))"
  have unit: "normalize_unit ''L'' = ''l''"
    by code_simp
  have "store_event ?row = Inr ?row" "event_checks ?row"
    by (simp_all add: store_event_def row_of_values_def to_values_def create_to_domain_def example_create_def varchar_def unit
        event_checks_def label_needs_date_def not_blank_def btrim_def fits_numeric_14_3_def)
  moreover have "event_refs example_home_db ?row"
    by (simp add: refs_defs example_defs row_of_values_def to_values_def create_to_domain_def example_create_def)
  ultimately show ?thesis
    by (simp add: append_if_new_def insert_event_if_new_def example_home_log_def)
      (simp add: example_defs)
qed

lemma example_post:
  "serve example_world (Some ''token'') (PostEvent (Json (example_body ''L''))) example_app =
     (respond 201 (EventBody (event_response_from_domain example_pydantic
        (event_to_domain (row_of_values 1 12 (to_values home (create_to_domain (example_create ''L''))))))),
      example_in_session\<lparr>app_db := example_home_log\<rparr>)"
  using example_posted
  by (simp add: serve_def protected_def example_dependencies post_event_def validated_def example_validated append_event_def)

section \<open>Properties of the service\<close>

text \<open>
  C1: no request of one household changes anything of another.  Whatever is sent, with whatever token, every row the
  tables hold of a household other than the one the validated token determines -- its household row, its events,
  its stored projection, its uploads -- is the same before and after; a request that does not authenticate
  changes no household's rows.
\<close>

theorem requests_are_isolated:
  assumes "db_ok (app_db app)" and "serve w c req app = (rp, app')"
    and "\<forall>p. fst (authenticate w c app) = Inr p \<longrightarrow> principal_household_id p \<noteq> Inr g"
  shows "tenant_view g (app_db app') = tenant_view g (app_db app)"
  using serve_handle[OF assms(2)] handle_isolated[OF assms(1)] assms(3) by blast

theorem requests_are_isolated_witness:
  "tenant_view PLACEHOLDER_HOUSEHOLD_ID example_home_log = tenant_view PLACEHOLDER_HOUSEHOLD_ID (app_db example_app)"
  using requests_are_isolated[OF example_app_ok example_post, of PLACEHOLDER_HOUSEHOLD_ID] home_not_placeholder
  by (simp add: example_authenticated example_home)

text \<open>
  C2: the service keeps the record.  Over any run of the service -- starts, stops, and requests of anybody in any
  order, answered or refused -- every constraint of the schema stays true of the committed database, and
  the log of events only grows: what was recorded before is a prefix of what is recorded after.
\<close>

theorem service_keeps_the_record:
  assumes "db_ok (app_db app)" and "service_step\<^sup>*\<^sup>* app app'"
  shows "db_ok (app_db app') \<and>
    take (length (db_events (app_db app))) (db_events (app_db app')) = db_events (app_db app)"
proof -
  note steps = service_steps_db[OF assms(2,1)]
  from db_steps_log[OF steps] obtain new where "db_events (app_db app') = db_events (app_db app) @ new"
    by blast
  with db_steps_ok[OF steps assms(1)] show ?thesis
    by simp
qed

theorem service_keeps_the_record_witness: "db_ok example_home_log"
proof -
  have "service_step example_app (example_in_session\<lparr>app_db := example_home_log\<rparr>)"
    by (rule service_step.answers[OF example_post])
  from service_keeps_the_record[OF example_app_ok r_into_rtranclp[of service_step, OF this]] show ?thesis
    by simp
qed



text \<open>
  C4: posting an event twice records it once.  If a POST of an event was answered 201 or 200, the same body posted again by
  the same household -- at any later time, whatever ids the database would generate -- is answered 200 with the
  same event, and the committed database does not change.
\<close>

theorem post_is_idempotent:
  assumes "db_ok (app_db app)" and "dependencies w c app = (Inr h, a)"
    and "serve w c (PostEvent b) app = (rp, app1)" and "rp_status rp \<in> {200, 201}"
    and "w_pydantic w' = w_pydantic w" and "dependencies w' c' app1 = (Inr h, a')"
  shows "\<exists>app2. serve w' c' (PostEvent b) app1 = (rp\<lparr>rp_status := 200\<rparr>, app2) \<and> app_db app2 = app_db app1"
proof -
  note deps = dependencies_household_exists[OF assms(1,2)]
  obtain v where json: "read_body b = Inr v"
    using assms(3,4) by (cases b) (auto simp: serve_def respond_def http_exception_of_def)
  obtain r where r: "post_event w v h a = (r, app1)"
    using assms(2,3) json by (auto simp: serve_def protected_def split: prod.splits sum.splits)
  have "r = Inr rp"
  proof (cases r)
    case (Inl e)
    then have "rp = exception_response e"
      using assms(2,3) r json by (auto simp: serve_def protected_def)
    with post_event_status[of w v h a e app1] r Inl assms(4) show ?thesis
      by auto
  next
    case (Inr x)
    then show ?thesis
      using assms(2,3) r json by (auto simp: serve_def protected_def)
  qed
  note first = r[unfolded this]
  have steps: "db_step\<^sup>*\<^sup>* (app_db a) (app_db app1)"
    by (rule posted.run_steps[OF deps(2) first])
  have ok1: "db_ok (app_db app1)"
    by (rule db_steps_ok[OF steps deps(2)])
  have exists: "household_exists (app_db app1) h"
    using deps(1) first
    by (auto simp: post_event_def household_exists_def insert_event_if_new_Inr
        elim!: validated_cases append_event_cases append_if_new_cases split: if_splits)
  have "app_db a' = app_db app1"
    by (rule dependencies_known_household[OF ok1 exists assms(6)])
  from post_event_again[OF deps(2) first assms(5) this] obtain app3 where
    "post_event w' v h a' = (Inr (rp\<lparr>rp_status := 200\<rparr>), app3)" "app_db app3 = app_db app1"
    by blast
  then show ?thesis
    using json assms(6) by (auto simp: serve_def protected_def)
qed

theorem post_is_idempotent_witness:
  "\<exists>app2. serve example_world (Some ''token'') (PostEvent (Json (example_body ''L'')))
      (example_in_session\<lparr>app_db := example_home_log\<rparr>) =
    (respond 200 (EventBody (event_response_from_domain example_pydantic
        (event_to_domain (row_of_values 1 12 (to_values home (create_to_domain (example_create ''L''))))))), app2) \<and>
    app_db app2 = example_home_log"
proof -
  have "db_ok example_home_log"
    using db_steps_ok[OF r_into_rtranclp[of db_step, OF append_if_new_step[OF example_posted]] example_home_ok] .
  moreover have "household_exists example_home_log home"
    by (simp add: example_home_log_def example_home_db_def household_exists_def)
  ultimately have "dependencies example_world (Some ''token'') (example_in_session\<lparr>app_db := example_home_log\<rparr>) =
      (Inr home, example_in_session\<lparr>app_db := example_home_log\<rparr>)"
    by (intro example_dependencies_again) (simp_all add: example_warm)
  from post_is_idempotent[OF example_app_ok example_dependencies example_post _ refl this] show ?thesis
    by (simp add: respond_def)
qed

text \<open>
  C7: a reply reveals only the household's own rows.  Two databases that satisfy the constraints and agree on the rows of the
  household the token determines give the same reply to every read of the inventory and to every confirmation
  of an upload, however different they are elsewhere: an upload of somebody else is answered exactly as one that
  does not exist.
\<close>

theorem replies_reveal_only_own_rows:
  assumes "db_ok (app_db app)" and "db_ok d" and "same_household_view w c app d"
    and "req \<in> {GetInventory, GetInventoryAsOf ts, PostConfirm i}"
  shows "fst (serve w c req (app\<lparr>app_db := d\<rparr>)) = fst (serve w c req app)"
proof -
  note same = protected_same_reply[OF assms(1-3)]
  have "fst (handle w c req (app\<lparr>app_db := d\<rparr>)) = fst (handle w c req app)"
    using assms(4)
  proof (elim insertE)
    assume req: "req = GetInventory"
    have "fst (current_snapshot w h a) = fst (current_snapshot w h b)"
      if "scoped_events (app_db a) h = scoped_events (app_db b) h" for h a b
      unfolding current_snapshot_def by (rule snapshot_at_rows[OF that])
    then show ?thesis
      unfolding req handle.simps by (rule same)
  next
    assume req: "req = GetInventoryAsOf ts"
    have "fst (get_as_of w ts h a) = fst (get_as_of w ts h b)"
      if "scoped_events (app_db a) h = scoped_events (app_db b) h" for h a b
      using snapshot_at_rows[OF that] by (simp add: get_as_of_def validated_def snapshot_as_of_def split: option.split)
    then show ?thesis
      unfolding req handle.simps by (rule same)
  next
    assume req: "req = PostConfirm i"
    have "fst (post_confirm w i h a) = fst (post_confirm w i h b)"
      if "db_ok (app_db a)" "db_ok (app_db b)" "scoped_uploads (app_db a) h = scoped_uploads (app_db b) h" for h a b
      using confirm_upload_rows[OF that] by (simp add: post_confirm_def validated_def split: option.split)
    then show ?thesis
      unfolding req handle.simps by (rule same)
  qed simp
  then show ?thesis
    by (auto simp: serve_def split: prod.split sum.split)
qed

theorem replies_reveal_only_own_rows_witness:
  "fst (serve example_world (Some ''token'') GetInventory
      (example_app\<lparr>app_db := projr (insert_placeholder 0 (app_db example_app))\<rparr>)) =
   fst (serve example_world (Some ''token'') GetInventory example_app)"
proof -
  let ?d = "projr (insert_placeholder 0 (app_db example_app))"
  have d: "insert_placeholder 0 (app_db example_app) = Inr ?d"
    by (simp add: insert_placeholder_unfold)
  have "tenant_view home (app_db example_app) = tenant_view home ?d"
    using home_not_placeholder
    by (auto simp: insert_placeholder_unfold tenant_view_def placeholder_row_def)
  then have "same_household_view example_world (Some ''token'') example_app ?d"
    by (simp add: same_household_view_def example_authenticated example_home)
  from replies_reveal_only_own_rows[OF example_app_ok insert_placeholder_ok[OF example_app_ok d] this] show ?thesis
    by blast
qed

text \<open>
  C8: the past is what it was.  A snapshot as of an instant, asked for again after any number of requests of anybody whose
  transactions the database's clock stamps after that instant, is the same reply -- whatever \<^verbatim>\<open>occurred_at\<close> those
  requests claimed, since no request can choose when it was recorded.
\<close>

theorem past_snapshots_are_stable:
  assumes "db_ok (app_db app)" and "pd_aware_datetime (w_pydantic w) (JStr ts) = Some t"
    and "dependencies w c app = (Inr h, a)"
    and "(later_step t)\<^sup>*\<^sup>* a app1"
    and "w_pydantic w' = w_pydantic w" and "dependencies w' c' app1 = (Inr h, a')"
  shows "fst (serve w' c' (GetInventoryAsOf (Some ts)) app1) = fst (serve w c (GetInventoryAsOf (Some ts)) app) \<and>
    rp_status (fst (serve w c (GetInventoryAsOf (Some ts)) app)) = 200"
proof -
  note deps = dependencies_household_exists[OF assms(1,3)]
  note later = later_steps_known[OF assms(4) deps(2)]
  have "events_known_as_of (app_db a') h t None = events_known_as_of (app_db app1) h t None"
    using dependencies_household_exists(3)[OF conjunct1[OF conjunct2[OF later]] assms(6)]
    by (simp add: events_known_as_of_def scoped_events_def)
  then have "project_known_as_of (app_db a') h t = project_known_as_of (app_db a) h t"
    using later by (simp add: project_known_as_of_def)
  then show ?thesis
    using get_as_of_reply[OF assms(2)] get_as_of_reply[of w' ts t] assms(2,3,5,6)
    by (simp add: serve_def protected_def respond_def)
qed

theorem past_snapshots_are_stable_witness:
  "fst (serve example_world (Some ''token'') (GetInventoryAsOf (Some ''2026-03-05T18:30:00Z'')) (example_in_session\<lparr>app_db := example_home_log\<rparr>)) =
   fst (serve example_world (Some ''token'') (GetInventoryAsOf (Some ''2026-03-05T18:30:00Z'')) example_app)"
proof -
  have again: "dependencies example_world (Some ''token'') (example_in_session\<lparr>app_db := d\<rparr>) =
      (Inr home, example_in_session\<lparr>app_db := d\<rparr>)" if "db_ok d" "household_exists d home" for d
    using that by (intro example_dependencies_again) (simp_all add: example_warm)
  have ok: "db_ok example_home_log" "household_exists example_home_log home" "household_exists example_home_db home"
    using db_steps_ok[OF r_into_rtranclp[of db_step, OF append_if_new_step[OF example_posted]] example_home_ok]
    by (simp_all add: example_home_log_def example_home_db_def household_exists_def)
  have "serve example_world (Some ''token'') (PostEvent (Json (example_body ''L''))) (example_in_session\<lparr>app_db := example_home_db\<rparr>) =
     (respond 201 (EventBody (event_response_from_domain example_pydantic
        (event_to_domain (row_of_values 1 12 (to_values home (create_to_domain (example_create ''L''))))))),
      example_in_session\<lparr>app_db := example_home_log\<rparr>)"
    using example_posted again[OF example_home_ok ok(3)]
    by (simp add: serve_def protected_def post_event_def validated_def example_validated append_event_def)
  then have "later_step 10 (example_in_session\<lparr>app_db := example_home_db\<rparr>) (example_in_session\<lparr>app_db := example_home_log\<rparr>)"
    by (rule later_step.intros) simp
  then have "(later_step 10)\<^sup>*\<^sup>* (example_in_session\<lparr>app_db := example_home_db\<rparr>) (example_in_session\<lparr>app_db := example_home_log\<rparr>)"
    by blast
  from past_snapshots_are_stable[OF example_app_ok _ example_dependencies this refl again[OF ok(1,2)]] show ?thesis
    by (simp add: example_pydantic_def)
qed

text \<open>
  C9: the current inventory is the log, folded.  Once the dependencies let a request through, GET /inventory is answered 200
  with a snapshot of that household as of the server's clock, and each of its lots is the specification's lot over
  exactly the events of the household that both clocks have reached; the request changes nothing.
\<close>

theorem inventory_is_the_folded_log:
  assumes "dependencies w c app = (Inr h, a)"
  shows "\<exists>s. serve w c GetInventory app = (respond 200 (SnapshotBody (snapshot_response_from_domain (w_pydantic w) s)), a) \<and>
    sn_household_id s = h \<and> sn_as_of s = w_now w \<and> snapshot_inv s \<and>
    lot s = spec_lot (events_known_as_of (app_db a) h (w_now w) None)"
proof -
  have "serve w c GetInventory app =
      (respond 200 (SnapshotBody (snapshot_response_from_domain (w_pydantic w) (projection (app_db a) h (w_now w)))), a)"
    using assms by (simp add: serve_def protected_def current_snapshot_def snapshot_at_def project_total)
  then show ?thesis
    using projection_lots(2,3) projection_inv fold_events_spec[OF fold_projection] by blast
qed

theorem inventory_is_the_folded_log_witness:
  "\<exists>s. serve example_world (Some ''token'') GetInventory example_app =
      (respond 200 (SnapshotBody (snapshot_response_from_domain example_pydantic s)), example_in_session\<lparr>app_db := example_home_db\<rparr>) \<and>
    sn_household_id s = home"
  using inventory_is_the_folded_log[OF example_dependencies] by auto

lemma upload_served:
  assumes "db_ok (app_db app)" and "dependencies w c app = (Inr h, a)"
    and "serve w c (PostUpload b) app = (rp, app1)" and "rp_status rp = 201"
  obtains row t where "db_ok (app_db app1)" and "db_uploads (app_db app1) = db_uploads (app_db app) @ [row]"
    and "rp_body rp = TicketBody t" and "rt_upload_id t = w_uuid4 w"
    and "ur_id row = w_uuid4 w" and "ur_household_id row = h" and "ur_requested_at row = w_now w"
    and "ur_confirmed_at row = None" and "ur_blob_name row = receipt_blob_name h (w_uuid4 w) (w_now w)"
proof -
  note deps = dependencies_household_exists[OF assms(1,2)]
  obtain v where json: "read_body b = Inr v"
    using assms(3,4) by (cases b) (auto simp: serve_def respond_def http_exception_of_def)
  obtain r where r: "post_upload w v h a = (r, app1)"
    using assms(2,3) json by (auto simp: serve_def protected_def split: prod.splits sum.splits)
  have "r = Inr rp"
    using assms(2,3,4) r json post_upload_status[of w v h a _ app1]
    by (cases r) (auto simp: serve_def protected_def)
  note first = r[unfolded this]
  have ok: "db_ok (app_db app1)"
    using db_steps_ok[OF requested.run_steps[OF deps(2) first] deps(2)] .
  from post_upload_recorded[OF first] obtain row t where
    row: "db_uploads (app_db app1) = db_uploads (app_db a) @ [row]" "ur_id row = w_uuid4 w" "ur_household_id row = h"
      "ur_requested_at row = w_now w" "ur_confirmed_at row = None" "ur_blob_name row = receipt_blob_name h (w_uuid4 w) (w_now w)"
    and t: "rp = respond 201 (TicketBody t)" "rt_upload_id t = w_uuid4 w"
    by metis
  show thesis
    by (rule that[OF ok _ _ t(2) row(2-6)]) (simp_all add: row(1) deps(4) t(1) respond_def)
qed

lemma confirm_served:
  assumes "db_ok (app_db app)" and "dependencies w c app = (Inr g, a)"
    and "row \<in> set (db_uploads (app_db app))" and "ur_confirmed_at row = None"
    and "pd_uuid (w_pydantic w) (JStr i) = Some (ur_id row)" and "ur_requested_at row \<le> w_now w"
  shows "if g = ur_household_id row
     then \<exists>x. rp_status (fst (serve w c (PostConfirm i) app)) = 200 \<and>
       rp_body (fst (serve w c (PostConfirm i) app)) = ConfirmationBody x \<and>
       rc_upload_id x = ur_id row \<and> rc_confirmed_at x = w_now w
     else rp_status (fst (serve w c (PostConfirm i) app)) = 404 \<and>
       db_uploads (app_db (snd (serve w c (PostConfirm i) app))) = db_uploads (app_db app)"
proof -
  note deps = dependencies_household_exists[OF assms(1,2)]
  have row: "row \<in> set (db_uploads (app_db a))"
    using assms(3) deps(4) by simp
  have serve: "serve w c (PostConfirm i) app =
      (case post_confirm w i g a of (Inl e, app') \<Rightarrow> (exception_response e, app') | (Inr r, app') \<Rightarrow> (r, app'))"
    using assms(2) by (simp add: serve_def protected_def)
  show ?thesis
  proof (cases "g = ur_household_id row")
    case True
    from post_confirm_found[OF deps(2) row _ assms(4) _ assms(5)] assms(6) True show ?thesis
      unfolding serve by (auto simp: respond_def)
  next
    case False
    then have "ur_household_id row \<noteq> g"
      by simp
    from post_confirm_foreign[OF deps(2) row this assms(5)] deps(4) False show ?thesis
      unfolding serve by auto
  qed
qed

text \<open>
  C10: the life of an upload.  When a request for an upload is answered 201, exactly one row is added, committed, and not confirmed:
  the id in the reply, the household of the token, and the blob name derived from both.  A confirmation of that id
  is then answered 200 with the server's clock when the same household sends it, and 404 when any other household
  does, whose request changes no upload.
\<close>

theorem upload_lifecycle:
  assumes "db_ok (app_db app)" and "dependencies w c app = (Inr h, a)"
    and "serve w c (PostUpload b) app = (rp, app1)" and "rp_status rp = 201"
    and "dependencies w' c' app1 = (Inr g, a')"
    and "pd_uuid (w_pydantic w') (JStr i) = Some (w_uuid4 w)" and "w_now w \<le> w_now w'"
  shows "(\<exists>row t. db_uploads (app_db app1) = db_uploads (app_db app) @ [row] \<and> rp_body rp = TicketBody t \<and>
      rt_upload_id t = w_uuid4 w \<and> ur_id row = w_uuid4 w \<and> ur_household_id row = h \<and> ur_confirmed_at row = None \<and>
      ur_blob_name row = receipt_blob_name h (w_uuid4 w) (w_now w)) \<and>
    (if g = h
     then \<exists>x. rp_status (fst (serve w' c' (PostConfirm i) app1)) = 200 \<and>
       rp_body (fst (serve w' c' (PostConfirm i) app1)) = ConfirmationBody x \<and>
       rc_upload_id x = w_uuid4 w \<and> rc_confirmed_at x = w_now w'
     else rp_status (fst (serve w' c' (PostConfirm i) app1)) = 404 \<and>
       db_uploads (app_db (snd (serve w' c' (PostConfirm i) app1))) = db_uploads (app_db app1))"
proof -
  from upload_served[OF assms(1-4)] obtain row t where ok: "db_ok (app_db app1)"
    and up: "db_uploads (app_db app1) = db_uploads (app_db app) @ [row]" "rp_body rp = TicketBody t" "rt_upload_id t = w_uuid4 w"
    and row: "ur_id row = w_uuid4 w" "ur_household_id row = h" "ur_requested_at row = w_now w" "ur_confirmed_at row = None"
      "ur_blob_name row = receipt_blob_name h (w_uuid4 w) (w_now w)" .
  have "row \<in> set (db_uploads (app_db app1))"
    by (simp add: up(1))
  from confirm_served[OF ok assms(5) this row(4), of i] up row assms(6,7) show ?thesis
    by auto
qed

lemma example_ticket_issued:
  "upload_ticket (w_sign example_world) (w_fetch_key example_world) home 3 1000000 JPEG (new_store example_settings) =
     (Inr \<lparr>ut_blob_name = receipt_blob_name home 3 1000000,
        ut_url = blob_url example_settings (receipt_blob_name home 3 1000000) @ ''?sig'',
        ut_expires_at = 301000000, ut_content_type = JPEG, ut_method = ''PUT''\<rparr>,
      \<lparr>bs_settings = example_settings, bs_key = Some (-299000000, 3601000000), bs_key_usable_until = 3301000000\<rparr>)"
proof -
  let ?st = "new_store example_settings :: (datetime \<times> datetime) blob_store"
  have "is_configured ?st" "bs_settings ?st = example_settings"
    "delegation_key example_fetch 1000000 ?st = (Inr (-299000000, 3601000000),
      \<lparr>bs_settings = example_settings, bs_key = Some (-299000000, 3601000000), bs_key_usable_until = 3301000000\<rparr>)"
    "timedelta_us (st_upload_sas_ttl_seconds example_settings) = 300000000"
    by code_simp+
  then show ?thesis
    by (simp add: upload_ticket_Inr example_world_def)
qed

lemma example_upload_recorded:
  obtains u db where "record_request home 3 (receipt_blob_name home 3 1000000) ''image/jpeg'' 1000000 301000000 example_home_db = Inr (u, db)"
proof -
  have "varchar 400 (receipt_blob_name home 3 1000000) = Inr (receipt_blob_name home 3 1000000)"
    using set_blob_name[of home 3 1000000] by (auto simp: varchar_def uuid_alphabet_eval)
  moreover have "not_blank (receipt_blob_name home 3 1000000)"
  proof (rule not_blank_hd)
    show "receipt_blob_name home 3 1000000 \<noteq> []"
      using length_blob_name[of home 3 1000000] by (metis list.size(3) zero_neq_numeral)
    then show "hd (receipt_blob_name home 3 1000000) \<noteq> CHR '' ''"
      using blob_name_no_space[of home 3 1000000] hd_in_set by metis
  qed
  ultimately show thesis
    by (intro that) (simp_all add: record_request_def insert_upload_def store_upload_def varchar_def[of 128] upload_checks_def
        not_blank_def[of "''image/jpeg''"] btrim_def upload_refs_def household_exists_def example_defs)
qed

theorem upload_lifecycle_witness:
  "\<exists>app1. rp_status (fst (serve example_world (Some ''token'') (PostConfirm ''3'') app1)) = 200"
proof -
  from example_upload_recorded obtain u db where
    rec: "record_request home 3 (receipt_blob_name home 3 1000000) ''image/jpeg'' 1000000 301000000 example_home_db = Inr (u, db)" .
  then have hs: "db_households db = db_households example_home_db"
    by (auto simp: record_request_def bind_sum_Inr_iff insert_upload_Inr)
  have store: "app_receipt_store example_in_session = Some (new_store example_settings)"
    using authenticate_frame(3)[OF example_authenticated] get_session_frame(3)[OF example_session] by (simp add: example_app_def)
  have body: "upload_request (JObject fmempty) = Some JPEG"
    by code_simp
  obtain rp app1 where post: "serve example_world (Some ''token'') (PostUpload (Json (JObject fmempty))) example_app = (rp, app1)"
    by (cases "serve example_world (Some ''token'') (PostUpload (Json (JObject fmempty))) example_app")
  then have res: "rp_status rp = 201" "app_db app1 = db" "app_verifier app1 = Some example_warm_verifier"
      "app_database app1 = Some example_warm_database"
    using store rec body
    by (auto simp: serve_def protected_def example_dependencies post_upload_def ensure_receipt_store_def validated_def
        request_upload_def example_ticket_issued example_warm respond_def)
  have "db_ok (app_db app1)"
    using record_request_ok[OF example_home_ok rec] res(2) by simp
  moreover have "household_exists (app_db app1) home"
    using hs res(2) by (simp add: household_exists_def example_home_db_def)
  ultimately have "dependencies example_world (Some ''token'') app1 = (Inr home, app1)"
    using res(3,4) by (rule example_dependencies_again)
  from upload_lifecycle[OF example_app_ok example_dependencies post res(1) this, of "''3''"] show ?thesis
    by (auto simp: example_pydantic_def)
qed

lemma optional_text_hd: "optional_text v = Some s \<Longrightarrow> s \<noteq> [] \<and> hd s \<noteq> CHR '' ''"
proof -
  assume "optional_text v = Some s"
  then obtain raw where s: "s = strip raw" "s \<noteq> []"
    by (cases v rule: optional_text.cases) (auto simp: Let_def split: if_splits)
  then have "\<not> is_space (hd s)"
    using hd_strip[of raw] by simp
  then show "s \<noteq> [] \<and> hd s \<noteq> CHR '' ''"
    using s(2) space_is_space by metis
qed

lemma household_name_not_blank:
  assumes "to_principal str_of float_of settings claims = Inr p"
  shows "not_blank (household_name p)"
proof -
  let ?label = "case pc_name p of Some n \<Rightarrow> n | None \<Rightarrow> (case pc_email p of Some e \<Rightarrow> e | None \<Rightarrow> ''Household '' @ pc_subject p)"
  have "?label \<noteq> [] \<and> hd ?label \<noteq> CHR '' ''"
  proof (cases "pc_name p")
    case (Some n)
    then show ?thesis
      using optional_text_hd[of "fmlookup claims ''name''" n] to_principal_Inr(6)[OF assms] by simp
  next
    case None
    then show ?thesis
      using optional_text_hd[of "email_claim claims" "the (pc_email p)"] to_principal_Inr(7)[OF assms]
      by (cases "optional_text (email_claim claims)") simp_all
  qed
  then show ?thesis
    unfolding household_name_def by (intro not_blank_hd) (auto simp: hd_take)
qed



end
